(* ===== verification/Prelude.thy ===== *)
theory Prelude
  imports Main "HOL-Library.Word" "HOL-Library.List_Lexorder" "HOL-Library.Char_ord"
begin

text \<open>
  Shared vocabulary of the development: the Go types the components use (byte slices, the
  fixed-width integers), the values a Go call can end in (a result or a panic), signed
  wrap-around on mathematical integers, sorted association lists and the lemmas about them that
  several components need.
\<close>

unbundle bit_operations_syntax

named_theorems go_simps \<open>evaluation of the Go-level helper functions\<close>
named_theorems wrap_simps \<open>wrap-around of in-range values is the identity\<close>

subsection \<open>Go types\<close>

type_synonym byte = "8 word"
type_synonym bytes = "8 word list"
type_synonym i64 = "64 word"

text \<open>What a call returns when the Go code may panic: \<open>Inl\<close> is the panic.\<close>

datatype panic =
    Panic string            \<comment> \<open>an explicit \<open>panic("...")\<close> of the source\<close>
  | NilDereference          \<comment> \<open>run-time panic: nil pointer dereference\<close>
  | TypeAssertion           \<comment> \<open>run-time panic: failed type assertion \<open>x.(T)\<close>\<close>
  | DivideByZero            \<comment> \<open>run-time panic: integer divide by zero\<close>
  | IndexOutOfRange         \<comment> \<open>run-time panic: slice or array index out of range\<close>
  | StackOverflow           \<comment> \<open>the goroutine stack exceeds its limit\<close>
  | OutOfGasException string     \<comment> \<open>the panic of a gas meter past its limit\<close>
  | GasOverflowException string  \<comment> \<open>the panic of a gas meter whose count overflows\<close>

type_synonym 'a result = "panic + 'a"

definition bindR :: "'e + 'a \<Rightarrow> ('a \<Rightarrow> 'e + 'b) \<Rightarrow> 'e + 'b" where
  "bindR r f = (case r of Inl e \<Rightarrow> Inl e | Inr x \<Rightarrow> f x)"

lemma bindR_simps [simp]:
  "bindR (Inl e) f = Inl e"
  "bindR (Inr x) f = f x"
  by (simp_all add: bindR_def)

lemma bindR_eq_Inr: "bindR r f = Inr y \<longleftrightarrow> (\<exists>x. r = Inr x \<and> f x = Inr y)"
  by (cases r) simp_all

lemma bindR_elim:
  assumes "bindR r f = Inr y"
  obtains x where "r = Inr x" "f x = Inr y"
  using assms by (auto simp: bindR_eq_Inr)

lemma bindR_assoc: "bindR (bindR r f) g = bindR r (\<lambda>x. bindR (f x) g)"
  by (cases r) simp_all

subsection \<open>Signed wrap-around\<close>

text \<open>
  The value a \<open>w\<close>-bit signed Go integer holds after an operation whose mathematical result is
  \<open>x\<close>: two's complement reduction into \<open>[-2\<^sup>w\<^sup>-\<^sup>1, 2\<^sup>w\<^sup>-\<^sup>1)\<close>.
\<close>

definition swrap :: "nat \<Rightarrow> int \<Rightarrow> int" where
  "swrap w x = (x + 2 ^ (w - 1)) mod 2 ^ w - 2 ^ (w - 1)"

lemma swrap_id [wrap_simps]:
  assumes "0 < w" "- (2 ^ (w - 1)) \<le> x" "x < 2 ^ (w - 1)"
  shows "swrap w x = x"
proof -
  have "(2::int) ^ w = 2 * 2 ^ (w - 1)"
    using assms(1) by (cases w) simp_all
  then show ?thesis
    using assms by (simp add: swrap_def)
qed

lemma swrap8_id [wrap_simps]: "-128 \<le> x \<Longrightarrow> x \<le> 127 \<Longrightarrow> swrap 8 x = x"
  by (rule swrap_id) simp_all
lemma swrap64_id [wrap_simps]: "- (2^63) \<le> x \<Longrightarrow> x < 2 ^ 63 \<Longrightarrow> swrap 64 x = x"
  by (rule swrap_id) simp_all

subsection \<open>Sorted association lists\<close>

text \<open>
  The abstract value of an ordered key-value component is the list of its entries by ascending key:
  \<open>kput\<close> and \<open>kdel\<close> are its specification of a write and of a deletion.
\<close>

definition kput :: "'k::linorder \<Rightarrow> 'v \<Rightarrow> ('k \<times> 'v) list \<Rightarrow> ('k \<times> 'v) list" where
  "kput k v xs = filter (\<lambda>e. fst e < k) xs @ (k, v) # filter (\<lambda>e. k < fst e) xs"

definition kdel :: "'k \<Rightarrow> ('k \<times> 'v) list \<Rightarrow> ('k \<times> 'v) list" where
  "kdel k xs = filter (\<lambda>e. fst e \<noteq> k) xs"

lemma map_of_filter_key: "map_of (filter (\<lambda>e. P (fst e)) xs) q = (if P q then map_of xs q else None)"
  by (induction xs) auto

lemma map_of_kput: "map_of (kput k v xs) = (map_of xs)(k \<mapsto> v)"
  using map_of_filter_key[of "\<lambda>a. a < k" xs] map_of_filter_key[of "\<lambda>a. k < a" xs]
  by (intro ext) (auto simp: kput_def map_add_def split: option.split)

lemma map_of_kdel: "map_of (kdel k xs) = (map_of xs)(k := None)"
  using map_of_filter_key[of "\<lambda>a. a \<noteq> k" xs] by (auto simp: kdel_def)

lemma set_keys_kput: "fst ` set (kput k v xs) = insert k (fst ` set xs)"
  by (force simp: kput_def)

lemma kput_append1: "\<forall>e \<in> set ys. q < fst e \<Longrightarrow> kput q y (xs @ ys) = kput q y xs @ ys"
proof -
  assume a: "\<forall>e \<in> set ys. q < fst e"
  have "filter (\<lambda>e. fst e < q) ys = []" "filter (\<lambda>e. q < fst e) ys = ys"
    using a by (auto simp: filter_empty_conv filter_id_conv dest: less_asym)
  then show ?thesis by (simp add: kput_def)
qed
lemma kput_append2: "\<forall>e \<in> set xs. fst e < q \<Longrightarrow> kput q y (xs @ ys) = xs @ kput q y ys"
proof -
  assume a: "\<forall>e \<in> set xs. fst e < q"
  have "filter (\<lambda>e. q < fst e) xs = []" "filter (\<lambda>e. fst e < q) xs = xs"
    using a by (auto simp: filter_empty_conv filter_id_conv dest: less_asym)
  then show ?thesis by (simp add: kput_def)
qed

lemma length_kput_mem:
  "sorted_wrt (<) (map fst xs) \<Longrightarrow> length (kput k v xs) = (if k \<in> fst ` set xs then length xs else Suc (length xs))"
proof (induction xs)
  case Nil
  then show ?case by (simp add: kput_def)
next
  case (Cons e xs)
  consider "fst e < k" | "fst e = k" | "k < fst e" by fastforce
  then show ?case
  proof cases
    case 1
    then show ?thesis using Cons by (auto simp: kput_def)
  next
    case 2
    then have "\<forall>e\<in>set xs. k < fst e" using Cons.prems by auto
    then have "filter (\<lambda>e. fst e < k) xs = []" "filter (\<lambda>e. k < fst e) xs = xs"
      by (auto simp: filter_empty_conv filter_id_conv dest: less_asym)
    then show ?thesis using 2 by (simp add: kput_def)
  next
    case 3
    then have "\<forall>x\<in>set (e # xs). k < fst x" using Cons.prems by (auto intro: less_trans)
    then have "kput k v ([] @ e # xs) = kput k v [] @ e # xs" "k \<notin> fst ` set (e # xs)"
      by (auto simp only: kput_append1)
    then show ?thesis by (simp add: kput_def)
  qed
qed

lemma length_kput_le: "length (kput q y xs) \<le> length xs + 1"
proof -
  have "length (filter (\<lambda>e. fst e < q) xs) + length (filter (\<lambda>e. q < fst e) xs) \<le> length xs"
    by (induction xs) (auto dest: less_asym)
  then show ?thesis by (simp add: kput_def)
qed

lemma kdel_append: "kdel q (xs @ ys) = kdel q xs @ kdel q ys"
  by (simp add: kdel_def)
lemma kdel_notin: "q \<notin> fst ` set xs \<Longrightarrow> kdel q xs = xs"
  by (auto simp: kdel_def filter_id_conv)
lemma set_keys_kdel: "fst ` set (kdel k xs) = fst ` set xs - {k}"
  by (auto simp: kdel_def)
lemma length_kdel_le: "length (kdel k xs) \<le> length xs"
  by (simp add: kdel_def)


lemma map_of_append_left: "q \<notin> fst ` set ys \<Longrightarrow> map_of (xs @ ys) q = map_of xs q"
  by (simp add: map_add_def dom_map_of_conv_image_fst[symmetric] domIff split: option.split)

lemma map_of_append_right: "q \<notin> fst ` set xs \<Longrightarrow> map_of (xs @ ys) q = map_of ys q"
  by (simp add: map_add_def dom_map_of_conv_image_fst[symmetric] domIff split: option.split)

subsection \<open>Iteration with early stop\<close>

text \<open>
  What an iterator with a callback does: the entries are handed over in order until the callback,
  a function of its own state, asks to stop.
\<close>

fun visit :: "('k \<Rightarrow> 'v \<Rightarrow> 's \<Rightarrow> bool \<times> 's) \<Rightarrow> ('k \<times> 'v) list \<Rightarrow> 's \<Rightarrow> bool \<times> 's" where
  "visit fn [] st = (False, st)"
| "visit fn ((k, x) # es) st =
     (let (stop, st') = fn k x st in if stop then (True, st') else visit fn es st')"

lemma visit_append:
  "visit fn (xs @ ys) st = (let (stop, st') = visit fn xs st in
     if stop then (True, st') else visit fn ys st')"
  by (induction fn xs st rule: visit.induct) (auto split: prod.splits)

lemma visit_single [simp]: "visit fn [(k, x)] st = fn k x st"
  by (auto split: prod.splits)

definition ordered :: "bool \<Rightarrow> 'a list \<Rightarrow> 'a list" where
  "ordered asc xs = (if asc then xs else rev xs)"

lemma ordered_append:
  "ordered asc (xs @ ys) = (if asc then ordered asc xs @ ordered asc ys else ordered asc ys @ ordered asc xs)"
  by (simp add: ordered_def)


end
