(* ===== verification/Gno_Types.thy ===== *)
theory Gno_Types
  imports Prelude
begin

text \<open>
  The types of the interpreted language (\<^verbatim>\<open>pkgs/gnolang/types.go\<close>): primitive types, the composite
  types, their kinds, and the classification of untyped constants. The struct \<open>DeclaredType\<close> keeps
  its package path, name and base; its method table and the memoised \<open>typeid\<close> fields of the Go
  structs are left out. A recursive occurrence of a declared type is a \<open>RefType\<close>.
\<close>

datatype PrimitiveType =
    InvalidType | UntypedBoolType | BoolType | UntypedStringType | StringType
  | IntType | Int8Type | Int16Type | UntypedRuneType | Int32Type | Int64Type
  | UintType | Uint8Type | DataByteType | Uint16Type | Uint32Type | Uint64Type
  | Float32Type | Float64Type | UntypedBigintType | BigintType | UntypedBigdecType | BigdecType

datatype Kind =
    InvalidKind | BoolKind | StringKind | IntKind | Int8Kind | Int16Kind | Int32Kind | Int64Kind
  | UintKind | Uint8Kind | Uint16Kind | Uint32Kind | Uint64Kind | Float32Kind | Float64Kind
  | BigintKind | BigdecKind | ArrayKind | SliceKind | PointerKind | StructKind | PackageKind
  | InterfaceKind | ChanKind | FuncKind | MapKind | TypeKind | BlockKind | TupleKind | RefTypeKind

text \<open>The kinds of Go's \<open>reflect\<close> package, for the types of native Go values.\<close>

datatype reflectKind =
    rInvalid | rBool | rInt | rInt8 | rInt16 | rInt32 | rInt64
  | rUint | rUint8 | rUint16 | rUint32 | rUint64 | rUintptr
  | rFloat32 | rFloat64 | rComplex64 | rComplex128
  | rArray | rChan | rFunc | rInterface | rMap | rPtr | rSlice | rString | rStruct | rUnsafePointer

datatype ChanDir = SEND | RECV | SENDRECV

datatype Type =
    Primitive PrimitiveType
  | PointerType Type
  | FieldTypeT FieldType
  | ArrayType int Type bool
  | SliceType Type bool
  | StructType string "FieldType list"
  | FuncType "FieldType list" "FieldType list"
  | MapType Type Type
  | InterfaceType string "FieldType list" string
  | TypeType
  | DeclaredType string string Type
  | PackageType
  | ChanType ChanDir Type
  | NativeType reflectKind string string
  | blockType
  | tupleType "Type list"
  | RefType string
  | MaybeNativeType Type
and FieldType = FieldType (fName: string) (fType: Type) (fEmbedded: bool) (fTag: string)

subsection \<open>Primitive types\<close>

fun Specificity :: "PrimitiveType \<Rightarrow> int result" where
  "Specificity InvalidType = Inl (Panic ''invalid type has no specificity'')"
| "Specificity BoolType = Inr 0"
| "Specificity StringType = Inr 0"
| "Specificity IntType = Inr 0"
| "Specificity Int8Type = Inr 0"
| "Specificity Int16Type = Inr 0"
| "Specificity Int32Type = Inr 0"
| "Specificity Int64Type = Inr 0"
| "Specificity UintType = Inr 0"
| "Specificity Uint8Type = Inr 0"
| "Specificity DataByteType = Inr 0"
| "Specificity Uint16Type = Inr 0"
| "Specificity Uint32Type = Inr 0"
| "Specificity Uint64Type = Inr 0"
| "Specificity Float32Type = Inr 0"
| "Specificity Float64Type = Inr 0"
| "Specificity BigintType = Inr 1"
| "Specificity BigdecType = Inr 2"
| "Specificity UntypedBigdecType = Inr 3"
| "Specificity UntypedStringType = Inr 4"
| "Specificity UntypedBigintType = Inr 4"
| "Specificity UntypedRuneType = Inr 5"
| "Specificity UntypedBoolType = Inr 6"

fun PrimitiveKind :: "PrimitiveType \<Rightarrow> Kind result" where
  "PrimitiveKind InvalidType = Inl (Panic ''invalid type has no kind'')"
| "PrimitiveKind BoolType = Inr BoolKind"
| "PrimitiveKind UntypedBoolType = Inr BoolKind"
| "PrimitiveKind StringType = Inr StringKind"
| "PrimitiveKind UntypedStringType = Inr StringKind"
| "PrimitiveKind IntType = Inr IntKind"
| "PrimitiveKind Int8Type = Inr Int8Kind"
| "PrimitiveKind Int16Type = Inr Int16Kind"
| "PrimitiveKind Int32Type = Inr Int32Kind"
| "PrimitiveKind UntypedRuneType = Inr Int32Kind"
| "PrimitiveKind Int64Type = Inr Int64Kind"
| "PrimitiveKind UintType = Inr UintKind"
| "PrimitiveKind Uint8Type = Inr Uint8Kind"
| "PrimitiveKind DataByteType = Inr Uint8Kind"
| "PrimitiveKind Uint16Type = Inr Uint16Kind"
| "PrimitiveKind Uint32Type = Inr Uint32Kind"
| "PrimitiveKind Uint64Type = Inr Uint64Kind"
| "PrimitiveKind Float32Type = Inr Float32Kind"
| "PrimitiveKind Float64Type = Inr Float64Kind"
| "PrimitiveKind BigintType = Inr BigintKind"
| "PrimitiveKind UntypedBigintType = Inr BigintKind"
| "PrimitiveKind BigdecType = Inr BigdecKind"
| "PrimitiveKind UntypedBigdecType = Inr BigdecKind"

fun PrimitiveTypeID :: "PrimitiveType \<Rightarrow> string result" where
  "PrimitiveTypeID InvalidType = Inl (Panic ''invalid type has no typeid'')"
| "PrimitiveTypeID UntypedBoolType = Inr ''<untyped> bool''"
| "PrimitiveTypeID BoolType = Inr ''bool''"
| "PrimitiveTypeID UntypedStringType = Inr ''<untyped> string''"
| "PrimitiveTypeID StringType = Inr ''string''"
| "PrimitiveTypeID IntType = Inr ''int''"
| "PrimitiveTypeID Int8Type = Inr ''int8''"
| "PrimitiveTypeID Int16Type = Inr ''int16''"
| "PrimitiveTypeID UntypedRuneType = Inr ''<untyped> rune''"
| "PrimitiveTypeID Int32Type = Inr ''int32''"
| "PrimitiveTypeID Int64Type = Inr ''int64''"
| "PrimitiveTypeID UintType = Inr ''uint''"
| "PrimitiveTypeID Uint8Type = Inr ''uint8''"
| "PrimitiveTypeID DataByteType = Inl (Panic ''untyped data byte type has no typeid'')"
| "PrimitiveTypeID Uint16Type = Inr ''uint16''"
| "PrimitiveTypeID Uint32Type = Inr ''uint32''"
| "PrimitiveTypeID Uint64Type = Inr ''uint64''"
| "PrimitiveTypeID Float32Type = Inr ''float32''"
| "PrimitiveTypeID Float64Type = Inr ''float64''"
| "PrimitiveTypeID UntypedBigintType = Inr ''<untyped> bigint''"
| "PrimitiveTypeID BigintType = Inr ''bigint''"
| "PrimitiveTypeID UntypedBigdecType = Inr ''<untyped> bigdec''"
| "PrimitiveTypeID BigdecType = Inr ''bigdec''"

fun PrimitiveString :: "PrimitiveType \<Rightarrow> string" where
  "PrimitiveString InvalidType = ''<invalid type>''"
| "PrimitiveString UntypedBoolType = ''<untyped> bool''"
| "PrimitiveString BoolType = ''bool''"
| "PrimitiveString UntypedStringType = ''<untyped> string''"
| "PrimitiveString StringType = ''string''"
| "PrimitiveString IntType = ''int''"
| "PrimitiveString Int8Type = ''int8''"
| "PrimitiveString Int16Type = ''int16''"
| "PrimitiveString UntypedRuneType = ''<untyped> int32''"
| "PrimitiveString Int32Type = ''int32''"
| "PrimitiveString Int64Type = ''int64''"
| "PrimitiveString UintType = ''uint''"
| "PrimitiveString Uint8Type = ''uint8''"
| "PrimitiveString DataByteType = ''<databyte> uint8''"
| "PrimitiveString Uint16Type = ''uint16''"
| "PrimitiveString Uint32Type = ''uint32''"
| "PrimitiveString Uint64Type = ''uint64''"
| "PrimitiveString Float32Type = ''float32''"
| "PrimitiveString Float64Type = ''float64''"
| "PrimitiveString UntypedBigintType = ''<untyped> bigint''"
| "PrimitiveString BigintType = ''bigint''"
| "PrimitiveString UntypedBigdecType = ''<untyped> bigdec''"
| "PrimitiveString BigdecType = ''bigdec''"

definition PrimitiveElem :: "PrimitiveType \<Rightarrow> Type result" where
  "PrimitiveElem pt = bindR (PrimitiveKind pt) (\<lambda>k.
     if k = StringKind then Inr (Primitive Uint8Type)
     else Inl (Panic ''non-string primitive types have no elements''))"

subsection \<open>Kinds of all types\<close>

fun NativeKind :: "reflectKind \<Rightarrow> Kind result" where
  "NativeKind rBool = Inr BoolKind"
| "NativeKind rString = Inr StringKind"
| "NativeKind rInt = Inr IntKind"
| "NativeKind rInt8 = Inr Int8Kind"
| "NativeKind rInt16 = Inr Int16Kind"
| "NativeKind rInt32 = Inr Int32Kind"
| "NativeKind rInt64 = Inr Int64Kind"
| "NativeKind rUint = Inr UintKind"
| "NativeKind rUint8 = Inr Uint8Kind"
| "NativeKind rUint16 = Inr Uint16Kind"
| "NativeKind rUint32 = Inr Uint32Kind"
| "NativeKind rUint64 = Inr Uint64Kind"
| "NativeKind rArray = Inr ArrayKind"
| "NativeKind rChan = Inr ChanKind"
| "NativeKind rFunc = Inr FuncKind"
| "NativeKind rMap = Inr MapKind"
| "NativeKind rPtr = Inr PointerKind"
| "NativeKind rSlice = Inr SliceKind"
| "NativeKind rStruct = Inr StructKind"
| "NativeKind rInterface = Inr InterfaceKind"
| "NativeKind _ = Inl (Panic ''unexpected native kind'')"

text \<open>The method \<open>Kind\<close> of every implementation of the interface \<open>Type\<close>.\<close>

fun TKind :: "Type \<Rightarrow> Kind result" where
  "TKind (Primitive pt) = PrimitiveKind pt"
| "TKind (FieldTypeT ft) = Inl (Panic ''FieldType is a pseudotype of unknown kind'')"
| "TKind (ArrayType n e vrd) = Inr ArrayKind"
| "TKind (SliceType e vrd) = Inr SliceKind"
| "TKind (PointerType e) = Inr PointerKind"
| "TKind (StructType p fs) = Inr StructKind"
| "TKind PackageType = Inr PackageKind"
| "TKind (InterfaceType p ms g) = Inr InterfaceKind"
| "TKind (ChanType d e) = Inr ChanKind"
| "TKind (FuncType ps rs) = Inr FuncKind"
| "TKind (MapType k v) = Inr MapKind"
| "TKind TypeType = Inr TypeKind"
| "TKind (DeclaredType p n b) = TKind b"
| "TKind (NativeType rk p s) = NativeKind rk"
| "TKind blockType = Inr BlockKind"
| "TKind (tupleType ts) = Inr TupleKind"
| "TKind (RefType i) = Inr RefTypeKind"
| "TKind (MaybeNativeType t) = TKind t"

fun baseOf :: "Type option \<Rightarrow> Type option" where
  "baseOf (Some (DeclaredType p n b)) = Some b"
| "baseOf t = t"

definition declareWith :: "string \<Rightarrow> string \<Rightarrow> Type option \<Rightarrow> Type result" where
  "declareWith pkgPath name b = (case baseOf b of
     None \<Rightarrow> Inl NilDereference
   | Some b' \<Rightarrow> Inr (DeclaredType pkgPath name b'))"

definition KindOf :: "Type option \<Rightarrow> Kind result" where
  "KindOf t = (case baseOf t of
     Some (Primitive pt) \<Rightarrow> PrimitiveKind pt
   | Some (DeclaredType p n b) \<Rightarrow> Inl (Panic ''unexpected nested DeclaredType'')
   | Some (FieldTypeT ft) \<Rightarrow> Inl (Panic ''FieldType is a pseudotype'')
   | Some (ArrayType n e vrd) \<Rightarrow> Inr ArrayKind
   | Some (SliceType e vrd) \<Rightarrow> Inr SliceKind
   | Some (PointerType e) \<Rightarrow> Inr PointerKind
   | Some (StructType p fs) \<Rightarrow> Inr StructKind
   | Some PackageType \<Rightarrow> Inr PackageKind
   | Some (InterfaceType p ms g) \<Rightarrow> Inr InterfaceKind
   | Some (ChanType d e) \<Rightarrow> Inr ChanKind
   | Some (FuncType ps rs) \<Rightarrow> Inr FuncKind
   | Some (MapType k v) \<Rightarrow> Inr MapKind
   | Some TypeType \<Rightarrow> Inr TypeKind
   | Some (NativeType rk p s) \<Rightarrow> NativeKind rk
   | Some blockType \<Rightarrow> Inr BlockKind
   | Some (tupleType ts) \<Rightarrow> Inr TupleKind
   | Some (RefType i) \<Rightarrow> Inr RefTypeKind
   | Some (MaybeNativeType t') \<Rightarrow> TKind t'
   | None \<Rightarrow> Inl (Panic ''unexpected type''))"

subsection \<open>Untyped constants\<close>

definition isUntyped :: "Type option \<Rightarrow> bool" where
  [go_simps]: "isUntyped t \<longleftrightarrow>
     t \<in> {Some (Primitive UntypedBoolType), Some (Primitive UntypedRuneType),
          Some (Primitive UntypedBigintType), Some (Primitive UntypedBigdecType),
          Some (Primitive UntypedStringType)}"

definition isDataByte :: "Type option \<Rightarrow> bool" where
  [go_simps]: "isDataByte t \<longleftrightarrow> t = Some (Primitive DataByteType)"

definition defaultTypeOf :: "Type option \<Rightarrow> Type result" where
  [go_simps]: "defaultTypeOf t =
     (if t = Some (Primitive UntypedBoolType) then Inr (Primitive BoolType)
      else if t = Some (Primitive UntypedRuneType) then Inr (Primitive Int32Type)
      else if t = Some (Primitive UntypedBigintType) then Inr (Primitive IntType)
      else if t = Some (Primitive UntypedBigdecType) then Inr (Primitive Float64Type)
      else if t = Some (Primitive UntypedStringType) then Inr (Primitive StringType)
      else Inl (Panic ''unexpected type for default untyped const conversion''))"

fun isNative :: "Type option \<Rightarrow> bool" where
  "isNative (Some (NativeType rk p s)) = True"
| "isNative _ = False"

end
