(* ===== verification/Go_Float.thy ===== *)
theory Go_Float
  imports Prelude
begin

text \<open>
  Go's \<open>float32\<close> and \<open>float64\<close> as IEEE 754 bit patterns: decoding, rounding to nearest even,
  arithmetic, comparison and conversion, exact on every finite value, infinity and signed zero.
  What the language leaves to the machine is a parameter, the record \<open>fpu\<close>: which NaN an operation
  returns, and the integer that results from converting a value outside the target's range.
\<close>

subsection \<open>Formats\<close>

text \<open>A format is given by the number of fraction bits and of exponent bits.\<close>

record ffmt =
  mbits :: nat
  ebits :: nat

definition fmt32 :: ffmt where "fmt32 = \<lparr>mbits = 23, ebits = 8\<rparr>"
definition fmt64 :: ffmt where "fmt64 = \<lparr>mbits = 52, ebits = 11\<rparr>"

definition fbias :: "ffmt \<Rightarrow> int" where "fbias f = 2 ^ (ebits f - 1) - 1"
definition femin :: "ffmt \<Rightarrow> int" where "femin f = 1 - fbias f - int (mbits f)"
definition femax :: "ffmt \<Rightarrow> int" where "femax f = fbias f - int (mbits f)"

text \<open>\<open>FFin s m e\<close> is \<open>(-1)\<^sup>s m 2\<^sup>e\<close>.\<close>

datatype fval = FNaN | FInf bool | FFin bool int int

definition fdecode :: "ffmt \<Rightarrow> int \<Rightarrow> fval" where
  "fdecode f x =
     (let s = odd (x div 2 ^ (mbits f + ebits f));
          e = x div 2 ^ mbits f mod 2 ^ ebits f;
          m = x mod 2 ^ mbits f
      in if e = 2 ^ ebits f - 1 then (if m = 0 then FInf s else FNaN)
         else if e = 0 then FFin s m (femin f)
         else FFin s (2 ^ mbits f + m) (e - fbias f - int (mbits f)))"

definition fencode :: "ffmt \<Rightarrow> int \<Rightarrow> fval \<Rightarrow> int" where
  "fencode f nan v = (case v of
     FNaN \<Rightarrow> nan
   | FInf s \<Rightarrow> (if s then 2 ^ (mbits f + ebits f) else 0) + (2 ^ ebits f - 1) * 2 ^ mbits f
   | FFin s m e \<Rightarrow> (if s then 2 ^ (mbits f + ebits f) else 0) +
       (if m < 2 ^ mbits f then m
        else (e + fbias f + int (mbits f)) * 2 ^ mbits f + (m - 2 ^ mbits f)))"

subsection \<open>Rounding\<close>

text \<open>The number of binary digits of a positive integer.\<close>

function blen :: "int \<Rightarrow> nat" where
  "blen n = (if n \<le> 0 then 0 else Suc (blen (n div 2)))"
  by auto
termination by (relation "measure nat") auto
declare blen.simps [simp del]

definition half_even :: "int \<Rightarrow> int \<Rightarrow> int" where
  "half_even n d = (let q = n div d; r = n mod d
     in if 2 * r > d \<or> (2 * r = d \<and> odd q) then q + 1 else q)"

text \<open>The value \<open>n / d * 2\<^sup>k\<close> with sign \<open>s\<close>, rounded to the nearest number of the format.\<close>

definition fround :: "ffmt \<Rightarrow> bool \<Rightarrow> int \<Rightarrow> int \<Rightarrow> int \<Rightarrow> fval" where
  "fround f s n d k =
     (if n = 0 then FFin s 0 (femin f)
      else
       let p = int (mbits f) + 1;
           e0 = int (blen n) - int (blen d) - p;
           scale = (\<lambda>e. if e \<ge> 0 then (n, d * 2 ^ nat e) else (n * 2 ^ nat (- e), d));
           e1 = (case scale e0 of (n', d') \<Rightarrow> if n' \<ge> d' * 2 ^ (mbits f + 1) then e0 + 1 else e0);
           e = max e1 (femin f - k);
           m = (case scale e of (n', d') \<Rightarrow> half_even n' d');
           (m, e) = (if m = 2 ^ (mbits f + 1) then (2 ^ mbits f, e + 1) else (m, e))
       in if e + k > femax f then FInf s else FFin s m (e + k))"

subsection \<open>Arithmetic\<close>

fun fneg :: "fval \<Rightarrow> fval" where
  "fneg FNaN = FNaN"
| "fneg (FInf s) = FInf (\<not> s)"
| "fneg (FFin s m e) = FFin (\<not> s) m e"

definition smant :: "bool \<Rightarrow> int \<Rightarrow> int" where
  "smant s m = (if s then - m else m)"

fun fadd :: "ffmt \<Rightarrow> fval \<Rightarrow> fval \<Rightarrow> fval" where
  "fadd f (FFin s1 m1 e1) (FFin s2 m2 e2) =
     (let e = min e1 e2;
          sum = smant s1 m1 * 2 ^ nat (e1 - e) + smant s2 m2 * 2 ^ nat (e2 - e)
      in if sum = 0 then FFin (s1 \<and> s2) 0 (femin f)
         else fround f (sum < 0) \<bar>sum\<bar> 1 e)"
| "fadd f (FInf s1) (FInf s2) = (if s1 = s2 then FInf s1 else FNaN)"
| "fadd f (FInf s1) (FFin s2 m2 e2) = FInf s1"
| "fadd f (FFin s1 m1 e1) (FInf s2) = FInf s2"
| "fadd f _ _ = FNaN"

definition fsub :: "ffmt \<Rightarrow> fval \<Rightarrow> fval \<Rightarrow> fval" where
  "fsub f x y = fadd f x (fneg y)"

fun fmul :: "ffmt \<Rightarrow> fval \<Rightarrow> fval \<Rightarrow> fval" where
  "fmul f (FFin s1 m1 e1) (FFin s2 m2 e2) = fround f (s1 \<noteq> s2) (m1 * m2) 1 (e1 + e2)"
| "fmul f (FInf s1) (FInf s2) = FInf (s1 \<noteq> s2)"
| "fmul f (FInf s1) (FFin s2 m2 e2) = (if m2 = 0 then FNaN else FInf (s1 \<noteq> s2))"
| "fmul f (FFin s1 m1 e1) (FInf s2) = (if m1 = 0 then FNaN else FInf (s1 \<noteq> s2))"
| "fmul f _ _ = FNaN"

fun fquo :: "ffmt \<Rightarrow> fval \<Rightarrow> fval \<Rightarrow> fval" where
  "fquo f (FFin s1 m1 e1) (FFin s2 m2 e2) =
     (if m2 = 0 then (if m1 = 0 then FNaN else FInf (s1 \<noteq> s2))
      else fround f (s1 \<noteq> s2) m1 m2 (e1 - e2))"
| "fquo f (FInf s1) (FFin s2 m2 e2) = FInf (s1 \<noteq> s2)"
| "fquo f (FFin s1 m1 e1) (FInf s2) = FFin (s1 \<noteq> s2) 0 (femin f)"
| "fquo f _ _ = FNaN"

subsection \<open>Comparison\<close>

fun flt :: "fval \<Rightarrow> fval \<Rightarrow> bool" where
  "flt (FFin s1 m1 e1) (FFin s2 m2 e2) =
     (let e = min e1 e2
      in smant s1 m1 * 2 ^ nat (e1 - e) < smant s2 m2 * 2 ^ nat (e2 - e))"
| "flt (FInf s1) (FInf s2) = (s1 \<and> \<not> s2)"
| "flt (FInf s1) (FFin s2 m2 e2) = s1"
| "flt (FFin s1 m1 e1) (FInf s2) = (\<not> s2)"
| "flt _ _ = False"

fun feq :: "fval \<Rightarrow> fval \<Rightarrow> bool" where
  "feq (FFin s1 m1 e1) (FFin s2 m2 e2) =
     (let e = min e1 e2
      in smant s1 m1 * 2 ^ nat (e1 - e) = smant s2 m2 * 2 ^ nat (e2 - e))"
| "feq (FInf s1) (FInf s2) = (s1 = s2)"
| "feq _ _ = False"

definition fle :: "fval \<Rightarrow> fval \<Rightarrow> bool" where
  "fle x y \<longleftrightarrow> flt x y \<or> feq x y"

subsection \<open>Operations on bit patterns\<close>

record fpu =
  nan32 :: "32 word \<Rightarrow> 32 word \<Rightarrow> 32 word"
  nan64 :: "64 word \<Rightarrow> 64 word \<Rightarrow> 64 word"
  nan32to64 :: "32 word \<Rightarrow> 64 word"
  nan64to32 :: "64 word \<Rightarrow> 32 word"
  outside :: "nat \<Rightarrow> bool \<Rightarrow> 64 word \<Rightarrow> int"

definition fop32 :: "fpu \<Rightarrow> (ffmt \<Rightarrow> fval \<Rightarrow> fval \<Rightarrow> fval) \<Rightarrow> 32 word \<Rightarrow> 32 word \<Rightarrow> 32 word" where
  "fop32 U op a b = word_of_int (fencode fmt32 (uint (nan32 U a b))
     (op fmt32 (fdecode fmt32 (uint a)) (fdecode fmt32 (uint b))))"

definition fop64 :: "fpu \<Rightarrow> (ffmt \<Rightarrow> fval \<Rightarrow> fval \<Rightarrow> fval) \<Rightarrow> 64 word \<Rightarrow> 64 word \<Rightarrow> 64 word" where
  "fop64 U op a b = word_of_int (fencode fmt64 (uint (nan64 U a b))
     (op fmt64 (fdecode fmt64 (uint a)) (fdecode fmt64 (uint b))))"

definition frel32 :: "(fval \<Rightarrow> fval \<Rightarrow> bool) \<Rightarrow> 32 word \<Rightarrow> 32 word \<Rightarrow> bool" where
  "frel32 rel a b = rel (fdecode fmt32 (uint a)) (fdecode fmt32 (uint b))"

definition frel64 :: "(fval \<Rightarrow> fval \<Rightarrow> bool) \<Rightarrow> 64 word \<Rightarrow> 64 word \<Rightarrow> bool" where
  "frel64 rel a b = rel (fdecode fmt64 (uint a)) (fdecode fmt64 (uint b))"

definition fneg32 :: "32 word \<Rightarrow> 32 word" where
  "fneg32 a = a XOR push_bit 31 1"

definition fneg64 :: "64 word \<Rightarrow> 64 word" where
  "fneg64 a = a XOR push_bit 63 1"

subsection \<open>Conversions\<close>

definition int_to_f32 :: "int \<Rightarrow> 32 word" where
  "int_to_f32 i = word_of_int (fencode fmt32 0 (fround fmt32 (i < 0) \<bar>i\<bar> 1 0))"

definition int_to_f64 :: "int \<Rightarrow> 64 word" where
  "int_to_f64 i = word_of_int (fencode fmt64 0 (fround fmt64 (i < 0) \<bar>i\<bar> 1 0))"

definition ftrunc :: "bool \<Rightarrow> int \<Rightarrow> int \<Rightarrow> int" where
  "ftrunc s m e = (let a = (if e \<ge> 0 then m * 2 ^ nat e else m div 2 ^ nat (- e))
     in if s then - a else a)"

text \<open>The integer a float converts to, for a target of \<open>w\<close> bits.\<close>

definition f64_to_int :: "fpu \<Rightarrow> nat \<Rightarrow> bool \<Rightarrow> 64 word \<Rightarrow> int" where
  "f64_to_int U w sgnd x = (case fdecode fmt64 (uint x) of
     FFin s m e \<Rightarrow>
       (let i = ftrunc s m e
        in if (if sgnd then - (2 ^ (w - 1)) \<le> i \<and> i < 2 ^ (w - 1) else 0 \<le> i \<and> i < 2 ^ w)
           then i else outside U w sgnd x)
   | _ \<Rightarrow> outside U w sgnd x)"

definition f32_to_f64 :: "fpu \<Rightarrow> 32 word \<Rightarrow> 64 word" where
  "f32_to_f64 U x = (case fdecode fmt32 (uint x) of
     FNaN \<Rightarrow> nan32to64 U x
   | FInf s \<Rightarrow> word_of_int (fencode fmt64 0 (FInf s))
   | FFin s m e \<Rightarrow> word_of_int (fencode fmt64 0 (fround fmt64 s m 1 e)))"

definition f64_to_f32 :: "fpu \<Rightarrow> 64 word \<Rightarrow> 32 word" where
  "f64_to_f32 U x = (case fdecode fmt64 (uint x) of
     FNaN \<Rightarrow> nan64to32 U x
   | FInf s \<Rightarrow> word_of_int (fencode fmt32 0 (FInf s))
   | FFin s m e \<Rightarrow> word_of_int (fencode fmt32 0 (fround fmt32 s m 1 e)))"

text \<open>A \<open>float32\<close> reaches an integer through its exact \<open>float64\<close> value.\<close>

definition f32_to_int :: "fpu \<Rightarrow> nat \<Rightarrow> bool \<Rightarrow> 32 word \<Rightarrow> int" where
  "f32_to_int U w sgnd x = f64_to_int U w sgnd (f32_to_f64 U x)"

end
