(* ===== verification/Gno_Values.thy ===== *)
theory Gno_Values
  imports Gno_Types Go_Float
begin

text \<open>
  Run-time values (\<^verbatim>\<open>pkgs/gnolang/values.go\<close>) and the allocator (\<^verbatim>\<open>alloc.go\<close>). A \<open>TypedValue\<close> is a type, an
  optional boxed value and eight numeric bytes read and written through pointers of the width of
  the type; the bytes are one 64-bit word (little-endian host). Arrays, structs and the other
  objects Go holds by pointer live in an explicit heap, so that copies and aliases are visible.
  Objects are loaded: no \<open>RefValue\<close> stands for an object of the heap. The checks that only run with
  the environment variable \<open>DEBUG\<close> set are left out, as they are in the default build.

  The type parameter \<open>'d\<close> is \<open>apd.Decimal\<close> of the package cockroachdb/apd; the operations on it that
  the sources use are the record \<open>apd\<close>.
\<close>

type_synonym addr = nat

subsection \<open>Values and objects\<close>

text \<open>The places a \<open>*TypedValue\<close> can point to.\<close>

datatype tvloc =
    CellLoc addr               \<comment> \<open>an independent value\<close>
  | ElemLoc addr int           \<comment> \<open>\<open>&av.List[i]\<close>\<close>
  | FieldLoc addr int          \<comment> \<open>\<open>&sv.Fields[i]\<close>\<close>
  | MapLoc addr                \<comment> \<open>\<open>&mli.Value\<close> of a map item\<close>
  | DataLoc addr int Type      \<comment> \<open>the temporary \<open>DataByteType\<close> value for a byte of an array\<close>

datatype 'd Value =
    StringValue bytes
  | BigintValue int
  | BigdecValue 'd
  | DataByteValue addr int Type
  | PointerValue tvloc "'d Value option" int "addr option"
  | ArrayRef addr
  | SliceRef addr
  | StructRef addr
  | FuncRef addr
  | MapRef addr
  | BoundMethodRef addr
  | TypeValue Type
  | PackageRef addr
  | NativeRef addr
  | BlockRef addr

record 'd TypedValue =
  T :: "Type option"
  V :: "'d Value option"
  N :: "64 word"

text \<open>An \<open>ArrayValue\<close> has either its \<open>List\<close> or, for bytes, its \<open>Data\<close> set.\<close>

datatype 'd ArrayValue = ListArray "'d TypedValue list" | DataArray bytes

text \<open>
  A \<open>MapValue\<close> keeps its items in insertion order in a doubly linked list (\<open>MapList\<close>) and finds them
  by their key bytes (\<open>vmap\<close>).
\<close>

record 'd MapListItem =
  Prev :: "addr option"
  Next :: "addr option"
  Key :: "'d TypedValue"
  ItemValue :: "'d TypedValue"

record MapList =
  Head :: "addr option"
  Tail :: "addr option"
  MSize :: int

record MapValue =
  MList :: "MapList option"
  vmap :: "(bytes \<rightharpoonup> addr) option"

text \<open>
  A \<open>FuncValue\<close> with the location of its source node and its closure, a block or nil for a function
  declared at file level, whose closure is then the block of its file.
\<close>

record Location =
  locPkgPath :: string
  locFile :: string
  locLine :: int
  locNonce :: int

record FuncValue =
  fnSource :: Location
  fnClosure :: "addr option"
  fnFileName :: string
  fnPkgPath :: string

record 'd heap =
  cells :: "addr \<rightharpoonup> 'd TypedValue"
  arrays :: "addr \<rightharpoonup> 'd ArrayValue"
  structs :: "addr \<rightharpoonup> 'd TypedValue list"
  mapItems :: "addr \<rightharpoonup> 'd MapListItem"
  maps :: "addr \<rightharpoonup> MapValue"
  funcs :: "addr \<rightharpoonup> FuncValue"
  packages :: "string \<rightharpoonup> (string \<rightharpoonup> addr)"
  nextAddr :: addr

text \<open>
  What the sources use of apd: exact addition and subtraction (precision 0) with their
  \<open>Inexact\<close> condition, multiplication and division at precision 1024, each failing with an error;
  negation and comparison.
\<close>

record 'd apd =
  dAdd :: "'d \<Rightarrow> 'd \<Rightarrow> ('d \<times> bool) option"
  dSub :: "'d \<Rightarrow> 'd \<Rightarrow> ('d \<times> bool) option"
  dMul :: "'d \<Rightarrow> 'd \<Rightarrow> 'd option"
  dQuo :: "'d \<Rightarrow> 'd \<Rightarrow> 'd option"
  dNeg :: "'d \<Rightarrow> 'd"
  dCmp :: "'d \<Rightarrow> 'd \<Rightarrow> int"

definition undefinedTV :: "'d TypedValue" where
  "undefinedTV = \<lparr>T = None, V = None, N = 0\<rparr>"

subsection \<open>The allocator\<close>

text \<open>
  A nil \<open>*Allocator\<close> accounts nothing. The counters are \<open>int64\<close> and wrap around.
\<close>

record Allocator =
  maxBytes :: int
  allocBytes :: int

definition alloc_base :: int where "alloc_base = 24"
definition alloc_pointer :: int where "alloc_pointer = 8"
definition allocString :: int where "allocString = alloc_base"
definition allocStringByte :: int where "allocStringByte = 1"
definition allocPointer :: int where "allocPointer = alloc_base"
definition allocArray :: int where "allocArray = alloc_base + alloc_pointer + 176"
definition allocArrayItem :: int where "allocArrayItem = 40"
definition allocSlice :: int where "allocSlice = alloc_base + alloc_pointer + 40"
definition allocStruct :: int where "allocStruct = alloc_base + alloc_pointer + 152"
definition allocStructField :: int where "allocStructField = 40"
definition allocFunc :: int where "allocFunc = alloc_base + alloc_pointer + 136"
definition allocMap :: int where "allocMap = alloc_base + alloc_pointer + 144"
definition allocMapItem :: int where "allocMapItem = 40 * 3"
definition allocBoundMethod :: int where "allocBoundMethod = alloc_base + alloc_pointer + 176"
definition allocBlock :: int where "allocBlock = alloc_base + alloc_pointer + 464"
definition allocBlockItem :: int where "allocBlockItem = 40"
definition allocNative :: int where "allocNative = alloc_base + alloc_pointer + 48"
definition allocType :: int where "allocType = alloc_base + alloc_pointer + 200"
definition allocAmino :: int where "allocAmino = alloc_base + alloc_pointer + 200"
definition allocAminoByte :: int where "allocAminoByte = 10"

definition NewAllocator :: "int \<Rightarrow> Allocator option" where
  "NewAllocator m = (if m = 0 then None else Some \<lparr>maxBytes = m, allocBytes = 0\<rparr>)"

definition Status :: "Allocator option \<Rightarrow> (int \<times> int) result" where
  "Status al = (case al of None \<Rightarrow> Inl NilDereference | Some a \<Rightarrow> Inr (maxBytes a, allocBytes a))"

definition Reset :: "Allocator option \<Rightarrow> Allocator option" where
  "Reset al = (case al of None \<Rightarrow> None | Some a \<Rightarrow> Some (a\<lparr>allocBytes := 0\<rparr>))"

definition Fork :: "Allocator option \<Rightarrow> Allocator option" where
  "Fork al = (case al of None \<Rightarrow> None
     | Some a \<Rightarrow> Some \<lparr>maxBytes = maxBytes a, allocBytes = allocBytes a\<rparr>)"

definition Allocate :: "Allocator option \<Rightarrow> int \<Rightarrow> Allocator option result" where
  "Allocate al sz = (case al of
     None \<Rightarrow> Inr None
   | Some a \<Rightarrow>
       (let a' = a\<lparr>allocBytes := swrap 64 (allocBytes a + sz)\<rparr>
        in if allocBytes a' > maxBytes a' then Inl (Panic ''allocation limit exceeded'')
           else Inr (Some a')))"

definition AllocateString :: "Allocator option \<Rightarrow> int \<Rightarrow> Allocator option result" where
  "AllocateString al sz = Allocate al (swrap 64 (allocString + swrap 64 (allocStringByte * sz)))"

definition AllocatePointer :: "Allocator option \<Rightarrow> Allocator option result" where
  "AllocatePointer al = Allocate al allocPointer"

definition AllocateDataArray :: "Allocator option \<Rightarrow> int \<Rightarrow> Allocator option result" where
  "AllocateDataArray al sz = Allocate al (swrap 64 (allocArray + sz))"

definition AllocateListArray :: "Allocator option \<Rightarrow> int \<Rightarrow> Allocator option result" where
  "AllocateListArray al items =
     Allocate al (swrap 64 (allocArray + swrap 64 (allocArrayItem * items)))"

definition AllocateSlice :: "Allocator option \<Rightarrow> Allocator option result" where
  "AllocateSlice al = Allocate al allocSlice"

definition AllocateStruct :: "Allocator option \<Rightarrow> Allocator option result" where
  "AllocateStruct al = Allocate al allocStruct"

definition AllocateStructFields :: "Allocator option \<Rightarrow> int \<Rightarrow> Allocator option result" where
  "AllocateStructFields al flds = Allocate al (swrap 64 (allocStructField * flds))"

definition AllocateFunc :: "Allocator option \<Rightarrow> Allocator option result" where
  "AllocateFunc al = Allocate al allocFunc"

definition AllocateMap :: "Allocator option \<Rightarrow> int \<Rightarrow> Allocator option result" where
  "AllocateMap al items = Allocate al (swrap 64 (allocMap + swrap 64 (allocMapItem * items)))"

definition AllocateMapItem :: "Allocator option \<Rightarrow> Allocator option result" where
  "AllocateMapItem al = Allocate al allocMapItem"

definition AllocateBoundMethod :: "Allocator option \<Rightarrow> Allocator option result" where
  "AllocateBoundMethod al = Allocate al allocBoundMethod"

definition AllocateBlock :: "Allocator option \<Rightarrow> int \<Rightarrow> Allocator option result" where
  "AllocateBlock al items = Allocate al (swrap 64 (allocBlock + swrap 64 (allocBlockItem * items)))"

definition AllocateBlockItems :: "Allocator option \<Rightarrow> int \<Rightarrow> Allocator option result" where
  "AllocateBlockItems al items = Allocate al (swrap 64 (allocBlockItem * items))"

definition AllocateNative :: "Allocator option \<Rightarrow> Allocator option result" where
  "AllocateNative al = Allocate al allocNative"

definition AllocateType :: "Allocator option \<Rightarrow> Allocator option result" where
  "AllocateType al = Allocate al allocType"

definition AllocateAmino :: "Allocator option \<Rightarrow> int \<Rightarrow> Allocator option result" where
  "AllocateAmino al l = Allocate al (swrap 64 (allocAmino + swrap 64 (allocAminoByte * l)))"

definition NewString :: "Allocator option \<Rightarrow> bytes \<Rightarrow> (Allocator option \<times> 'd Value) result" where
  "NewString al s = bindR (AllocateString al (int (length s))) (\<lambda>al. Inr (al, StringValue s))"

text \<open>\<open>make\<close> panics on a negative length before anything is stored.\<close>

definition newArray :: "'d heap \<Rightarrow> 'd ArrayValue \<Rightarrow> 'd heap \<times> addr" where
  "newArray h av = (h\<lparr>arrays := (arrays h)(nextAddr h \<mapsto> av), nextAddr := nextAddr h + 1\<rparr>, nextAddr h)"

definition newStruct :: "'d heap \<Rightarrow> 'd TypedValue list \<Rightarrow> 'd heap \<times> addr" where
  "newStruct h fs = (h\<lparr>structs := (structs h)(nextAddr h \<mapsto> fs), nextAddr := nextAddr h + 1\<rparr>, nextAddr h)"

definition NewListArray ::
  "Allocator option \<Rightarrow> 'd heap \<Rightarrow> int \<Rightarrow> (Allocator option \<times> 'd heap \<times> addr) result" where
  "NewListArray al h n = bindR (AllocateListArray al n) (\<lambda>al.
     if n < 0 then Inl (Panic ''makeslice: len out of range'')
     else case newArray h (ListArray (replicate (nat n) undefinedTV)) of (h, a) \<Rightarrow> Inr (al, h, a))"

definition NewDataArray ::
  "Allocator option \<Rightarrow> 'd heap \<Rightarrow> int \<Rightarrow> (Allocator option \<times> 'd heap \<times> addr) result" where
  "NewDataArray al h n = bindR (AllocateDataArray al n) (\<lambda>al.
     if n < 0 then Inl (Panic ''makeslice: len out of range'')
     else case newArray h (DataArray (replicate (nat n) 0)) of (h, a) \<Rightarrow> Inr (al, h, a))"

definition NewArrayFromData ::
  "Allocator option \<Rightarrow> 'd heap \<Rightarrow> bytes \<Rightarrow> (Allocator option \<times> 'd heap \<times> addr) result" where
  "NewArrayFromData al h data = bindR (NewDataArray al h (int (length data))) (\<lambda>(al, h, a).
     Inr (al, h\<lparr>arrays := (arrays h)(a \<mapsto> DataArray data)\<rparr>, a))"

definition NewStructFields ::
  "Allocator option \<Rightarrow> int \<Rightarrow> (Allocator option \<times> 'd TypedValue list) result" where
  "NewStructFields al n = bindR (AllocateStructFields al n) (\<lambda>al.
     if n < 0 then Inl (Panic ''makeslice: len out of range'')
     else Inr (al, replicate (nat n) undefinedTV))"

definition NewStruct ::
  "Allocator option \<Rightarrow> 'd heap \<Rightarrow> 'd TypedValue list \<Rightarrow> (Allocator option \<times> 'd heap \<times> addr) result"
where
  "NewStruct al h flds = bindR (AllocateStruct al) (\<lambda>al.
     case newStruct h flds of (h, a) \<Rightarrow> Inr (al, h, a))"

definition NewStructWithFields ::
  "Allocator option \<Rightarrow> 'd heap \<Rightarrow> 'd TypedValue list \<Rightarrow> (Allocator option \<times> 'd heap \<times> addr) result"
where
  "NewStructWithFields al h flds =
     bindR (NewStructFields al (int (length flds)) :: (Allocator option \<times> 'd TypedValue list) result)
       (\<lambda>(al, tvs). NewStruct al h flds)"

end
