(* ===== verification/Typed_Value.thy ===== *)
theory Typed_Value
  imports Gno_Values
begin

text \<open>
  The methods of \<open>TypedValue\<close>: the typed views of the eight numeric bytes, copying, the bytes of
  primitive values, element and field access.
\<close>

subsection \<open>Numeric bytes\<close>

text \<open>
  Writing through a pointer of the width of \<open>'a\<close> replaces the low bytes of the word and leaves the
  others, reading takes the low bytes.
\<close>

definition set_low :: "'a::len word \<Rightarrow> 64 word \<Rightarrow> 64 word" where
  "set_low n w = push_bit LENGTH('a) (drop_bit LENGTH('a) w) OR ucast n"

definition SetBool :: "'d TypedValue \<Rightarrow> bool \<Rightarrow> 'd TypedValue" where
  "SetBool tv b = tv\<lparr>N := set_low (if b then 1 else 0 :: 8 word) (N tv)\<rparr>"

definition GetBool :: "'d TypedValue \<Rightarrow> bool" where
  "GetBool tv \<longleftrightarrow> (ucast (N tv) :: 8 word) \<noteq> 0"

definition SetString :: "'d TypedValue \<Rightarrow> bytes \<Rightarrow> 'd TypedValue" where
  "SetString tv s = tv\<lparr>V := Some (StringValue s)\<rparr>"

definition GetString :: "'d TypedValue \<Rightarrow> bytes result" where
  "GetString tv = (case V tv of
     None \<Rightarrow> Inr []
   | Some (StringValue s) \<Rightarrow> Inr s
   | Some _ \<Rightarrow> Inl TypeAssertion)"

definition SetInt :: "'d TypedValue \<Rightarrow> 64 word \<Rightarrow> 'd TypedValue" where
  "SetInt tv n = tv\<lparr>N := set_low n (N tv)\<rparr>"
definition GetInt :: "'d TypedValue \<Rightarrow> 64 word" where
  "GetInt tv = ucast (N tv)"
definition SetInt8 :: "'d TypedValue \<Rightarrow> 8 word \<Rightarrow> 'd TypedValue" where
  "SetInt8 tv n = tv\<lparr>N := set_low n (N tv)\<rparr>"
definition GetInt8 :: "'d TypedValue \<Rightarrow> 8 word" where
  "GetInt8 tv = ucast (N tv)"
definition SetInt16 :: "'d TypedValue \<Rightarrow> 16 word \<Rightarrow> 'd TypedValue" where
  "SetInt16 tv n = tv\<lparr>N := set_low n (N tv)\<rparr>"
definition GetInt16 :: "'d TypedValue \<Rightarrow> 16 word" where
  "GetInt16 tv = ucast (N tv)"
definition SetInt32 :: "'d TypedValue \<Rightarrow> 32 word \<Rightarrow> 'd TypedValue" where
  "SetInt32 tv n = tv\<lparr>N := set_low n (N tv)\<rparr>"
definition GetInt32 :: "'d TypedValue \<Rightarrow> 32 word" where
  "GetInt32 tv = ucast (N tv)"
definition SetInt64 :: "'d TypedValue \<Rightarrow> 64 word \<Rightarrow> 'd TypedValue" where
  "SetInt64 tv n = tv\<lparr>N := set_low n (N tv)\<rparr>"
definition GetInt64 :: "'d TypedValue \<Rightarrow> 64 word" where
  "GetInt64 tv = ucast (N tv)"
definition SetUint :: "'d TypedValue \<Rightarrow> 64 word \<Rightarrow> 'd TypedValue" where
  "SetUint tv n = tv\<lparr>N := set_low n (N tv)\<rparr>"
definition GetUint :: "'d TypedValue \<Rightarrow> 64 word" where
  "GetUint tv = ucast (N tv)"
definition SetUint8 :: "'d TypedValue \<Rightarrow> 8 word \<Rightarrow> 'd TypedValue" where
  "SetUint8 tv n = tv\<lparr>N := set_low n (N tv)\<rparr>"
definition GetUint8 :: "'d TypedValue \<Rightarrow> 8 word" where
  "GetUint8 tv = ucast (N tv)"
definition SetUint16 :: "'d TypedValue \<Rightarrow> 16 word \<Rightarrow> 'd TypedValue" where
  "SetUint16 tv n = tv\<lparr>N := set_low n (N tv)\<rparr>"
definition GetUint16 :: "'d TypedValue \<Rightarrow> 16 word" where
  "GetUint16 tv = ucast (N tv)"
definition SetUint32 :: "'d TypedValue \<Rightarrow> 32 word \<Rightarrow> 'd TypedValue" where
  "SetUint32 tv n = tv\<lparr>N := set_low n (N tv)\<rparr>"
definition GetUint32 :: "'d TypedValue \<Rightarrow> 32 word" where
  "GetUint32 tv = ucast (N tv)"
definition SetUint64 :: "'d TypedValue \<Rightarrow> 64 word \<Rightarrow> 'd TypedValue" where
  "SetUint64 tv n = tv\<lparr>N := set_low n (N tv)\<rparr>"
definition GetUint64 :: "'d TypedValue \<Rightarrow> 64 word" where
  "GetUint64 tv = ucast (N tv)"
definition SetFloat32 :: "'d TypedValue \<Rightarrow> 32 word \<Rightarrow> 'd TypedValue" where
  "SetFloat32 tv n = tv\<lparr>N := set_low n (N tv)\<rparr>"
definition GetFloat32 :: "'d TypedValue \<Rightarrow> 32 word" where
  "GetFloat32 tv = ucast (N tv)"
definition SetFloat64 :: "'d TypedValue \<Rightarrow> 64 word \<Rightarrow> 'd TypedValue" where
  "SetFloat64 tv n = tv\<lparr>N := set_low n (N tv)\<rparr>"
definition GetFloat64 :: "'d TypedValue \<Rightarrow> 64 word" where
  "GetFloat64 tv = ucast (N tv)"

definition ClearNum :: "'d TypedValue \<Rightarrow> 'd TypedValue" where
  "ClearNum tv = tv\<lparr>N := 0\<rparr>"

subsection \<open>Boxed values\<close>

definition GetBigInt :: "'d TypedValue \<Rightarrow> int result" where
  "GetBigInt tv = (case V tv of Some (BigintValue i) \<Rightarrow> Inr i | _ \<Rightarrow> Inl TypeAssertion)"

definition GetBigDec :: "'d TypedValue \<Rightarrow> 'd result" where
  "GetBigDec tv = (case V tv of Some (BigdecValue d) \<Rightarrow> Inr d | _ \<Rightarrow> Inl TypeAssertion)"

text \<open>
  A byte of a data array. Indexing a nil or shorter \<open>Data\<close> panics; a dangling address cannot
  occur in Go and panics in the model.
\<close>

definition GetByte :: "'d heap \<Rightarrow> addr \<Rightarrow> int \<Rightarrow> 8 word result" where
  "GetByte h a i = (case arrays h a of
     Some (DataArray bs) \<Rightarrow>
       (if 0 \<le> i \<and> i < int (length bs) then Inr (bs ! nat i) else Inl IndexOutOfRange)
   | Some (ListArray xs) \<Rightarrow> Inl IndexOutOfRange
   | None \<Rightarrow> Inl NilDereference)"

definition SetByte :: "'d heap \<Rightarrow> addr \<Rightarrow> int \<Rightarrow> 8 word \<Rightarrow> 'd heap result" where
  "SetByte h a i b = (case arrays h a of
     Some (DataArray bs) \<Rightarrow>
       (if 0 \<le> i \<and> i < int (length bs)
        then Inr (h\<lparr>arrays := (arrays h)(a \<mapsto> DataArray (bs[nat i := b]))\<rparr>)
        else Inl IndexOutOfRange)
   | Some (ListArray xs) \<Rightarrow> Inl IndexOutOfRange
   | None \<Rightarrow> Inl NilDereference)"

definition GetDataByte :: "'d heap \<Rightarrow> 'd TypedValue \<Rightarrow> 8 word result" where
  "GetDataByte h tv = (case V tv of
     Some (DataByteValue a i et) \<Rightarrow> GetByte h a i
   | _ \<Rightarrow> Inl TypeAssertion)"

definition SetDataByte :: "'d heap \<Rightarrow> 'd TypedValue \<Rightarrow> 8 word \<Rightarrow> 'd heap result" where
  "SetDataByte h tv b = (case V tv of
     Some (DataByteValue a i et) \<Rightarrow> SetByte h a i b
   | _ \<Rightarrow> Inl TypeAssertion)"

definition IsNilInterface :: "'d TypedValue \<Rightarrow> bool result" where
  "IsNilInterface tv = (case T tv of
     None \<Rightarrow> Inr False
   | Some t \<Rightarrow> bindR (TKind t) (\<lambda>k. Inr (k = InterfaceKind \<and> V tv = None)))"

definition IsUndefined :: "'d TypedValue \<Rightarrow> bool result" where
  "IsUndefined tv = (case T tv of None \<Rightarrow> Inr True | Some t \<Rightarrow> IsNilInterface tv)"

definition HasKind :: "'d TypedValue \<Rightarrow> Kind \<Rightarrow> bool result" where
  "HasKind tv k = (case T tv of None \<Rightarrow> Inr False | Some t \<Rightarrow> bindR (TKind t) (\<lambda>k'. Inr (k' = k)))"

subsection \<open>Copying\<close>

definition CopyArray ::
  "Allocator option \<Rightarrow> 'd heap \<Rightarrow> addr \<Rightarrow> (Allocator option \<times> 'd heap \<times> addr) result" where
  "CopyArray al h a = (case arrays h a of
     None \<Rightarrow> Inl NilDereference
   | Some (ListArray xs) \<Rightarrow>
       bindR (NewListArray al h (int (length xs))) (\<lambda>(al, h, a2).
       Inr (al, h\<lparr>arrays := (arrays h)(a2 \<mapsto> ListArray xs)\<rparr>, a2))
   | Some (DataArray bs) \<Rightarrow>
       bindR (NewDataArray al h (int (length bs))) (\<lambda>(al, h, a2).
       Inr (al, h\<lparr>arrays := (arrays h)(a2 \<mapsto> DataArray bs)\<rparr>, a2)))"

definition CopyStruct ::
  "Allocator option \<Rightarrow> 'd heap \<Rightarrow> addr \<Rightarrow> (Allocator option \<times> 'd heap \<times> addr) result" where
  "CopyStruct al h a = (case structs h a of
     None \<Rightarrow> Inl NilDereference
   | Some fs \<Rightarrow>
       bindR (NewStructFields al (int (length fs)) :: (Allocator option \<times> 'd TypedValue list) result)
         (\<lambda>(al, flds). NewStruct al h fs))"

text \<open>
  \<open>TypedValue.Copy\<close>. The native case copies through Go reflection; the new native object is a
  fresh address.
\<close>

definition Copy ::
  "Allocator option \<Rightarrow> 'd heap \<Rightarrow> 'd TypedValue \<Rightarrow> (Allocator option \<times> 'd heap \<times> 'd TypedValue) result"
where
  "Copy al h tv = (case V tv of
     Some (BigintValue i) \<Rightarrow> Inr (al, h, \<lparr>T = T tv, V = Some (BigintValue i), N = 0\<rparr>)
   | Some (ArrayRef a) \<Rightarrow> bindR (CopyArray al h a) (\<lambda>(al, h, a2).
       Inr (al, h, \<lparr>T = T tv, V = Some (ArrayRef a2), N = 0\<rparr>))
   | Some (StructRef a) \<Rightarrow> bindR (CopyStruct al h a) (\<lambda>(al, h, a2).
       Inr (al, h, \<lparr>T = T tv, V = Some (StructRef a2), N = 0\<rparr>))
   | Some (NativeRef a) \<Rightarrow> bindR (AllocateNative al) (\<lambda>al.
       Inr (al, h\<lparr>nextAddr := nextAddr h + 1\<rparr>, \<lparr>T = T tv, V = Some (NativeRef (nextAddr h)), N = 0\<rparr>))
   | _ \<Rightarrow> Inr (al, h, tv))"

subsection \<open>Elements and fields\<close>

definition GetLength :: "'d ArrayValue \<Rightarrow> int" where
  "GetLength av = (case av of ListArray xs \<Rightarrow> int (length xs) | DataArray bs \<Rightarrow> int (length bs))"

definition GetCapacity :: "'d ArrayValue \<Rightarrow> int" where
  "GetCapacity av = (case av of ListArray xs \<Rightarrow> int (length xs) | DataArray bs \<Rightarrow> int (length bs))"

text \<open>\<open>GetReadonlyBytes\<close> stops at the first undefined element and leaves the rest zero.\<close>

fun list_bytes :: "'d TypedValue list \<Rightarrow> bytes result" where
  "list_bytes [] = Inr []"
| "list_bytes (tv # tvs) = bindR (IsUndefined tv) (\<lambda>u.
     if u then Inr (replicate (Suc (length tvs)) 0)
     else bindR (TKind (the (T tv))) (\<lambda>k.
       if k \<noteq> Uint8Kind then Inl (Panic ''expected byte kind'')
       else bindR (list_bytes tvs) (\<lambda>bs. Inr (GetUint8 tv # bs))))"

definition GetReadonlyBytes :: "'d ArrayValue \<Rightarrow> bytes result" where
  "GetReadonlyBytes av = (case av of ListArray xs \<Rightarrow> list_bytes xs | DataArray bs \<Rightarrow> Inr bs)"

text \<open>The value a \<open>*TypedValue\<close> points to.\<close>

definition readTV :: "'d heap \<Rightarrow> tvloc \<Rightarrow> 'd TypedValue result" where
  "readTV h l = (case l of
     CellLoc a \<Rightarrow> (case cells h a of Some tv \<Rightarrow> Inr tv | None \<Rightarrow> Inl NilDereference)
   | ElemLoc a i \<Rightarrow> (case arrays h a of
       Some (ListArray xs) \<Rightarrow>
         (if 0 \<le> i \<and> i < int (length xs) then Inr (xs ! nat i) else Inl IndexOutOfRange)
     | _ \<Rightarrow> Inl NilDereference)
   | FieldLoc a i \<Rightarrow> (case structs h a of
       Some fs \<Rightarrow> (if 0 \<le> i \<and> i < int (length fs) then Inr (fs ! nat i) else Inl IndexOutOfRange)
     | None \<Rightarrow> Inl NilDereference)
   | MapLoc a \<Rightarrow> (case mapItems h a of Some it \<Rightarrow> Inr (ItemValue it) | None \<Rightarrow> Inl NilDereference)
   | DataLoc a i et \<Rightarrow> Inr \<lparr>T = Some (Primitive DataByteType), V = Some (DataByteValue a i et), N = 0\<rparr>)"

definition GetPointerAtIndexInt2 :: "'d heap \<Rightarrow> addr \<Rightarrow> int \<Rightarrow> Type \<Rightarrow> 'd Value result" where
  "GetPointerAtIndexInt2 h a ii et = (case arrays h a of
     None \<Rightarrow> Inl NilDereference
   | Some (ListArray xs) \<Rightarrow>
       (if 0 \<le> ii \<and> ii < int (length xs)
        then Inr (PointerValue (ElemLoc a ii) (Some (ArrayRef a)) ii None)
        else Inl IndexOutOfRange)
   | Some (DataArray bs) \<Rightarrow> Inr (PointerValue (DataLoc a ii et) (Some (ArrayRef a)) ii None))"

definition GetPointerToInt :: "'d heap \<Rightarrow> addr \<Rightarrow> int \<Rightarrow> 'd Value result" where
  "GetPointerToInt h a i = (case structs h a of
     None \<Rightarrow> Inl NilDereference
   | Some fs \<Rightarrow>
       (if 0 \<le> i \<and> i < int (length fs)
        then Inr (PointerValue (FieldLoc a i) (Some (StructRef a)) i None)
        else Inl IndexOutOfRange))"

text \<open>
  \<open>Deref\<close>; the native type a dereferenced native value gets is the reflected type of the value,
  which is the type it already has.
\<close>

definition Deref :: "'d heap \<Rightarrow> 'd Value \<Rightarrow> 'd TypedValue result" where
  "Deref h pv = (case pv of
     PointerValue l b i k \<Rightarrow> bindR (readTV h l) (\<lambda>tv.
       if T tv = Some (Primitive DataByteType) then
         (case V tv of
            Some (DataByteValue a j et) \<Rightarrow> bindR (GetByte h a j) (\<lambda>b.
              Inr (SetUint8 \<lparr>T = Some et, V = None, N = 0\<rparr> b))
          | _ \<Rightarrow> Inl TypeAssertion)
       else case V tv of
            Some (NativeRef a) \<Rightarrow> Inr \<lparr>T = T tv, V = Some (NativeRef a), N = 0\<rparr>
          | _ \<Rightarrow> Inr tv)
   | _ \<Rightarrow> Inl TypeAssertion)"

subsection \<open>Bytes of primitive values\<close>

definition le_bytes :: "'a::len word \<Rightarrow> bytes" where
  "le_bytes w = map (\<lambda>i. ucast (drop_bit (8 * i) w)) [0..<LENGTH('a) div 8]"

text \<open>\<open>big.Int.Bytes\<close>: the absolute value in big-endian bytes without leading zeros.\<close>

function be_bytes :: "int \<Rightarrow> bytes" where
  "be_bytes n = (if n \<le> 0 then [] else be_bytes (n div 256) @ [word_of_int n])"
  by auto
termination by (relation "measure nat") auto
declare be_bytes.simps [simp del]

definition PrimitiveBytes :: "'d TypedValue \<Rightarrow> bytes result" where
  "PrimitiveBytes tv = (case baseOf (T tv) of
     Some (Primitive bt) \<Rightarrow> (case bt of
       BoolType \<Rightarrow> Inr (if GetBool tv then [1] else [0])
     | StringType \<Rightarrow> GetString tv
     | Int8Type \<Rightarrow> Inr [GetInt8 tv]
     | Int16Type \<Rightarrow> Inr (le_bytes (GetInt16 tv))
     | Int32Type \<Rightarrow> Inr (le_bytes (GetInt32 tv))
     | IntType \<Rightarrow> Inr (le_bytes (GetInt tv))
     | Int64Type \<Rightarrow> Inr (le_bytes (GetInt tv))
     | Uint8Type \<Rightarrow> Inr [GetUint8 tv]
     | Uint16Type \<Rightarrow> Inr (le_bytes (GetUint16 tv))
     | Uint32Type \<Rightarrow> Inr (le_bytes (GetUint32 tv))
     | UintType \<Rightarrow> Inr (le_bytes (GetUint tv))
     | Uint64Type \<Rightarrow> Inr (le_bytes (GetUint tv))
     | Float32Type \<Rightarrow> Inr (le_bytes (GetFloat32 tv))
     | Float64Type \<Rightarrow> Inr (le_bytes (GetFloat64 tv))
     | BigintType \<Rightarrow> bindR (GetBigInt tv) (\<lambda>i. Inr (be_bytes \<bar>i\<bar>))
     | _ \<Rightarrow> Inl (Panic ''unexpected primitive value type''))
   | None \<Rightarrow> Inl NilDereference
   | Some _ \<Rightarrow> Inl (Panic ''unexpected primitive value type''))"

end
