(* ===== verification/Op_Binary.thy ===== *)
theory Op_Binary
  imports Typed_Value "HOL-Library.Signed_Division"
begin

text \<open>
  Binary operators (\<^verbatim>\<open>pkgs/gnolang/op_binary.go\<close>), unary operators (\<^verbatim>\<open>op_unary.go\<close>) and the arithmetic of
  \<open>++\<close> and \<open>--\<close> (\<^verbatim>\<open>op_inc_dec.go\<close>): one case per primitive type as in the source, on values whose
  numeric bytes have the width of the type. Operands are values of the machine's stack; the left
  operand is overwritten by the result. An operation on a byte of a data array goes to the heap.
\<close>

subsection \<open>Go operators on fixed-width and big integers\<close>

text \<open>Signed \<open>/\<close> and \<open>%\<close> truncate towards zero and panic on a zero divisor.\<close>

definition go_squo :: "'a::len word \<Rightarrow> 'a word \<Rightarrow> 'a word result" where
  "go_squo a b = (if b = 0 then Inl DivideByZero else Inr (word_of_int (sint a sdiv sint b)))"

definition go_srem :: "'a::len word \<Rightarrow> 'a word \<Rightarrow> 'a word result" where
  "go_srem a b = (if b = 0 then Inl DivideByZero else Inr (word_of_int (sint a smod sint b)))"

definition go_uquo :: "'a::len word \<Rightarrow> 'a word \<Rightarrow> 'a word result" where
  "go_uquo a b = (if b = 0 then Inl DivideByZero else Inr (a div b))"

definition go_urem :: "'a::len word \<Rightarrow> 'a word \<Rightarrow> 'a word result" where
  "go_urem a b = (if b = 0 then Inl DivideByZero else Inr (a mod b))"

definition go_shl :: "'a::len word \<Rightarrow> 64 word \<Rightarrow> 'a word" where
  "go_shl a n = push_bit (unat n) a"

definition go_sshr :: "'a::len word \<Rightarrow> 64 word \<Rightarrow> 'a word" where
  "go_sshr a n = signed_drop_bit (unat n) a"

definition go_ushr :: "'a::len word \<Rightarrow> 64 word \<Rightarrow> 'a word" where
  "go_ushr a n = drop_bit (unat n) a"

definition big_quo :: "int \<Rightarrow> int \<Rightarrow> int result" where
  "big_quo a b = (if b = 0 then Inl (Panic ''division by zero'') else Inr (a sdiv b))"

definition big_rem :: "int \<Rightarrow> int \<Rightarrow> int result" where
  "big_rem a b = (if b = 0 then Inl (Panic ''division by zero'') else Inr (a smod b))"

subsection \<open>Equality\<close>

text \<open>A \<open>for\<close> loop that answers false at the first index that fails.\<close>

fun allR :: "('i \<Rightarrow> bool result) \<Rightarrow> 'i list \<Rightarrow> bool result" where
  "allR f [] = Inr True"
| "allR f (i # is) = bindR (f i) (\<lambda>b. if b then allR f is else Inr False)"

definition GetClosure :: "'d heap \<Rightarrow> FuncValue \<Rightarrow> addr option result" where
  "GetClosure h fv = (case fnClosure fv of
     Some b \<Rightarrow> Inr (Some b)
   | None \<Rightarrow>
       (if fnFileName fv = [] then Inr None
        else case packages h (fnPkgPath fv) of
          None \<Rightarrow> Inl NilDereference
        | Some blocks \<Rightarrow> (case blocks (fnFileName fv) of
            None \<Rightarrow> Inl (Panic ''file block missing for file'')
          | Some b \<Rightarrow> Inr (Some b))))"

text \<open>
  \<open>goEq\<close> compares two native Go values as interfaces. The body of \<open>isEql\<close> with its recursive call as
  a parameter, and \<open>isEql\<close> itself: the number bounds the depth of the recursion into arrays and
  structs; when it is exhausted the goroutine's stack overflows.
\<close>

definition isEqlStep :: "(addr \<Rightarrow> addr \<Rightarrow> bool result) \<Rightarrow> 'd apd \<Rightarrow> 'd heap \<Rightarrow>
    ('d TypedValue \<Rightarrow> 'd TypedValue \<Rightarrow> bool result) \<Rightarrow> 'd TypedValue \<Rightarrow> 'd TypedValue \<Rightarrow> bool result" where
  "isEqlStep goEq D h rec lv rv =
     bindR (IsUndefined lv) (\<lambda>lvu. bindR (IsUndefined rv) (\<lambda>rvu.
     if lvu then Inr rvu
     else if rvu then Inr False
     else case T lv of
       Some (NativeType lk lp ls) \<Rightarrow>
         (case T rv of
            Some (NativeType rk rp rs) \<Rightarrow>
              (if NativeType lk lp ls \<noteq> NativeType rk rp rs then Inr False
               else case (V lv, V rv) of
                 (Some (NativeRef a), Some (NativeRef b)) \<Rightarrow> goEq a b
               | _ \<Rightarrow> Inl TypeAssertion)
          | _ \<Rightarrow> Inr False)
     | _ \<Rightarrow> bindR (TKind (the (T lv))) (\<lambda>k. case k of
       BoolKind \<Rightarrow> Inr (GetBool lv = GetBool rv)
     | StringKind \<Rightarrow> bindR (GetString lv) (\<lambda>l. bindR (GetString rv) (\<lambda>r. Inr (l = r)))
     | IntKind \<Rightarrow> Inr (GetInt lv = GetInt rv)
     | Int8Kind \<Rightarrow> Inr (GetInt8 lv = GetInt8 rv)
     | Int16Kind \<Rightarrow> Inr (GetInt16 lv = GetInt16 rv)
     | Int32Kind \<Rightarrow> Inr (GetInt32 lv = GetInt32 rv)
     | Int64Kind \<Rightarrow> Inr (GetInt64 lv = GetInt64 rv)
     | UintKind \<Rightarrow> Inr (GetUint lv = GetUint rv)
     | Uint8Kind \<Rightarrow> Inr (GetUint8 lv = GetUint8 rv)
     | Uint16Kind \<Rightarrow> Inr (GetUint16 lv = GetUint16 rv)
     | Uint32Kind \<Rightarrow> Inr (GetUint32 lv = GetUint32 rv)
     | Uint64Kind \<Rightarrow> Inr (GetUint64 lv = GetUint64 rv)
     | Float32Kind \<Rightarrow> Inr (frel32 feq (GetFloat32 lv) (GetFloat32 rv))
     | Float64Kind \<Rightarrow> Inr (frel64 feq (GetFloat64 lv) (GetFloat64 rv))
     | BigintKind \<Rightarrow> bindR (GetBigInt lv) (\<lambda>l. bindR (GetBigInt rv) (\<lambda>r. Inr (l = r)))
     | BigdecKind \<Rightarrow> bindR (GetBigDec lv) (\<lambda>l. bindR (GetBigDec rv) (\<lambda>r. Inr (dCmp D l r = 0)))
     | ArrayKind \<Rightarrow>
         (case (V lv, V rv) of
            (Some (ArrayRef la), Some (ArrayRef ra)) \<Rightarrow>
              (case (baseOf (T lv), arrays h la) of
                 (Some (ArrayType n et vrd), Some av) \<Rightarrow>
                   allR (\<lambda>i. bindR (bindR (GetPointerAtIndexInt2 h la i et) (Deref h)) (\<lambda>li.
                             bindR (bindR (GetPointerAtIndexInt2 h ra i et) (Deref h)) (\<lambda>ri.
                             rec li ri)))
                     [0..GetLength av - 1]
               | (Some (ArrayType n et vrd), None) \<Rightarrow> Inl NilDereference
               | _ \<Rightarrow> Inl TypeAssertion)
          | _ \<Rightarrow> Inl TypeAssertion)
     | StructKind \<Rightarrow>
         (case (V lv, V rv) of
            (Some (StructRef la), Some (StructRef ra)) \<Rightarrow>
              (case structs h la of
                 Some fs \<Rightarrow>
                   allR (\<lambda>i. bindR (bindR (GetPointerToInt h la i) (Deref h)) (\<lambda>lf.
                             bindR (bindR (GetPointerToInt h ra i) (Deref h)) (\<lambda>rf.
                             rec lf rf)))
                     [0..int (length fs) - 1]
               | None \<Rightarrow> Inl NilDereference)
          | _ \<Rightarrow> Inl TypeAssertion)
     | MapKind \<Rightarrow> Inr (V lv = V rv)
     | SliceKind \<Rightarrow> Inr (V lv = V rv)
     | FuncKind \<Rightarrow>
         (case V lv of
            Some (BoundMethodRef a) \<Rightarrow> Inr (V lv = V rv)
          | None \<Rightarrow> if V rv = None then Inr True else Inl TypeAssertion
          | Some (FuncRef a) \<Rightarrow>
              (case V rv of
                 Some (FuncRef b) \<Rightarrow>
                   (case (funcs h a, funcs h b) of
                      (Some lfv, Some rfv) \<Rightarrow>
                        (if fnSource lfv \<noteq> fnSource rfv then Inr False
                         else bindR (GetClosure h lfv) (\<lambda>lc. bindR (GetClosure h rfv) (\<lambda>rc.
                           Inr (lc = rc))))
                    | _ \<Rightarrow> Inl NilDereference)
               | _ \<Rightarrow> Inr False)
          | _ \<Rightarrow> Inl TypeAssertion)
     | PointerKind \<Rightarrow> Inr (V lv = V rv)
     | _ \<Rightarrow> Inl (Panic ''comparison operator == not defined''))))"

primrec isEql :: "(addr \<Rightarrow> addr \<Rightarrow> bool result) \<Rightarrow> 'd apd \<Rightarrow> 'd heap \<Rightarrow> nat \<Rightarrow>
    'd TypedValue \<Rightarrow> 'd TypedValue \<Rightarrow> bool result" where
  "isEql goEq D h 0 = (\<lambda>lv rv. Inl StackOverflow)"
| "isEql goEq D h (Suc fuel) = isEqlStep goEq D h (isEql goEq D h fuel)"

subsection \<open>Ordering\<close>

text \<open>\<open>lv.V.(StringValue)\<close>\<close>

definition stringV :: "'d TypedValue \<Rightarrow> bytes result" where
  "stringV tv = (case V tv of Some (StringValue s) \<Rightarrow> Inr s | _ \<Rightarrow> Inl TypeAssertion)"

text \<open>\<open>lv.T.Kind()\<close> on a nil type is a nil dereference.\<close>

definition kindT :: "'d TypedValue \<Rightarrow> Kind result" where
  "kindT tv = (case T tv of None \<Rightarrow> Inl NilDereference | Some t \<Rightarrow> TKind t)"

definition isLss :: "'d apd \<Rightarrow> 'd TypedValue \<Rightarrow> 'd TypedValue \<Rightarrow> bool result" where
  "isLss D lv rv = bindR (kindT lv) (\<lambda>k. case k of
     StringKind \<Rightarrow> bindR (stringV lv) (\<lambda>l. bindR (stringV rv) (\<lambda>r. Inr (l < r)))
   | IntKind \<Rightarrow> Inr (sint (GetInt lv) < sint (GetInt rv))
   | Int8Kind \<Rightarrow> Inr (sint (GetInt8 lv) < sint (GetInt8 rv))
   | Int16Kind \<Rightarrow> Inr (sint (GetInt16 lv) < sint (GetInt16 rv))
   | Int32Kind \<Rightarrow> Inr (sint (GetInt32 lv) < sint (GetInt32 rv))
   | Int64Kind \<Rightarrow> Inr (sint (GetInt64 lv) < sint (GetInt64 rv))
   | UintKind \<Rightarrow> Inr (GetUint lv < GetUint rv)
   | Uint8Kind \<Rightarrow> Inr (GetUint8 lv < GetUint8 rv)
   | Uint16Kind \<Rightarrow> Inr (GetUint16 lv < GetUint16 rv)
   | Uint32Kind \<Rightarrow> Inr (GetUint32 lv < GetUint32 rv)
   | Uint64Kind \<Rightarrow> Inr (GetUint64 lv < GetUint64 rv)
   | Float32Kind \<Rightarrow> Inr (frel32 flt (GetFloat32 lv) (GetFloat32 rv))
   | Float64Kind \<Rightarrow> Inr (frel64 flt (GetFloat64 lv) (GetFloat64 rv))
   | BigintKind \<Rightarrow> bindR (GetBigInt lv) (\<lambda>l. bindR (GetBigInt rv) (\<lambda>r. Inr (l < r)))
   | BigdecKind \<Rightarrow> bindR (GetBigDec lv) (\<lambda>l. bindR (GetBigDec rv) (\<lambda>r. Inr (dCmp D l r < 0)))
   | _ \<Rightarrow> Inl (Panic ''comparison operator < not defined''))"

definition isLeq :: "'d apd \<Rightarrow> 'd TypedValue \<Rightarrow> 'd TypedValue \<Rightarrow> bool result" where
  "isLeq D lv rv = bindR (kindT lv) (\<lambda>k. case k of
     StringKind \<Rightarrow> bindR (stringV lv) (\<lambda>l. bindR (stringV rv) (\<lambda>r. Inr (l \<le> r)))
   | IntKind \<Rightarrow> Inr (sint (GetInt lv) \<le> sint (GetInt rv))
   | Int8Kind \<Rightarrow> Inr (sint (GetInt8 lv) \<le> sint (GetInt8 rv))
   | Int16Kind \<Rightarrow> Inr (sint (GetInt16 lv) \<le> sint (GetInt16 rv))
   | Int32Kind \<Rightarrow> Inr (sint (GetInt32 lv) \<le> sint (GetInt32 rv))
   | Int64Kind \<Rightarrow> Inr (sint (GetInt64 lv) \<le> sint (GetInt64 rv))
   | UintKind \<Rightarrow> Inr (GetUint lv \<le> GetUint rv)
   | Uint8Kind \<Rightarrow> Inr (GetUint8 lv \<le> GetUint8 rv)
   | Uint16Kind \<Rightarrow> Inr (GetUint16 lv \<le> GetUint16 rv)
   | Uint32Kind \<Rightarrow> Inr (GetUint32 lv \<le> GetUint32 rv)
   | Uint64Kind \<Rightarrow> Inr (GetUint64 lv \<le> GetUint64 rv)
   | Float32Kind \<Rightarrow> Inr (frel32 fle (GetFloat32 lv) (GetFloat32 rv))
   | Float64Kind \<Rightarrow> Inr (frel64 fle (GetFloat64 lv) (GetFloat64 rv))
   | BigintKind \<Rightarrow> bindR (GetBigInt lv) (\<lambda>l. bindR (GetBigInt rv) (\<lambda>r. Inr (l \<le> r)))
   | BigdecKind \<Rightarrow> bindR (GetBigDec lv) (\<lambda>l. bindR (GetBigDec rv) (\<lambda>r. Inr (dCmp D l r \<le> 0)))
   | _ \<Rightarrow> Inl (Panic ''comparison operator <= not defined''))"

definition isGtr :: "'d apd \<Rightarrow> 'd TypedValue \<Rightarrow> 'd TypedValue \<Rightarrow> bool result" where
  "isGtr D lv rv = bindR (kindT lv) (\<lambda>k. case k of
     StringKind \<Rightarrow> bindR (stringV lv) (\<lambda>l. bindR (stringV rv) (\<lambda>r. Inr (l > r)))
   | IntKind \<Rightarrow> Inr (sint (GetInt lv) > sint (GetInt rv))
   | Int8Kind \<Rightarrow> Inr (sint (GetInt8 lv) > sint (GetInt8 rv))
   | Int16Kind \<Rightarrow> Inr (sint (GetInt16 lv) > sint (GetInt16 rv))
   | Int32Kind \<Rightarrow> Inr (sint (GetInt32 lv) > sint (GetInt32 rv))
   | Int64Kind \<Rightarrow> Inr (sint (GetInt64 lv) > sint (GetInt64 rv))
   | UintKind \<Rightarrow> Inr (GetUint lv > GetUint rv)
   | Uint8Kind \<Rightarrow> Inr (GetUint8 lv > GetUint8 rv)
   | Uint16Kind \<Rightarrow> Inr (GetUint16 lv > GetUint16 rv)
   | Uint32Kind \<Rightarrow> Inr (GetUint32 lv > GetUint32 rv)
   | Uint64Kind \<Rightarrow> Inr (GetUint64 lv > GetUint64 rv)
   | Float32Kind \<Rightarrow> Inr (frel32 flt (GetFloat32 rv) (GetFloat32 lv))
   | Float64Kind \<Rightarrow> Inr (frel64 flt (GetFloat64 rv) (GetFloat64 lv))
   | BigintKind \<Rightarrow> bindR (GetBigInt lv) (\<lambda>l. bindR (GetBigInt rv) (\<lambda>r. Inr (l > r)))
   | BigdecKind \<Rightarrow> bindR (GetBigDec lv) (\<lambda>l. bindR (GetBigDec rv) (\<lambda>r. Inr (dCmp D l r > 0)))
   | _ \<Rightarrow> Inl (Panic ''comparison operator > not defined''))"

definition isGeq :: "'d apd \<Rightarrow> 'd TypedValue \<Rightarrow> 'd TypedValue \<Rightarrow> bool result" where
  "isGeq D lv rv = bindR (kindT lv) (\<lambda>k. case k of
     StringKind \<Rightarrow> bindR (stringV lv) (\<lambda>l. bindR (stringV rv) (\<lambda>r. Inr (l \<ge> r)))
   | IntKind \<Rightarrow> Inr (sint (GetInt lv) \<ge> sint (GetInt rv))
   | Int8Kind \<Rightarrow> Inr (sint (GetInt8 lv) \<ge> sint (GetInt8 rv))
   | Int16Kind \<Rightarrow> Inr (sint (GetInt16 lv) \<ge> sint (GetInt16 rv))
   | Int32Kind \<Rightarrow> Inr (sint (GetInt32 lv) \<ge> sint (GetInt32 rv))
   | Int64Kind \<Rightarrow> Inr (sint (GetInt64 lv) \<ge> sint (GetInt64 rv))
   | UintKind \<Rightarrow> Inr (GetUint lv \<ge> GetUint rv)
   | Uint8Kind \<Rightarrow> Inr (GetUint8 lv \<ge> GetUint8 rv)
   | Uint16Kind \<Rightarrow> Inr (GetUint16 lv \<ge> GetUint16 rv)
   | Uint32Kind \<Rightarrow> Inr (GetUint32 lv \<ge> GetUint32 rv)
   | Uint64Kind \<Rightarrow> Inr (GetUint64 lv \<ge> GetUint64 rv)
   | Float32Kind \<Rightarrow> Inr (frel32 fle (GetFloat32 rv) (GetFloat32 lv))
   | Float64Kind \<Rightarrow> Inr (frel64 fle (GetFloat64 rv) (GetFloat64 lv))
   | BigintKind \<Rightarrow> bindR (GetBigInt lv) (\<lambda>l. bindR (GetBigInt rv) (\<lambda>r. Inr (l \<ge> r)))
   | BigdecKind \<Rightarrow> bindR (GetBigDec lv) (\<lambda>l. bindR (GetBigDec rv) (\<lambda>r. Inr (dCmp D l r \<ge> 0)))
   | _ \<Rightarrow> Inl (Panic ''comparison operator >= not defined''))"

subsection \<open>Arithmetic\<close>

definition addAssign :: "fpu \<Rightarrow> 'd apd \<Rightarrow> Allocator option \<Rightarrow> 'd heap \<Rightarrow> 'd TypedValue \<Rightarrow> 'd TypedValue \<Rightarrow>
    (Allocator option \<times> 'd heap \<times> 'd TypedValue) result" where
  "addAssign U D al h lv rv = (case baseOf (T lv) of
     Some (Primitive bt) \<Rightarrow> (case bt of
       StringType \<Rightarrow> bindR (GetString lv) (\<lambda>l. bindR (GetString rv) (\<lambda>r.
         bindR (NewString al (l @ r)) (\<lambda>(al, s). Inr (al, h, lv\<lparr>V := Some s\<rparr>))))
     | UntypedStringType \<Rightarrow> bindR (GetString lv) (\<lambda>l. bindR (GetString rv) (\<lambda>r.
         bindR (NewString al (l @ r)) (\<lambda>(al, s). Inr (al, h, lv\<lparr>V := Some s\<rparr>))))
     | IntType \<Rightarrow> Inr (al, h, SetInt lv (GetInt lv + GetInt rv))
     | Int8Type \<Rightarrow> Inr (al, h, SetInt8 lv (GetInt8 lv + GetInt8 rv))
     | Int16Type \<Rightarrow> Inr (al, h, SetInt16 lv (GetInt16 lv + GetInt16 rv))
     | Int32Type \<Rightarrow> Inr (al, h, SetInt32 lv (GetInt32 lv + GetInt32 rv))
     | UntypedRuneType \<Rightarrow> Inr (al, h, SetInt32 lv (GetInt32 lv + GetInt32 rv))
     | Int64Type \<Rightarrow> Inr (al, h, SetInt64 lv (GetInt64 lv + GetInt64 rv))
     | UintType \<Rightarrow> Inr (al, h, SetUint lv (GetUint lv + GetUint rv))
     | Uint8Type \<Rightarrow> Inr (al, h, SetUint8 lv (GetUint8 lv + GetUint8 rv))
     | DataByteType \<Rightarrow> bindR (GetDataByte h lv) (\<lambda>b.
         bindR (SetDataByte h lv (b + GetUint8 rv)) (\<lambda>h. Inr (al, h, lv)))
     | Uint16Type \<Rightarrow> Inr (al, h, SetUint16 lv (GetUint16 lv + GetUint16 rv))
     | Uint32Type \<Rightarrow> Inr (al, h, SetUint32 lv (GetUint32 lv + GetUint32 rv))
     | Uint64Type \<Rightarrow> Inr (al, h, SetUint64 lv (GetUint64 lv + GetUint64 rv))
     | Float32Type \<Rightarrow> Inr (al, h, SetFloat32 lv (fop32 U fadd (GetFloat32 lv) (GetFloat32 rv)))
     | Float64Type \<Rightarrow> Inr (al, h, SetFloat64 lv (fop64 U fadd (GetFloat64 lv) (GetFloat64 rv)))
     | BigintType \<Rightarrow> bindR (GetBigInt lv) (\<lambda>l. bindR (GetBigInt rv) (\<lambda>r.
         Inr (al, h, lv\<lparr>V := Some (BigintValue (l + r))\<rparr>)))
     | UntypedBigintType \<Rightarrow> bindR (GetBigInt lv) (\<lambda>l. bindR (GetBigInt rv) (\<lambda>r.
         Inr (al, h, lv\<lparr>V := Some (BigintValue (l + r))\<rparr>)))
     | BigdecType \<Rightarrow> bindR (GetBigDec lv) (\<lambda>l. bindR (GetBigDec rv) (\<lambda>r.
         (case dAdd D l r of
           None \<Rightarrow> Inl (Panic ''bigdec addition error'')
         | Some (c, inexact) \<Rightarrow> if inexact then Inl (Panic ''bigdec addition inexact'')
             else Inr (al, h, lv\<lparr>V := Some (BigdecValue c)\<rparr>))))
     | UntypedBigdecType \<Rightarrow> bindR (GetBigDec lv) (\<lambda>l. bindR (GetBigDec rv) (\<lambda>r.
         (case dAdd D l r of
           None \<Rightarrow> Inl (Panic ''bigdec addition error'')
         | Some (c, inexact) \<Rightarrow> if inexact then Inl (Panic ''bigdec addition inexact'')
             else Inr (al, h, lv\<lparr>V := Some (BigdecValue c)\<rparr>))))
     | _ \<Rightarrow> Inl (Panic ''operators + and += not defined''))
   | _ \<Rightarrow> Inl (Panic ''operators + and += not defined''))"

definition subAssign :: "fpu \<Rightarrow> 'd apd \<Rightarrow> 'd heap \<Rightarrow> 'd TypedValue \<Rightarrow> 'd TypedValue \<Rightarrow>
    ('d heap \<times> 'd TypedValue) result" where
  "subAssign U D h lv rv = (case baseOf (T lv) of
     Some (Primitive bt) \<Rightarrow> (case bt of
       IntType \<Rightarrow> Inr (h, SetInt lv (GetInt lv - GetInt rv))
     | Int8Type \<Rightarrow> Inr (h, SetInt8 lv (GetInt8 lv - GetInt8 rv))
     | Int16Type \<Rightarrow> Inr (h, SetInt16 lv (GetInt16 lv - GetInt16 rv))
     | Int32Type \<Rightarrow> Inr (h, SetInt32 lv (GetInt32 lv - GetInt32 rv))
     | UntypedRuneType \<Rightarrow> Inr (h, SetInt32 lv (GetInt32 lv - GetInt32 rv))
     | Int64Type \<Rightarrow> Inr (h, SetInt64 lv (GetInt64 lv - GetInt64 rv))
     | UintType \<Rightarrow> Inr (h, SetUint lv (GetUint lv - GetUint rv))
     | Uint8Type \<Rightarrow> Inr (h, SetUint8 lv (GetUint8 lv - GetUint8 rv))
     | DataByteType \<Rightarrow> bindR (GetDataByte h lv) (\<lambda>b.
         bindR (SetDataByte h lv (b - GetUint8 rv)) (\<lambda>h. Inr (h, lv)))
     | Uint16Type \<Rightarrow> Inr (h, SetUint16 lv (GetUint16 lv - GetUint16 rv))
     | Uint32Type \<Rightarrow> Inr (h, SetUint32 lv (GetUint32 lv - GetUint32 rv))
     | Uint64Type \<Rightarrow> Inr (h, SetUint64 lv (GetUint64 lv - GetUint64 rv))
     | Float32Type \<Rightarrow> Inr (h, SetFloat32 lv (fop32 U fsub (GetFloat32 lv) (GetFloat32 rv)))
     | Float64Type \<Rightarrow> Inr (h, SetFloat64 lv (fop64 U fsub (GetFloat64 lv) (GetFloat64 rv)))
     | BigintType \<Rightarrow> bindR (GetBigInt lv) (\<lambda>l. bindR (GetBigInt rv) (\<lambda>r.
         Inr (h, lv\<lparr>V := Some (BigintValue (l - r))\<rparr>)))
     | UntypedBigintType \<Rightarrow> bindR (GetBigInt lv) (\<lambda>l. bindR (GetBigInt rv) (\<lambda>r.
         Inr (h, lv\<lparr>V := Some (BigintValue (l - r))\<rparr>)))
     | BigdecType \<Rightarrow> bindR (GetBigDec lv) (\<lambda>l. bindR (GetBigDec rv) (\<lambda>r.
         (case dSub D l r of
           None \<Rightarrow> Inl (Panic ''bigdec subtraction error'')
         | Some (c, inexact) \<Rightarrow> if inexact then Inl (Panic ''bigdec subtraction inexact'')
             else Inr (h, lv\<lparr>V := Some (BigdecValue c)\<rparr>))))
     | UntypedBigdecType \<Rightarrow> bindR (GetBigDec lv) (\<lambda>l. bindR (GetBigDec rv) (\<lambda>r.
         (case dSub D l r of
           None \<Rightarrow> Inl (Panic ''bigdec subtraction error'')
         | Some (c, inexact) \<Rightarrow> if inexact then Inl (Panic ''bigdec subtraction inexact'')
             else Inr (h, lv\<lparr>V := Some (BigdecValue c)\<rparr>))))
     | _ \<Rightarrow> Inl (Panic ''operators - and -= not defined''))
   | _ \<Rightarrow> Inl (Panic ''operators - and -= not defined''))"

definition mulAssign :: "fpu \<Rightarrow> 'd apd \<Rightarrow> 'd heap \<Rightarrow> 'd TypedValue \<Rightarrow> 'd TypedValue \<Rightarrow>
    ('d heap \<times> 'd TypedValue) result" where
  "mulAssign U D h lv rv = (case baseOf (T lv) of
     Some (Primitive bt) \<Rightarrow> (case bt of
       IntType \<Rightarrow> Inr (h, SetInt lv (GetInt lv * GetInt rv))
     | Int8Type \<Rightarrow> Inr (h, SetInt8 lv (GetInt8 lv * GetInt8 rv))
     | Int16Type \<Rightarrow> Inr (h, SetInt16 lv (GetInt16 lv * GetInt16 rv))
     | Int32Type \<Rightarrow> Inr (h, SetInt32 lv (GetInt32 lv * GetInt32 rv))
     | UntypedRuneType \<Rightarrow> Inr (h, SetInt32 lv (GetInt32 lv * GetInt32 rv))
     | Int64Type \<Rightarrow> Inr (h, SetInt64 lv (GetInt64 lv * GetInt64 rv))
     | UintType \<Rightarrow> Inr (h, SetUint lv (GetUint lv * GetUint rv))
     | Uint8Type \<Rightarrow> Inr (h, SetUint8 lv (GetUint8 lv * GetUint8 rv))
     | DataByteType \<Rightarrow> bindR (GetDataByte h lv) (\<lambda>b.
         bindR (SetDataByte h lv (b * GetUint8 rv)) (\<lambda>h. Inr (h, lv)))
     | Uint16Type \<Rightarrow> Inr (h, SetUint16 lv (GetUint16 lv * GetUint16 rv))
     | Uint32Type \<Rightarrow> Inr (h, SetUint32 lv (GetUint32 lv * GetUint32 rv))
     | Uint64Type \<Rightarrow> Inr (h, SetUint64 lv (GetUint64 lv * GetUint64 rv))
     | Float32Type \<Rightarrow> Inr (h, SetFloat32 lv (fop32 U fmul (GetFloat32 lv) (GetFloat32 rv)))
     | Float64Type \<Rightarrow> Inr (h, SetFloat64 lv (fop64 U fmul (GetFloat64 lv) (GetFloat64 rv)))
     | BigintType \<Rightarrow> bindR (GetBigInt lv) (\<lambda>l. bindR (GetBigInt rv) (\<lambda>r.
         Inr (h, lv\<lparr>V := Some (BigintValue (l * r))\<rparr>)))
     | UntypedBigintType \<Rightarrow> bindR (GetBigInt lv) (\<lambda>l. bindR (GetBigInt rv) (\<lambda>r.
         Inr (h, lv\<lparr>V := Some (BigintValue (l * r))\<rparr>)))
     | BigdecType \<Rightarrow> bindR (GetBigDec lv) (\<lambda>l. bindR (GetBigDec rv) (\<lambda>r.
         (case dMul D l r of
           None \<Rightarrow> Inl (Panic ''bigdec multiplication error'')
         | Some c \<Rightarrow> Inr (h, lv\<lparr>V := Some (BigdecValue c)\<rparr>))))
     | UntypedBigdecType \<Rightarrow> bindR (GetBigDec lv) (\<lambda>l. bindR (GetBigDec rv) (\<lambda>r.
         (case dMul D l r of
           None \<Rightarrow> Inl (Panic ''bigdec multiplication error'')
         | Some c \<Rightarrow> Inr (h, lv\<lparr>V := Some (BigdecValue c)\<rparr>))))
     | _ \<Rightarrow> Inl (Panic ''operators * and *= not defined''))
   | _ \<Rightarrow> Inl (Panic ''operators * and *= not defined''))"

definition quoAssign :: "fpu \<Rightarrow> 'd apd \<Rightarrow> 'd heap \<Rightarrow> 'd TypedValue \<Rightarrow> 'd TypedValue \<Rightarrow>
    ('d heap \<times> 'd TypedValue) result" where
  "quoAssign U D h lv rv = (case baseOf (T lv) of
     Some (Primitive bt) \<Rightarrow> (case bt of
       IntType \<Rightarrow> bindR (go_squo (GetInt lv) (GetInt rv)) (\<lambda>c. Inr (h, SetInt lv c))
     | Int8Type \<Rightarrow> bindR (go_squo (GetInt8 lv) (GetInt8 rv)) (\<lambda>c. Inr (h, SetInt8 lv c))
     | Int16Type \<Rightarrow> bindR (go_squo (GetInt16 lv) (GetInt16 rv)) (\<lambda>c. Inr (h, SetInt16 lv c))
     | Int32Type \<Rightarrow> bindR (go_squo (GetInt32 lv) (GetInt32 rv)) (\<lambda>c. Inr (h, SetInt32 lv c))
     | UntypedRuneType \<Rightarrow> bindR (go_squo (GetInt32 lv) (GetInt32 rv)) (\<lambda>c. Inr (h, SetInt32 lv c))
     | Int64Type \<Rightarrow> bindR (go_squo (GetInt64 lv) (GetInt64 rv)) (\<lambda>c. Inr (h, SetInt64 lv c))
     | UintType \<Rightarrow> bindR (go_uquo (GetUint lv) (GetUint rv)) (\<lambda>c. Inr (h, SetUint lv c))
     | Uint8Type \<Rightarrow> bindR (go_uquo (GetUint8 lv) (GetUint8 rv)) (\<lambda>c. Inr (h, SetUint8 lv c))
     | DataByteType \<Rightarrow> bindR (GetDataByte h lv) (\<lambda>b. bindR (go_uquo b (GetUint8 rv)) (\<lambda>c.
         bindR (SetDataByte h lv c) (\<lambda>h. Inr (h, lv))))
     | Uint16Type \<Rightarrow> bindR (go_uquo (GetUint16 lv) (GetUint16 rv)) (\<lambda>c. Inr (h, SetUint16 lv c))
     | Uint32Type \<Rightarrow> bindR (go_uquo (GetUint32 lv) (GetUint32 rv)) (\<lambda>c. Inr (h, SetUint32 lv c))
     | Uint64Type \<Rightarrow> bindR (go_uquo (GetUint64 lv) (GetUint64 rv)) (\<lambda>c. Inr (h, SetUint64 lv c))
     | Float32Type \<Rightarrow> Inr (h, SetFloat32 lv (fop32 U fquo (GetFloat32 lv) (GetFloat32 rv)))
     | Float64Type \<Rightarrow> Inr (h, SetFloat64 lv (fop64 U fquo (GetFloat64 lv) (GetFloat64 rv)))
     | BigintType \<Rightarrow> bindR (GetBigInt lv) (\<lambda>l. bindR (GetBigInt rv) (\<lambda>r.
         bindR (big_quo l r) (\<lambda>c. Inr (h, lv\<lparr>V := Some (BigintValue c)\<rparr>))))
     | UntypedBigintType \<Rightarrow> bindR (GetBigInt lv) (\<lambda>l. bindR (GetBigInt rv) (\<lambda>r.
         bindR (big_quo l r) (\<lambda>c. Inr (h, lv\<lparr>V := Some (BigintValue c)\<rparr>))))
     | BigdecType \<Rightarrow> bindR (GetBigDec lv) (\<lambda>l. bindR (GetBigDec rv) (\<lambda>r.
         (case dQuo D l r of
           None \<Rightarrow> Inl (Panic ''bigdec division error'')
         | Some c \<Rightarrow> Inr (h, lv\<lparr>V := Some (BigdecValue c)\<rparr>))))
     | UntypedBigdecType \<Rightarrow> bindR (GetBigDec lv) (\<lambda>l. bindR (GetBigDec rv) (\<lambda>r.
         (case dQuo D l r of
           None \<Rightarrow> Inl (Panic ''bigdec division error'')
         | Some c \<Rightarrow> Inr (h, lv\<lparr>V := Some (BigdecValue c)\<rparr>))))
     | _ \<Rightarrow> Inl (Panic ''operators / and /= not defined''))
   | _ \<Rightarrow> Inl (Panic ''operators / and /= not defined''))"

definition remAssign :: "'d heap \<Rightarrow> 'd TypedValue \<Rightarrow> 'd TypedValue \<Rightarrow>
    ('d heap \<times> 'd TypedValue) result" where
  "remAssign h lv rv = (case baseOf (T lv) of
     Some (Primitive bt) \<Rightarrow> (case bt of
       IntType \<Rightarrow> bindR (go_srem (GetInt lv) (GetInt rv)) (\<lambda>c. Inr (h, SetInt lv c))
     | Int8Type \<Rightarrow> bindR (go_srem (GetInt8 lv) (GetInt8 rv)) (\<lambda>c. Inr (h, SetInt8 lv c))
     | Int16Type \<Rightarrow> bindR (go_srem (GetInt16 lv) (GetInt16 rv)) (\<lambda>c. Inr (h, SetInt16 lv c))
     | Int32Type \<Rightarrow> bindR (go_srem (GetInt32 lv) (GetInt32 rv)) (\<lambda>c. Inr (h, SetInt32 lv c))
     | UntypedRuneType \<Rightarrow> bindR (go_srem (GetInt32 lv) (GetInt32 rv)) (\<lambda>c. Inr (h, SetInt32 lv c))
     | Int64Type \<Rightarrow> bindR (go_srem (GetInt64 lv) (GetInt64 rv)) (\<lambda>c. Inr (h, SetInt64 lv c))
     | UintType \<Rightarrow> bindR (go_urem (GetUint lv) (GetUint rv)) (\<lambda>c. Inr (h, SetUint lv c))
     | Uint8Type \<Rightarrow> bindR (go_urem (GetUint8 lv) (GetUint8 rv)) (\<lambda>c. Inr (h, SetUint8 lv c))
     | DataByteType \<Rightarrow> bindR (GetDataByte h lv) (\<lambda>b. bindR (go_urem b (GetUint8 rv)) (\<lambda>c.
         bindR (SetDataByte h lv c) (\<lambda>h. Inr (h, lv))))
     | Uint16Type \<Rightarrow> bindR (go_urem (GetUint16 lv) (GetUint16 rv)) (\<lambda>c. Inr (h, SetUint16 lv c))
     | Uint32Type \<Rightarrow> bindR (go_urem (GetUint32 lv) (GetUint32 rv)) (\<lambda>c. Inr (h, SetUint32 lv c))
     | Uint64Type \<Rightarrow> bindR (go_urem (GetUint64 lv) (GetUint64 rv)) (\<lambda>c. Inr (h, SetUint64 lv c))
     | BigintType \<Rightarrow> bindR (GetBigInt lv) (\<lambda>l. bindR (GetBigInt rv) (\<lambda>r.
         bindR (big_rem l r) (\<lambda>c. Inr (h, lv\<lparr>V := Some (BigintValue c)\<rparr>))))
     | UntypedBigintType \<Rightarrow> bindR (GetBigInt lv) (\<lambda>l. bindR (GetBigInt rv) (\<lambda>r.
         bindR (big_rem l r) (\<lambda>c. Inr (h, lv\<lparr>V := Some (BigintValue c)\<rparr>))))
     | _ \<Rightarrow> Inl (Panic ''operators % and %= not defined''))
   | _ \<Rightarrow> Inl (Panic ''operators % and %= not defined''))"

subsection \<open>Bits and shifts\<close>

definition bandAssign :: "'d heap \<Rightarrow> 'd TypedValue \<Rightarrow> 'd TypedValue \<Rightarrow>
    ('d heap \<times> 'd TypedValue) result" where
  "bandAssign h lv rv = (case baseOf (T lv) of
     Some (Primitive bt) \<Rightarrow> (case bt of
       IntType \<Rightarrow> Inr (h, SetInt lv (GetInt lv AND GetInt rv))
     | Int8Type \<Rightarrow> Inr (h, SetInt8 lv (GetInt8 lv AND GetInt8 rv))
     | Int16Type \<Rightarrow> Inr (h, SetInt16 lv (GetInt16 lv AND GetInt16 rv))
     | Int32Type \<Rightarrow> Inr (h, SetInt32 lv (GetInt32 lv AND GetInt32 rv))
     | UntypedRuneType \<Rightarrow> Inr (h, SetInt32 lv (GetInt32 lv AND GetInt32 rv))
     | Int64Type \<Rightarrow> Inr (h, SetInt64 lv (GetInt64 lv AND GetInt64 rv))
     | UintType \<Rightarrow> Inr (h, SetUint lv (GetUint lv AND GetUint rv))
     | Uint8Type \<Rightarrow> Inr (h, SetUint8 lv (GetUint8 lv AND GetUint8 rv))
     | DataByteType \<Rightarrow> bindR (GetDataByte h lv) (\<lambda>b.
         bindR (SetDataByte h lv (b AND GetUint8 rv)) (\<lambda>h. Inr (h, lv)))
     | Uint16Type \<Rightarrow> Inr (h, SetUint16 lv (GetUint16 lv AND GetUint16 rv))
     | Uint32Type \<Rightarrow> Inr (h, SetUint32 lv (GetUint32 lv AND GetUint32 rv))
     | Uint64Type \<Rightarrow> Inr (h, SetUint64 lv (GetUint64 lv AND GetUint64 rv))
     | BigintType \<Rightarrow> bindR (GetBigInt lv) (\<lambda>l. bindR (GetBigInt rv) (\<lambda>r.
         Inr (h, lv\<lparr>V := Some (BigintValue (l AND r))\<rparr>)))
     | UntypedBigintType \<Rightarrow> bindR (GetBigInt lv) (\<lambda>l. bindR (GetBigInt rv) (\<lambda>r.
         Inr (h, lv\<lparr>V := Some (BigintValue (l AND r))\<rparr>)))
     | _ \<Rightarrow> Inl (Panic ''operators & and &= not defined''))
   | _ \<Rightarrow> Inl (Panic ''operators & and &= not defined''))"

definition bandnAssign :: "'d heap \<Rightarrow> 'd TypedValue \<Rightarrow> 'd TypedValue \<Rightarrow>
    ('d heap \<times> 'd TypedValue) result" where
  "bandnAssign h lv rv = (case baseOf (T lv) of
     Some (Primitive bt) \<Rightarrow> (case bt of
       IntType \<Rightarrow> Inr (h, SetInt lv (GetInt lv AND NOT (GetInt rv)))
     | Int8Type \<Rightarrow> Inr (h, SetInt8 lv (GetInt8 lv AND NOT (GetInt8 rv)))
     | Int16Type \<Rightarrow> Inr (h, SetInt16 lv (GetInt16 lv AND NOT (GetInt16 rv)))
     | Int32Type \<Rightarrow> Inr (h, SetInt32 lv (GetInt32 lv AND NOT (GetInt32 rv)))
     | UntypedRuneType \<Rightarrow> Inr (h, SetInt32 lv (GetInt32 lv AND NOT (GetInt32 rv)))
     | Int64Type \<Rightarrow> Inr (h, SetInt64 lv (GetInt64 lv AND NOT (GetInt64 rv)))
     | UintType \<Rightarrow> Inr (h, SetUint lv (GetUint lv AND NOT (GetUint rv)))
     | Uint8Type \<Rightarrow> Inr (h, SetUint8 lv (GetUint8 lv AND NOT (GetUint8 rv)))
     | DataByteType \<Rightarrow> bindR (GetDataByte h lv) (\<lambda>b.
         bindR (SetDataByte h lv (b AND NOT (GetUint8 rv))) (\<lambda>h. Inr (h, lv)))
     | Uint16Type \<Rightarrow> Inr (h, SetUint16 lv (GetUint16 lv AND NOT (GetUint16 rv)))
     | Uint32Type \<Rightarrow> Inr (h, SetUint32 lv (GetUint32 lv AND NOT (GetUint32 rv)))
     | Uint64Type \<Rightarrow> Inr (h, SetUint64 lv (GetUint64 lv AND NOT (GetUint64 rv)))
     | BigintType \<Rightarrow> bindR (GetBigInt lv) (\<lambda>l. bindR (GetBigInt rv) (\<lambda>r.
         Inr (h, lv\<lparr>V := Some (BigintValue (l AND NOT r))\<rparr>)))
     | UntypedBigintType \<Rightarrow> bindR (GetBigInt lv) (\<lambda>l. bindR (GetBigInt rv) (\<lambda>r.
         Inr (h, lv\<lparr>V := Some (BigintValue (l AND NOT r))\<rparr>)))
     | _ \<Rightarrow> Inl (Panic ''operators &^ and &^= not defined''))
   | _ \<Rightarrow> Inl (Panic ''operators &^ and &^= not defined''))"

definition borAssign :: "'d heap \<Rightarrow> 'd TypedValue \<Rightarrow> 'd TypedValue \<Rightarrow>
    ('d heap \<times> 'd TypedValue) result" where
  "borAssign h lv rv = (case baseOf (T lv) of
     Some (Primitive bt) \<Rightarrow> (case bt of
       IntType \<Rightarrow> Inr (h, SetInt lv (GetInt lv OR GetInt rv))
     | Int8Type \<Rightarrow> Inr (h, SetInt8 lv (GetInt8 lv OR GetInt8 rv))
     | Int16Type \<Rightarrow> Inr (h, SetInt16 lv (GetInt16 lv OR GetInt16 rv))
     | Int32Type \<Rightarrow> Inr (h, SetInt32 lv (GetInt32 lv OR GetInt32 rv))
     | UntypedRuneType \<Rightarrow> Inr (h, SetInt32 lv (GetInt32 lv OR GetInt32 rv))
     | Int64Type \<Rightarrow> Inr (h, SetInt64 lv (GetInt64 lv OR GetInt64 rv))
     | UintType \<Rightarrow> Inr (h, SetUint lv (GetUint lv OR GetUint rv))
     | Uint8Type \<Rightarrow> Inr (h, SetUint8 lv (GetUint8 lv OR GetUint8 rv))
     | DataByteType \<Rightarrow> bindR (GetDataByte h lv) (\<lambda>b.
         bindR (SetDataByte h lv (b OR GetUint8 rv)) (\<lambda>h. Inr (h, lv)))
     | Uint16Type \<Rightarrow> Inr (h, SetUint16 lv (GetUint16 lv OR GetUint16 rv))
     | Uint32Type \<Rightarrow> Inr (h, SetUint32 lv (GetUint32 lv OR GetUint32 rv))
     | Uint64Type \<Rightarrow> Inr (h, SetUint64 lv (GetUint64 lv OR GetUint64 rv))
     | BigintType \<Rightarrow> bindR (GetBigInt lv) (\<lambda>l. bindR (GetBigInt rv) (\<lambda>r.
         Inr (h, lv\<lparr>V := Some (BigintValue (l OR r))\<rparr>)))
     | UntypedBigintType \<Rightarrow> bindR (GetBigInt lv) (\<lambda>l. bindR (GetBigInt rv) (\<lambda>r.
         Inr (h, lv\<lparr>V := Some (BigintValue (l OR r))\<rparr>)))
     | _ \<Rightarrow> Inl (Panic ''operators | and |= not defined''))
   | _ \<Rightarrow> Inl (Panic ''operators | and |= not defined''))"

definition xorAssign :: "'d heap \<Rightarrow> 'd TypedValue \<Rightarrow> 'd TypedValue \<Rightarrow>
    ('d heap \<times> 'd TypedValue) result" where
  "xorAssign h lv rv = (case baseOf (T lv) of
     Some (Primitive bt) \<Rightarrow> (case bt of
       IntType \<Rightarrow> Inr (h, SetInt lv (GetInt lv XOR GetInt rv))
     | Int8Type \<Rightarrow> Inr (h, SetInt8 lv (GetInt8 lv XOR GetInt8 rv))
     | Int16Type \<Rightarrow> Inr (h, SetInt16 lv (GetInt16 lv XOR GetInt16 rv))
     | Int32Type \<Rightarrow> Inr (h, SetInt32 lv (GetInt32 lv XOR GetInt32 rv))
     | UntypedRuneType \<Rightarrow> Inr (h, SetInt32 lv (GetInt32 lv XOR GetInt32 rv))
     | Int64Type \<Rightarrow> Inr (h, SetInt64 lv (GetInt64 lv XOR GetInt64 rv))
     | UintType \<Rightarrow> Inr (h, SetUint lv (GetUint lv XOR GetUint rv))
     | Uint8Type \<Rightarrow> Inr (h, SetUint8 lv (GetUint8 lv XOR GetUint8 rv))
     | DataByteType \<Rightarrow> bindR (GetDataByte h lv) (\<lambda>b.
         bindR (SetDataByte h lv (b XOR GetUint8 rv)) (\<lambda>h. Inr (h, lv)))
     | Uint16Type \<Rightarrow> Inr (h, SetUint16 lv (GetUint16 lv XOR GetUint16 rv))
     | Uint32Type \<Rightarrow> Inr (h, SetUint32 lv (GetUint32 lv XOR GetUint32 rv))
     | Uint64Type \<Rightarrow> Inr (h, SetUint64 lv (GetUint64 lv XOR GetUint64 rv))
     | BigintType \<Rightarrow> bindR (GetBigInt lv) (\<lambda>l. bindR (GetBigInt rv) (\<lambda>r.
         Inr (h, lv\<lparr>V := Some (BigintValue (l XOR r))\<rparr>)))
     | UntypedBigintType \<Rightarrow> bindR (GetBigInt lv) (\<lambda>l. bindR (GetBigInt rv) (\<lambda>r.
         Inr (h, lv\<lparr>V := Some (BigintValue (l XOR r))\<rparr>)))
     | _ \<Rightarrow> Inl (Panic ''operators ^ and ^= not defined''))
   | _ \<Rightarrow> Inl (Panic ''operators ^ and ^= not defined''))"

definition shlAssign :: "'d heap \<Rightarrow> 'd TypedValue \<Rightarrow> 'd TypedValue \<Rightarrow>
    ('d heap \<times> 'd TypedValue) result" where
  "shlAssign h lv rv = (case baseOf (T lv) of
     Some (Primitive bt) \<Rightarrow> (case bt of
       IntType \<Rightarrow> Inr (h, SetInt lv (go_shl (GetInt lv) (GetUint rv)))
     | Int8Type \<Rightarrow> Inr (h, SetInt8 lv (go_shl (GetInt8 lv) (GetUint rv)))
     | Int16Type \<Rightarrow> Inr (h, SetInt16 lv (go_shl (GetInt16 lv) (GetUint rv)))
     | Int32Type \<Rightarrow> Inr (h, SetInt32 lv (go_shl (GetInt32 lv) (GetUint rv)))
     | UntypedRuneType \<Rightarrow> Inr (h, SetInt32 lv (go_shl (GetInt32 lv) (GetUint rv)))
     | Int64Type \<Rightarrow> Inr (h, SetInt64 lv (go_shl (GetInt64 lv) (GetUint rv)))
     | UintType \<Rightarrow> Inr (h, SetUint lv (go_shl (GetUint lv) (GetUint rv)))
     | Uint8Type \<Rightarrow> Inr (h, SetUint8 lv (go_shl (GetUint8 lv) (GetUint rv)))
     | DataByteType \<Rightarrow> bindR (GetDataByte h lv) (\<lambda>b.
         bindR (SetDataByte h lv (go_shl b (GetUint rv))) (\<lambda>h. Inr (h, lv)))
     | Uint16Type \<Rightarrow> Inr (h, SetUint16 lv (go_shl (GetUint16 lv) (GetUint rv)))
     | Uint32Type \<Rightarrow> Inr (h, SetUint32 lv (go_shl (GetUint32 lv) (GetUint rv)))
     | Uint64Type \<Rightarrow> Inr (h, SetUint64 lv (go_shl (GetUint64 lv) (GetUint rv)))
     | BigintType \<Rightarrow> bindR (GetBigInt lv) (\<lambda>l. Inr (h, lv\<lparr>V := Some (BigintValue (push_bit (unat (GetUint rv)) l))\<rparr>))
     | UntypedBigintType \<Rightarrow> bindR (GetBigInt lv) (\<lambda>l. Inr (h, lv\<lparr>V := Some (BigintValue (push_bit (unat (GetUint rv)) l))\<rparr>))
     | _ \<Rightarrow> Inl (Panic ''operators << and <<= not defined''))
   | _ \<Rightarrow> Inl (Panic ''operators << and <<= not defined''))"

definition shrAssign :: "'d heap \<Rightarrow> 'd TypedValue \<Rightarrow> 'd TypedValue \<Rightarrow>
    ('d heap \<times> 'd TypedValue) result" where
  "shrAssign h lv rv = (case baseOf (T lv) of
     Some (Primitive bt) \<Rightarrow> (case bt of
       IntType \<Rightarrow> Inr (h, SetInt lv (go_sshr (GetInt lv) (GetUint rv)))
     | Int8Type \<Rightarrow> Inr (h, SetInt8 lv (go_sshr (GetInt8 lv) (GetUint rv)))
     | Int16Type \<Rightarrow> Inr (h, SetInt16 lv (go_sshr (GetInt16 lv) (GetUint rv)))
     | Int32Type \<Rightarrow> Inr (h, SetInt32 lv (go_sshr (GetInt32 lv) (GetUint rv)))
     | UntypedRuneType \<Rightarrow> Inr (h, SetInt32 lv (go_sshr (GetInt32 lv) (GetUint rv)))
     | Int64Type \<Rightarrow> Inr (h, SetInt64 lv (go_sshr (GetInt64 lv) (GetUint rv)))
     | UintType \<Rightarrow> Inr (h, SetUint lv (go_ushr (GetUint lv) (GetUint rv)))
     | Uint8Type \<Rightarrow> Inr (h, SetUint8 lv (go_ushr (GetUint8 lv) (GetUint rv)))
     | DataByteType \<Rightarrow> bindR (GetDataByte h lv) (\<lambda>b.
         bindR (SetDataByte h lv (go_ushr b (GetUint rv))) (\<lambda>h. Inr (h, lv)))
     | Uint16Type \<Rightarrow> Inr (h, SetUint16 lv (go_ushr (GetUint16 lv) (GetUint rv)))
     | Uint32Type \<Rightarrow> Inr (h, SetUint32 lv (go_ushr (GetUint32 lv) (GetUint rv)))
     | Uint64Type \<Rightarrow> Inr (h, SetUint64 lv (go_ushr (GetUint64 lv) (GetUint rv)))
     | BigintType \<Rightarrow> bindR (GetBigInt lv) (\<lambda>l. Inr (h, lv\<lparr>V := Some (BigintValue (drop_bit (unat (GetUint rv)) l))\<rparr>))
     | UntypedBigintType \<Rightarrow> bindR (GetBigInt lv) (\<lambda>l. Inr (h, lv\<lparr>V := Some (BigintValue (drop_bit (unat (GetUint rv)) l))\<rparr>))
     | _ \<Rightarrow> Inl (Panic ''operators >> and >>= not defined''))
   | _ \<Rightarrow> Inl (Panic ''operators >> and >>= not defined''))"

subsection \<open>Unary operators\<close>

definition unegValue :: "'d apd \<Rightarrow> 'd TypedValue \<Rightarrow> 'd TypedValue result" where
  "unegValue D xv = (case baseOf (T xv) of
     Some (Primitive bt) \<Rightarrow> (case bt of
       IntType \<Rightarrow> Inr (SetInt xv (- GetInt xv))
     | Int8Type \<Rightarrow> Inr (SetInt8 xv (- GetInt8 xv))
     | Int16Type \<Rightarrow> Inr (SetInt16 xv (- GetInt16 xv))
     | Int32Type \<Rightarrow> Inr (SetInt32 xv (- GetInt32 xv))
     | Int64Type \<Rightarrow> Inr (SetInt64 xv (- GetInt64 xv))
     | UintType \<Rightarrow> Inr (SetUint xv (- GetUint xv))
     | Uint8Type \<Rightarrow> Inr (SetUint8 xv (- GetUint8 xv))
     | Uint16Type \<Rightarrow> Inr (SetUint16 xv (- GetUint16 xv))
     | Uint32Type \<Rightarrow> Inr (SetUint32 xv (- GetUint32 xv))
     | Uint64Type \<Rightarrow> Inr (SetUint64 xv (- GetUint64 xv))
     | Float32Type \<Rightarrow> Inr (SetFloat32 xv (fneg32 (GetFloat32 xv)))
     | Float64Type \<Rightarrow> Inr (SetFloat64 xv (fneg64 (GetFloat64 xv)))
     | UntypedBigintType \<Rightarrow> bindR (GetBigInt xv) (\<lambda>i. Inr (xv\<lparr>V := Some (BigintValue (- i))\<rparr>))
     | BigintType \<Rightarrow> bindR (GetBigInt xv) (\<lambda>i. Inr (xv\<lparr>V := Some (BigintValue (- i))\<rparr>))
     | UntypedBigdecType \<Rightarrow> bindR (GetBigDec xv) (\<lambda>d. Inr (xv\<lparr>V := Some (BigdecValue (dNeg D d))\<rparr>))
     | BigdecType \<Rightarrow> bindR (GetBigDec xv) (\<lambda>d. Inr (xv\<lparr>V := Some (BigdecValue (dNeg D d))\<rparr>))
     | _ \<Rightarrow> Inl (Panic ''unexpected type in operation''))
   | None \<Rightarrow> bindR (GetBigInt xv) (\<lambda>i. Inr (xv\<lparr>V := Some (BigintValue (- i))\<rparr>))
   | _ \<Rightarrow> Inl (Panic ''unexpected type in operation''))"

definition unotValue :: "'d TypedValue \<Rightarrow> 'd TypedValue result" where
  "unotValue xv = (case baseOf (T xv) of
     Some (Primitive BoolType) \<Rightarrow> Inr (SetBool xv (\<not> GetBool xv))
   | Some (Primitive UntypedBoolType) \<Rightarrow> Inr (SetBool xv (\<not> GetBool xv))
   | _ \<Rightarrow> Inl (Panic ''unexpected type in operation''))"

definition uxorValue :: "'d TypedValue \<Rightarrow> 'd TypedValue result" where
  "uxorValue xv = (case baseOf (T xv) of
     Some (Primitive bt) \<Rightarrow> (case bt of
       IntType \<Rightarrow> Inr (SetInt xv (NOT (GetInt xv)))
     | Int8Type \<Rightarrow> Inr (SetInt8 xv (NOT (GetInt8 xv)))
     | Int16Type \<Rightarrow> Inr (SetInt16 xv (NOT (GetInt16 xv)))
     | Int32Type \<Rightarrow> Inr (SetInt32 xv (NOT (GetInt32 xv)))
     | Int64Type \<Rightarrow> Inr (SetInt64 xv (NOT (GetInt64 xv)))
     | UintType \<Rightarrow> Inr (SetUint xv (NOT (GetUint xv)))
     | Uint8Type \<Rightarrow> Inr (SetUint8 xv (NOT (GetUint8 xv)))
     | Uint16Type \<Rightarrow> Inr (SetUint16 xv (NOT (GetUint16 xv)))
     | Uint32Type \<Rightarrow> Inr (SetUint32 xv (NOT (GetUint32 xv)))
     | Uint64Type \<Rightarrow> Inr (SetUint64 xv (NOT (GetUint64 xv)))
     | UntypedBigintType \<Rightarrow> Inl (Panic ''not yet implemented'')
     | BigintType \<Rightarrow> Inl (Panic ''not yet implemented'')
     | _ \<Rightarrow> Inl (Panic ''unexpected type in operation''))
   | _ \<Rightarrow> Inl (Panic ''unexpected type in operation''))"

subsection \<open>Increment and decrement\<close>

definition incValue :: "'d heap \<Rightarrow> 'd TypedValue \<Rightarrow> ('d heap \<times> 'd TypedValue) result" where
  "incValue h lv = (case baseOf (T lv) of
     Some (Primitive bt) \<Rightarrow> (case bt of
       IntType \<Rightarrow> Inr (h, SetInt lv (GetInt lv + 1))
     | Int8Type \<Rightarrow> Inr (h, SetInt8 lv (GetInt8 lv + 1))
     | Int16Type \<Rightarrow> Inr (h, SetInt16 lv (GetInt16 lv + 1))
     | Int32Type \<Rightarrow> Inr (h, SetInt32 lv (GetInt32 lv + 1))
     | Int64Type \<Rightarrow> Inr (h, SetInt64 lv (GetInt64 lv + 1))
     | UintType \<Rightarrow> Inr (h, SetUint lv (GetUint lv + 1))
     | Uint8Type \<Rightarrow> Inr (h, SetUint8 lv (GetUint8 lv + 1))
     | DataByteType \<Rightarrow> bindR (GetDataByte h lv) (\<lambda>b.
         bindR (SetDataByte h lv (b + 1)) (\<lambda>h. Inr (h, lv)))
     | Uint16Type \<Rightarrow> Inr (h, SetUint16 lv (GetUint16 lv + 1))
     | Uint32Type \<Rightarrow> Inr (h, SetUint32 lv (GetUint32 lv + 1))
     | Uint64Type \<Rightarrow> Inr (h, SetUint64 lv (GetUint64 lv + 1))
     | _ \<Rightarrow> Inl (Panic ''unexpected type in in operation''))
   | _ \<Rightarrow> Inl (Panic ''unexpected type in in operation''))"

definition decValue :: "'d heap \<Rightarrow> 'd TypedValue \<Rightarrow> ('d heap \<times> 'd TypedValue) result" where
  "decValue h lv = (case baseOf (T lv) of
     Some (Primitive bt) \<Rightarrow> (case bt of
       IntType \<Rightarrow> Inr (h, SetInt lv (GetInt lv - 1))
     | Int8Type \<Rightarrow> Inr (h, SetInt8 lv (GetInt8 lv - 1))
     | Int16Type \<Rightarrow> Inr (h, SetInt16 lv (GetInt16 lv - 1))
     | Int32Type \<Rightarrow> Inr (h, SetInt32 lv (GetInt32 lv - 1))
     | Int64Type \<Rightarrow> Inr (h, SetInt64 lv (GetInt64 lv - 1))
     | UintType \<Rightarrow> Inr (h, SetUint lv (GetUint lv - 1))
     | Uint8Type \<Rightarrow> Inr (h, SetUint8 lv (GetUint8 lv - 1))
     | DataByteType \<Rightarrow> bindR (GetDataByte h lv) (\<lambda>b.
         bindR (SetDataByte h lv (b - 1)) (\<lambda>h. Inr (h, lv)))
     | Uint16Type \<Rightarrow> Inr (h, SetUint16 lv (GetUint16 lv - 1))
     | Uint32Type \<Rightarrow> Inr (h, SetUint32 lv (GetUint32 lv - 1))
     | Uint64Type \<Rightarrow> Inr (h, SetUint64 lv (GetUint64 lv - 1))
     | _ \<Rightarrow> Inl (Panic ''unexpected type in in operation''))
   | _ \<Rightarrow> Inl (Panic ''unexpected type in in operation''))"

subsection \<open>The machine's operator handlers\<close>

text \<open>
  The part of a \<open>Machine\<close> the operators touch: the expression and value stacks (top first), the
  allocator and the heap. Go reads the popped slot while the new top is overwritten; the two slots
  are distinct.
\<close>

record ('d, 'e) Machine =
  Exprs :: "'e list"
  Values :: "'d TypedValue list"
  Alloc :: "Allocator option"
  Heap :: "'d heap"

definition PopExpr :: "('d, 'e) Machine \<Rightarrow> ('e \<times> ('d, 'e) Machine) result" where
  "PopExpr m = (case Exprs m of [] \<Rightarrow> Inl IndexOutOfRange | x # xs \<Rightarrow> Inr (x, m\<lparr>Exprs := xs\<rparr>))"

definition PopValue :: "('d, 'e) Machine \<Rightarrow> ('d TypedValue \<times> ('d, 'e) Machine) result" where
  "PopValue m = (case Values m of [] \<Rightarrow> Inl IndexOutOfRange | v # vs \<Rightarrow> Inr (v, m\<lparr>Values := vs\<rparr>))"

definition PushValue :: "('d, 'e) Machine \<Rightarrow> 'd TypedValue \<Rightarrow> ('d, 'e) Machine" where
  "PushValue m tv = m\<lparr>Values := tv # Values m\<rparr>"

definition PeekValue :: "('d, 'e) Machine \<Rightarrow> 'd TypedValue result" where
  "PeekValue m = (case Values m of [] \<Rightarrow> Inl IndexOutOfRange | v # vs \<Rightarrow> Inr v)"

text \<open>\<open>*lv = tv\<close> for the value on top of the stack.\<close>

definition setTop :: "('d, 'e) Machine \<Rightarrow> 'd TypedValue \<Rightarrow> ('d, 'e) Machine" where
  "setTop m tv = m\<lparr>Values := tv # tl (Values m)\<rparr>"

definition doOpLor :: "('d, 'e) Machine \<Rightarrow> ('d, 'e) Machine result" where
  "doOpLor m = bindR (PopValue m) (\<lambda>(rv, m). bindR (PeekValue m) (\<lambda>lv.
     let lv = (if isUntyped (T lv) then lv\<lparr>T := T rv\<rparr> else lv)
     in Inr (setTop m (SetBool lv (GetBool lv \<or> GetBool rv)))))"

definition doOpLand :: "('d, 'e) Machine \<Rightarrow> ('d, 'e) Machine result" where
  "doOpLand m = bindR (PopValue m) (\<lambda>(rv, m). bindR (PeekValue m) (\<lambda>lv.
     let lv = (if isUntyped (T lv) then lv\<lparr>T := T rv\<rparr> else lv)
     in Inr (setTop m (SetBool lv (GetBool lv \<and> GetBool rv)))))"

text \<open>What every comparison does with its answer: an untyped bool replaces the left operand.\<close>

definition boolResult :: "'d TypedValue \<Rightarrow> bool \<Rightarrow> 'd TypedValue" where
  "boolResult lv res = SetBool (lv\<lparr>T := Some (Primitive UntypedBoolType), V := None\<rparr>) res"

definition doOpEql :: "(addr \<Rightarrow> addr \<Rightarrow> bool result) \<Rightarrow> 'd apd \<Rightarrow> nat \<Rightarrow>
    ('d, 'e) Machine \<Rightarrow> ('d, 'e) Machine result" where
  "doOpEql goEq D fuel m = bindR (PopExpr m) (\<lambda>(x, m). bindR (PopValue m) (\<lambda>(rv, m).
     bindR (PeekValue m) (\<lambda>lv. bindR (isEql goEq D (Heap m) fuel lv rv) (\<lambda>res.
     Inr (setTop m (boolResult lv res))))))"

definition doOpNeq :: "(addr \<Rightarrow> addr \<Rightarrow> bool result) \<Rightarrow> 'd apd \<Rightarrow> nat \<Rightarrow>
    ('d, 'e) Machine \<Rightarrow> ('d, 'e) Machine result" where
  "doOpNeq goEq D fuel m = bindR (PopExpr m) (\<lambda>(x, m). bindR (PopValue m) (\<lambda>(rv, m).
     bindR (PeekValue m) (\<lambda>lv. bindR (isEql goEq D (Heap m) fuel lv rv) (\<lambda>res.
     Inr (setTop m (boolResult lv (\<not> res)))))))"

definition doOpLss :: "'d apd \<Rightarrow> ('d, 'e) Machine \<Rightarrow> ('d, 'e) Machine result" where
  "doOpLss D m = bindR (PopExpr m) (\<lambda>(x, m). bindR (PopValue m) (\<lambda>(rv, m).
     bindR (PeekValue m) (\<lambda>lv. bindR (isLss D lv rv) (\<lambda>res.
     Inr (setTop m (boolResult lv res))))))"

definition doOpLeq :: "'d apd \<Rightarrow> ('d, 'e) Machine \<Rightarrow> ('d, 'e) Machine result" where
  "doOpLeq D m = bindR (PopExpr m) (\<lambda>(x, m). bindR (PopValue m) (\<lambda>(rv, m).
     bindR (PeekValue m) (\<lambda>lv. bindR (isLeq D lv rv) (\<lambda>res.
     Inr (setTop m (boolResult lv res))))))"

definition doOpGtr :: "'d apd \<Rightarrow> ('d, 'e) Machine \<Rightarrow> ('d, 'e) Machine result" where
  "doOpGtr D m = bindR (PopExpr m) (\<lambda>(x, m). bindR (PopValue m) (\<lambda>(rv, m).
     bindR (PeekValue m) (\<lambda>lv. bindR (isGtr D lv rv) (\<lambda>res.
     Inr (setTop m (boolResult lv res))))))"

definition doOpGeq :: "'d apd \<Rightarrow> ('d, 'e) Machine \<Rightarrow> ('d, 'e) Machine result" where
  "doOpGeq D m = bindR (PopExpr m) (\<lambda>(x, m). bindR (PopValue m) (\<lambda>(rv, m).
     bindR (PeekValue m) (\<lambda>lv. bindR (isGeq D lv rv) (\<lambda>res.
     Inr (setTop m (boolResult lv res))))))"

definition doOpAdd :: "fpu \<Rightarrow> 'd apd \<Rightarrow> ('d, 'e) Machine \<Rightarrow> ('d, 'e) Machine result" where
  "doOpAdd U D m = bindR (PopExpr m) (\<lambda>(x, m). bindR (PopValue m) (\<lambda>(rv, m).
     bindR (PeekValue m) (\<lambda>lv. bindR (addAssign U D (Alloc m) (Heap m) lv rv) (\<lambda>(al, h, lv).
     Inr (setTop (m\<lparr>Alloc := al, Heap := h\<rparr>) lv)))))"

definition doOpSub :: "fpu \<Rightarrow> 'd apd \<Rightarrow> ('d, 'e) Machine \<Rightarrow> ('d, 'e) Machine result" where
  "doOpSub U D m = bindR (PopExpr m) (\<lambda>(x, m). bindR (PopValue m) (\<lambda>(rv, m).
     bindR (PeekValue m) (\<lambda>lv. bindR (subAssign U D (Heap m) lv rv) (\<lambda>(h, lv).
     Inr (setTop (m\<lparr>Heap := h\<rparr>) lv)))))"

definition doOpMul :: "fpu \<Rightarrow> 'd apd \<Rightarrow> ('d, 'e) Machine \<Rightarrow> ('d, 'e) Machine result" where
  "doOpMul U D m = bindR (PopExpr m) (\<lambda>(x, m). bindR (PopValue m) (\<lambda>(rv, m).
     bindR (PeekValue m) (\<lambda>lv. bindR (mulAssign U D (Heap m) lv rv) (\<lambda>(h, lv).
     Inr (setTop (m\<lparr>Heap := h\<rparr>) lv)))))"

definition doOpQuo :: "fpu \<Rightarrow> 'd apd \<Rightarrow> ('d, 'e) Machine \<Rightarrow> ('d, 'e) Machine result" where
  "doOpQuo U D m = bindR (PopExpr m) (\<lambda>(x, m). bindR (PopValue m) (\<lambda>(rv, m).
     bindR (PeekValue m) (\<lambda>lv. bindR (quoAssign U D (Heap m) lv rv) (\<lambda>(h, lv).
     Inr (setTop (m\<lparr>Heap := h\<rparr>) lv)))))"

definition doOpRem :: "('d, 'e) Machine \<Rightarrow> ('d, 'e) Machine result" where
  "doOpRem m = bindR (PopExpr m) (\<lambda>(x, m). bindR (PopValue m) (\<lambda>(rv, m).
     bindR (PeekValue m) (\<lambda>lv. bindR (remAssign (Heap m) lv rv) (\<lambda>(h, lv).
     Inr (setTop (m\<lparr>Heap := h\<rparr>) lv)))))"

definition doOpBand :: "('d, 'e) Machine \<Rightarrow> ('d, 'e) Machine result" where
  "doOpBand m = bindR (PopExpr m) (\<lambda>(x, m). bindR (PopValue m) (\<lambda>(rv, m).
     bindR (PeekValue m) (\<lambda>lv. bindR (bandAssign (Heap m) lv rv) (\<lambda>(h, lv).
     Inr (setTop (m\<lparr>Heap := h\<rparr>) lv)))))"

definition doOpBandn :: "('d, 'e) Machine \<Rightarrow> ('d, 'e) Machine result" where
  "doOpBandn m = bindR (PopExpr m) (\<lambda>(x, m). bindR (PopValue m) (\<lambda>(rv, m).
     bindR (PeekValue m) (\<lambda>lv. bindR (bandnAssign (Heap m) lv rv) (\<lambda>(h, lv).
     Inr (setTop (m\<lparr>Heap := h\<rparr>) lv)))))"

definition doOpBor :: "('d, 'e) Machine \<Rightarrow> ('d, 'e) Machine result" where
  "doOpBor m = bindR (PopExpr m) (\<lambda>(x, m). bindR (PopValue m) (\<lambda>(rv, m).
     bindR (PeekValue m) (\<lambda>lv. bindR (borAssign (Heap m) lv rv) (\<lambda>(h, lv).
     Inr (setTop (m\<lparr>Heap := h\<rparr>) lv)))))"

definition doOpXor :: "('d, 'e) Machine \<Rightarrow> ('d, 'e) Machine result" where
  "doOpXor m = bindR (PopExpr m) (\<lambda>(x, m). bindR (PopValue m) (\<lambda>(rv, m).
     bindR (PeekValue m) (\<lambda>lv. bindR (xorAssign (Heap m) lv rv) (\<lambda>(h, lv).
     Inr (setTop (m\<lparr>Heap := h\<rparr>) lv)))))"

definition doOpShl :: "('d, 'e) Machine \<Rightarrow> ('d, 'e) Machine result" where
  "doOpShl m = bindR (PopExpr m) (\<lambda>(x, m). bindR (PopValue m) (\<lambda>(rv, m).
     bindR (PeekValue m) (\<lambda>lv. bindR (shlAssign (Heap m) lv rv) (\<lambda>(h, lv).
     Inr (setTop (m\<lparr>Heap := h\<rparr>) lv)))))"

definition doOpShr :: "('d, 'e) Machine \<Rightarrow> ('d, 'e) Machine result" where
  "doOpShr m = bindR (PopExpr m) (\<lambda>(x, m). bindR (PopValue m) (\<lambda>(rv, m).
     bindR (PeekValue m) (\<lambda>lv. bindR (shrAssign (Heap m) lv rv) (\<lambda>(h, lv).
     Inr (setTop (m\<lparr>Heap := h\<rparr>) lv)))))"

definition doOpUpos :: "('d, 'e) Machine \<Rightarrow> ('d, 'e) Machine result" where
  "doOpUpos m = bindR (PopExpr m) (\<lambda>(x, m). Inr m)"

definition doOpUneg :: "'d apd \<Rightarrow> ('d, 'e) Machine \<Rightarrow> ('d, 'e) Machine result" where
  "doOpUneg D m = bindR (PopExpr m) (\<lambda>(x, m). bindR (PeekValue m) (\<lambda>xv.
     bindR (unegValue D xv) (\<lambda>xv. Inr (setTop m xv))))"

definition doOpUnot :: "('d, 'e) Machine \<Rightarrow> ('d, 'e) Machine result" where
  "doOpUnot m = bindR (PopExpr m) (\<lambda>(x, m). bindR (PeekValue m) (\<lambda>xv.
     bindR (unotValue xv) (\<lambda>xv. Inr (setTop m xv))))"

definition doOpUxor :: "('d, 'e) Machine \<Rightarrow> ('d, 'e) Machine result" where
  "doOpUxor m = bindR (PopExpr m) (\<lambda>(x, m). bindR (PeekValue m) (\<lambda>xv.
     bindR (uxorValue xv) (\<lambda>xv. Inr (setTop m xv))))"

end
