(* ===== verification/Op_Correct.thy ===== *)
theory Op_Correct
  imports Op_Binary
begin

text \<open>
  The operators against integer arithmetic. A value of an integer type denotes an integer, read
  from as many of its low bytes as the type is wide, signed or unsigned (\<open>ival\<close>); the operators
  compute on these integers and reduce the result into the range of the type (\<open>wrapTo\<close>).
\<close>

subsection \<open>Words as integers\<close>

lemma swrap_signed_take_bit: "0 < w \<Longrightarrow> swrap w x = signed_take_bit (w - 1) x"
  by (simp add: swrap_def signed_take_bit_eq_take_bit_shift take_bit_eq_mod)

lemma sint_swrap: "sint (word_of_int x :: 'a::len word) = swrap LENGTH('a) x"
  by (simp add: swrap_def int_word_sint)

lemma uint_wrap: "uint (word_of_int x :: 'a::len word) = x mod 2 ^ LENGTH('a)"
  by (simp add: uint_word_of_int_eq take_bit_eq_mod)

lemma ucast_set_low: 
  assumes "LENGTH('a) \<le> 64"
  shows "ucast (set_low (n :: 'a::len word) w) = n"
proof (rule bit_word_eqI)
  fix i assume "i < LENGTH('a)"
  then show "bit (ucast (set_low n w) :: 'a word) i = bit n i"
    using assms by (simp add: set_low_def bit_simps)
qed

lemma sint_ops:
  fixes a b :: "'a::len word"
  shows "sint (a + b) = swrap LENGTH('a) (sint a + sint b)"
    and "sint (a - b) = swrap LENGTH('a) (sint a - sint b)"
    and "sint (a * b) = swrap LENGTH('a) (sint a * sint b)"
    and "sint (- a) = swrap LENGTH('a) (- sint a)"
    and "sint (NOT a) = swrap LENGTH('a) (- sint a - 1)"
  by (simp_all flip: sint_swrap add: not_eq_complement)

lemma uint_ops:
  fixes a b :: "'a::len word"
  shows "uint (a + b) = (uint a + uint b) mod 2 ^ LENGTH('a)"
    and "uint (a - b) = (uint a - uint b) mod 2 ^ LENGTH('a)"
    and "uint (a * b) = (uint a * uint b) mod 2 ^ LENGTH('a)"
    and "uint (- a) = (- uint a) mod 2 ^ LENGTH('a)"
    and "uint (NOT a) = (- uint a - 1) mod 2 ^ LENGTH('a)"
  by (simp_all flip: uint_wrap add: not_eq_complement)

lemma sint_bits:
  fixes a b :: "'a::len word"
  shows "sint (a AND b) = sint a AND sint b"
    and "sint (a OR b) = sint a OR sint b"
    and "sint (a XOR b) = sint a XOR sint b"
    and "sint (a AND NOT b) = sint a AND NOT (sint b)"
     apply (simp_all add: signed_and_eq signed_or_eq signed_xor_eq)
  apply (rule bit_eqI) apply (auto simp: bit_simps min_def not_less)
  done

lemma uint_bits:
  fixes a b :: "'a::len word"
  shows "uint (a AND b) = uint a AND uint b"
    and "uint (a OR b) = uint a OR uint b"
    and "uint (a XOR b) = uint a XOR uint b"
    and "uint (a AND NOT b) = uint a AND NOT (uint b)"
     apply (simp_all add: unsigned_and_eq unsigned_or_eq unsigned_xor_eq)
  apply (rule bit_eqI) apply (auto simp: bit_simps dest: bit_imp_le_length)
  done

lemma take_bit_uint: "take_bit LENGTH('a) (uint (a :: 'a::len word)) = uint a"
  by transfer simp

lemma shl_wrap:
  fixes a :: "'a::len word"
  shows "sint (go_shl a n) = swrap LENGTH('a) (sint a * 2 ^ unat n)"
    and "uint (go_shl a n) = (uint a * 2 ^ unat n) mod 2 ^ LENGTH('a)"
  by (simp_all flip: sint_swrap uint_wrap add: go_shl_def push_bit_eq_mult)

lemma shr_div:
  fixes a :: "'a::len word"
  shows "sint (go_sshr a n) = sint a div 2 ^ unat n"
    and "uint (go_ushr a n) = uint a div 2 ^ unat n"
  by (simp_all add: go_sshr_def go_ushr_def sint_signed_drop_bit_eq unsigned_drop_bit_eq take_bit_uint flip: drop_bit_eq_div)

subsection \<open>Reading integers\<close>

text \<open>Width and signedness of the integer types.\<close>

fun intInfo :: "PrimitiveType \<Rightarrow> (nat \<times> bool) option" where
  "intInfo IntType = Some (64, True)"
| "intInfo Int8Type = Some (8, True)"
| "intInfo Int16Type = Some (16, True)"
| "intInfo Int32Type = Some (32, True)"
| "intInfo UntypedRuneType = Some (32, True)"
| "intInfo Int64Type = Some (64, True)"
| "intInfo UintType = Some (64, False)"
| "intInfo Uint8Type = Some (8, False)"
| "intInfo Uint16Type = Some (16, False)"
| "intInfo Uint32Type = Some (32, False)"
| "intInfo Uint64Type = Some (64, False)"
| "intInfo _ = None"

definition intType :: "Type option \<Rightarrow> (nat \<times> bool) option" where
  "intType t = (case baseOf t of Some (Primitive p) \<Rightarrow> intInfo p | _ \<Rightarrow> None)"

text \<open>The integer a value of an integer type denotes, and reduction into the range of a type.\<close>

definition readInt :: "nat \<times> bool \<Rightarrow> 64 word \<Rightarrow> int" where
  "readInt ws n = (if snd ws then signed_take_bit (fst ws - 1) (uint n) else take_bit (fst ws) (uint n))"

definition ival :: "'d TypedValue \<Rightarrow> int" where
  "ival tv = (case intType (T tv) of Some ws \<Rightarrow> readInt ws (N tv) | None \<Rightarrow> 0)"

definition wrapTo :: "nat \<times> bool \<Rightarrow> int \<Rightarrow> int" where
  "wrapTo ws x = (if snd ws then swrap (fst ws) x else x mod 2 ^ fst ws)"

lemma readInt_cast:
  assumes "LENGTH('a::len) \<le> 64"
  shows "readInt (LENGTH('a), True) n = sint (ucast n :: 'a word)"
    and "readInt (LENGTH('a), False) n = uint (ucast n :: 'a word)"
  using assms by (auto intro!: bit_eqI simp: readInt_def bit_simps min_def)

lemma readInt_set_low:
  assumes "LENGTH('a) \<le> 64"
  shows "readInt (LENGTH('a), True) (set_low (n :: 'a::len word) m) = sint n"
    and "readInt (LENGTH('a), False) (set_low n m) = uint n"
  using readInt_cast[where 'a = 'a, OF assms] by (simp_all add: ucast_set_low[OF assms])

lemmas get_defs = GetInt_def GetInt8_def GetInt16_def GetInt32_def GetInt64_def GetUint_def GetUint8_def GetUint16_def GetUint32_def GetUint64_def
lemmas set_defs = SetInt_def SetInt8_def SetInt16_def SetInt32_def SetInt64_def SetUint_def SetUint8_def SetUint16_def SetUint32_def SetUint64_def

lemma setters_keep [simp]:
  "T (SetInt tv a) = T tv" "T (SetInt8 tv b) = T tv" "T (SetInt16 tv c) = T tv"
  "T (SetInt32 tv d) = T tv" "T (SetInt64 tv a) = T tv" "T (SetUint tv a) = T tv"
  "T (SetUint8 tv b) = T tv" "T (SetUint16 tv c) = T tv" "T (SetUint32 tv d) = T tv"
  "T (SetUint64 tv a) = T tv"
  by (simp_all add: set_defs)

lemma ival_get:
  "baseOf (T tv) = Some (Primitive IntType) \<Longrightarrow> ival tv = sint (GetInt tv)"
  "baseOf (T tv) = Some (Primitive Int8Type) \<Longrightarrow> ival tv = sint (GetInt8 tv)"
  "baseOf (T tv) = Some (Primitive Int16Type) \<Longrightarrow> ival tv = sint (GetInt16 tv)"
  "baseOf (T tv) = Some (Primitive Int32Type) \<Longrightarrow> ival tv = sint (GetInt32 tv)"
  "baseOf (T tv) = Some (Primitive UntypedRuneType) \<Longrightarrow> ival tv = sint (GetInt32 tv)"
  "baseOf (T tv) = Some (Primitive Int64Type) \<Longrightarrow> ival tv = sint (GetInt64 tv)"
  "baseOf (T tv) = Some (Primitive UintType) \<Longrightarrow> ival tv = uint (GetUint tv)"
  "baseOf (T tv) = Some (Primitive Uint8Type) \<Longrightarrow> ival tv = uint (GetUint8 tv)"
  "baseOf (T tv) = Some (Primitive Uint16Type) \<Longrightarrow> ival tv = uint (GetUint16 tv)"
  "baseOf (T tv) = Some (Primitive Uint32Type) \<Longrightarrow> ival tv = uint (GetUint32 tv)"
  "baseOf (T tv) = Some (Primitive Uint64Type) \<Longrightarrow> ival tv = uint (GetUint64 tv)"
  using readInt_cast[where 'a = 64] readInt_cast[where 'a = 32] readInt_cast[where 'a = 16]
    readInt_cast[where 'a = 8]
  by (simp_all add: ival_def intType_def get_defs)

lemma ival_set:
  "baseOf (T tv) = Some (Primitive IntType) \<Longrightarrow> ival (SetInt tv n64) = sint n64"
  "baseOf (T tv) = Some (Primitive Int8Type) \<Longrightarrow> ival (SetInt8 tv n8) = sint n8"
  "baseOf (T tv) = Some (Primitive Int16Type) \<Longrightarrow> ival (SetInt16 tv n16) = sint n16"
  "baseOf (T tv) = Some (Primitive Int32Type) \<Longrightarrow> ival (SetInt32 tv n32) = sint n32"
  "baseOf (T tv) = Some (Primitive UntypedRuneType) \<Longrightarrow> ival (SetInt32 tv n32) = sint n32"
  "baseOf (T tv) = Some (Primitive Int64Type) \<Longrightarrow> ival (SetInt64 tv n64) = sint n64"
  "baseOf (T tv) = Some (Primitive UintType) \<Longrightarrow> ival (SetUint tv n64) = uint n64"
  "baseOf (T tv) = Some (Primitive Uint8Type) \<Longrightarrow> ival (SetUint8 tv n8) = uint n8"
  "baseOf (T tv) = Some (Primitive Uint16Type) \<Longrightarrow> ival (SetUint16 tv n16) = uint n16"
  "baseOf (T tv) = Some (Primitive Uint32Type) \<Longrightarrow> ival (SetUint32 tv n32) = uint n32"
  "baseOf (T tv) = Some (Primitive Uint64Type) \<Longrightarrow> ival (SetUint64 tv n64) = uint n64"
  using readInt_set_low[where 'a = 64] readInt_set_low[where 'a = 32] readInt_set_low[where 'a = 16]
    readInt_set_low[where 'a = 8]
  by (simp_all add: ival_def intType_def set_defs)

subsection \<open>Operators\<close>

lemma intTypeE:
  assumes "intType t = Some ws"
  obtains p where "baseOf t = Some (Primitive p)" "intInfo p = Some ws"
  using assms by (auto simp: intType_def split: option.splits Type.splits)

text \<open>
  The operator returned a value of the type of \<open>lv\<close> that denotes \<open>x\<close>, and left the heap alone.
\<close>

definition denotes :: "'d heap \<Rightarrow> 'd TypedValue \<Rightarrow> int \<Rightarrow> ('d heap \<times> 'd TypedValue) result \<Rightarrow> bool" where
  "denotes h lv x r \<longleftrightarrow> (\<exists>lv'. r = Inr (h, lv') \<and> T lv' = T lv \<and> V lv' = V lv \<and> ival lv' = x)"

lemma get_set [simp]:
  "GetInt (SetInt tv n64) = n64"
  "GetInt8 (SetInt8 tv n8) = n8"
  "GetInt16 (SetInt16 tv n16) = n16"
  "GetInt32 (SetInt32 tv n32) = n32"
  "GetInt64 (SetInt64 tv n64) = n64"
  "GetUint (SetUint tv n64) = n64"
  "GetUint8 (SetUint8 tv n8) = n8"
  "GetUint16 (SetUint16 tv n16) = n16"
  "GetUint32 (SetUint32 tv n32) = n32"
  "GetUint64 (SetUint64 tv n64) = n64"
  using ucast_set_low[where 'a = 64] by (simp_all add: get_defs set_defs ucast_set_low)

lemma setters_V [simp]:
  "V (SetInt tv a) = V tv" "V (SetInt8 tv b) = V tv" "V (SetInt16 tv c) = V tv"
  "V (SetInt32 tv d) = V tv" "V (SetInt64 tv a) = V tv" "V (SetUint tv a) = V tv"
  "V (SetUint8 tv b) = V tv" "V (SetUint16 tv c) = V tv" "V (SetUint32 tv d) = V tv"
  "V (SetUint64 tv a) = V tv"
  by (simp_all add: set_defs)

lemmas op_simps = ival_get sint_ops uint_ops sint_bits uint_bits shl_wrap shr_div wrapTo_def
  denotes_def

lemma add_wraps:
  assumes "intType (T lv) = Some ws" "baseOf (T rv) = baseOf (T lv)"
  shows "\<exists>r. addAssign U D al h lv rv = map_sum id (Pair al) r \<and> denotes h lv (wrapTo ws (ival lv + ival rv)) r"
proof -
  obtain p where "baseOf (T lv) = Some (Primitive p)" "intInfo p = Some ws"
    using intTypeE[OF assms(1)] .
  then show ?thesis using assms(2)
    by (cases p) (auto simp: addAssign_def op_simps intro!: exI[of _ "Inr (h, _)"])
qed

lemma sub_wraps:
  assumes "intType (T lv) = Some ws" "baseOf (T rv) = baseOf (T lv)"
  shows "denotes h lv (wrapTo ws (ival lv - ival rv)) (subAssign U D h lv rv)"
proof -
  obtain p where "baseOf (T lv) = Some (Primitive p)" "intInfo p = Some ws"
    using intTypeE[OF assms(1)] .
  then show ?thesis using assms(2) by (cases p) (auto simp: subAssign_def op_simps)
qed

lemma mul_wraps:
  assumes "intType (T lv) = Some ws" "baseOf (T rv) = baseOf (T lv)"
  shows "denotes h lv (wrapTo ws (ival lv * ival rv)) (mulAssign U D h lv rv)"
proof -
  obtain p where "baseOf (T lv) = Some (Primitive p)" "intInfo p = Some ws"
    using intTypeE[OF assms(1)] .
  then show ?thesis using assms(2) by (cases p) (auto simp: mulAssign_def op_simps)
qed

lemma band_bits:
  assumes "intType (T lv) = Some ws" "baseOf (T rv) = baseOf (T lv)"
  shows "denotes h lv (ival lv AND ival rv) (bandAssign h lv rv)"
proof -
  obtain p where "baseOf (T lv) = Some (Primitive p)" "intInfo p = Some ws"
    using intTypeE[OF assms(1)] .
  then show ?thesis using assms(2) by (cases p) (auto simp: bandAssign_def op_simps)
qed

lemma bandn_bits:
  assumes "intType (T lv) = Some ws" "baseOf (T rv) = baseOf (T lv)"
  shows "denotes h lv (ival lv AND NOT (ival rv)) (bandnAssign h lv rv)"
proof -
  obtain p where "baseOf (T lv) = Some (Primitive p)" "intInfo p = Some ws"
    using intTypeE[OF assms(1)] .
  then show ?thesis using assms(2) by (cases p) (auto simp: bandnAssign_def ival_get denotes_def sint_bits(4) uint_bits(4))
qed

lemma bor_bits:
  assumes "intType (T lv) = Some ws" "baseOf (T rv) = baseOf (T lv)"
  shows "denotes h lv (ival lv OR ival rv) (borAssign h lv rv)"
proof -
  obtain p where "baseOf (T lv) = Some (Primitive p)" "intInfo p = Some ws"
    using intTypeE[OF assms(1)] .
  then show ?thesis using assms(2) by (cases p) (auto simp: borAssign_def op_simps)
qed

lemma xor_bits:
  assumes "intType (T lv) = Some ws" "baseOf (T rv) = baseOf (T lv)"
  shows "denotes h lv (ival lv XOR ival rv) (xorAssign h lv rv)"
proof -
  obtain p where "baseOf (T lv) = Some (Primitive p)" "intInfo p = Some ws"
    using intTypeE[OF assms(1)] .
  then show ?thesis using assms(2) by (cases p) (auto simp: xorAssign_def op_simps)
qed

lemma shl_wraps:
  assumes "intType (T lv) = Some ws"
  shows "denotes h lv (wrapTo ws (ival lv * 2 ^ unat (GetUint rv))) (shlAssign h lv rv)"
proof -
  obtain p where "baseOf (T lv) = Some (Primitive p)" "intInfo p = Some ws"
    using intTypeE[OF assms(1)] .
  then show ?thesis by (cases p) (auto simp: shlAssign_def op_simps)
qed

lemma shr_floor:
  assumes "intType (T lv) = Some ws"
  shows "denotes h lv (ival lv div 2 ^ unat (GetUint rv)) (shrAssign h lv rv)"
proof -
  obtain p where "baseOf (T lv) = Some (Primitive p)" "intInfo p = Some ws"
    using intTypeE[OF assms(1)] .
  then show ?thesis by (cases p) (auto simp: shrAssign_def op_simps)
qed

lemma sdiv_nonneg: "0 \<le> a \<Longrightarrow> 0 \<le> b \<Longrightarrow> a sdiv b = a div (b::int)"
  by (auto simp: signed_divide_int_def sgn_if)

lemma smod_nonneg: "0 \<le> a \<Longrightarrow> 0 \<le> b \<Longrightarrow> a smod b = a mod (b::int)"
  by (cases "a = 0") (simp_all add: signed_modulo_int_def sgn_if)

lemma sint_uint_inject: "sint a = sint b \<longleftrightarrow> a = (b :: 'a::len word)" "uint a = uint b \<longleftrightarrow> a = b"
  by (auto intro: signed_word_eqI unsigned_word_eqI)

lemma zero_ival: "sint a = 0 \<longleftrightarrow> a = (0 :: 'a::len word)" "uint a = 0 \<longleftrightarrow> a = 0"
  using sint_uint_inject[of a 0] by simp_all

lemma quo_wraps:
  assumes "intType (T lv) = Some ws" "baseOf (T rv) = baseOf (T lv)"
  shows "if ival rv = 0 then quoAssign U D h lv rv = Inl DivideByZero
    else denotes h lv (wrapTo ws (ival lv sdiv ival rv)) (quoAssign U D h lv rv)"
proof -
  obtain p where "baseOf (T lv) = Some (Primitive p)" "intInfo p = Some ws"
    using intTypeE[OF assms(1)] .
  then show ?thesis using assms(2)
    by (cases p) (auto simp: quoAssign_def op_simps go_squo_def go_uquo_def zero_ival sint_swrap sdiv_nonneg
      smod_nonneg word_div_def word_mod_def uint_wrap)
qed

lemma rem_wraps:
  assumes "intType (T lv) = Some ws" "baseOf (T rv) = baseOf (T lv)"
  shows "if ival rv = 0 then remAssign h lv rv = Inl DivideByZero
    else denotes h lv (wrapTo ws (ival lv smod ival rv)) (remAssign h lv rv)"
proof -
  obtain p where "baseOf (T lv) = Some (Primitive p)" "intInfo p = Some ws"
    using intTypeE[OF assms(1)] .
  then show ?thesis using assms(2)
    by (cases p) (auto simp: remAssign_def op_simps go_srem_def go_urem_def zero_ival sint_swrap sdiv_nonneg
      smod_nonneg word_div_def word_mod_def uint_wrap)
qed

lemma uneg_wraps:
  assumes "intType (T xv) = Some ws" "baseOf (T xv) \<noteq> Some (Primitive UntypedRuneType)"
  shows "denotes h xv (wrapTo ws (- ival xv)) (map_sum id (Pair h) (unegValue D xv))"
proof -
  obtain p where "baseOf (T xv) = Some (Primitive p)" "intInfo p = Some ws"
    using intTypeE[OF assms(1)] .
  then show ?thesis using assms(2) by (cases p) (auto simp: unegValue_def op_simps)
qed

lemma uxor_wraps:
  assumes "intType (T xv) = Some ws" "baseOf (T xv) \<noteq> Some (Primitive UntypedRuneType)"
  shows "denotes h xv (wrapTo ws (- ival xv - 1)) (map_sum id (Pair h) (uxorValue xv))"
proof -
  obtain p where "baseOf (T xv) = Some (Primitive p)" "intInfo p = Some ws"
    using intTypeE[OF assms(1)] .
  then show ?thesis using assms(2) by (cases p) (auto simp: uxorValue_def op_simps)
qed

lemma inc_wraps:
  assumes "intType (T lv) = Some ws" "baseOf (T lv) \<noteq> Some (Primitive UntypedRuneType)"
  shows "denotes h lv (wrapTo ws (ival lv + 1)) (incValue h lv)"
proof -
  obtain p where "baseOf (T lv) = Some (Primitive p)" "intInfo p = Some ws"
    using intTypeE[OF assms(1)] .
  then show ?thesis using assms(2) by (cases p) (auto simp: incValue_def op_simps)
qed

lemma dec_wraps:
  assumes "intType (T lv) = Some ws" "baseOf (T lv) \<noteq> Some (Primitive UntypedRuneType)"
  shows "denotes h lv (wrapTo ws (ival lv - 1)) (decValue h lv)"
proof -
  obtain p where "baseOf (T lv) = Some (Primitive p)" "intInfo p = Some ws"
    using intTypeE[OF assms(1)] .
  then show ?thesis using assms(2) by (cases p) (auto simp: decValue_def op_simps)
qed

lemma kindT_base:
  assumes "baseOf (T tv) = Some (Primitive p)"
  shows "kindT tv = PrimitiveKind p"
  using assms by (cases "T tv" rule: baseOf.cases) (auto simp: kindT_def)

lemma compare_ints:
  assumes "intType (T lv) = Some ws" "baseOf (T rv) = baseOf (T lv)"
  shows "isLss D lv rv = Inr (ival lv < ival rv)"
    and "isLeq D lv rv = Inr (ival lv \<le> ival rv)"
    and "isGtr D lv rv = Inr (ival lv > ival rv)"
    and "isGeq D lv rv = Inr (ival lv \<ge> ival rv)"
proof -
  obtain p where p: "baseOf (T lv) = Some (Primitive p)" "intInfo p = Some ws"
    using intTypeE[OF assms(1)] .
  note k = kindT_base[OF p(1)]
  show "isLss D lv rv = Inr (ival lv < ival rv)" "isLeq D lv rv = Inr (ival lv \<le> ival rv)"
    "isGtr D lv rv = Inr (ival lv > ival rv)" "isGeq D lv rv = Inr (ival lv \<ge> ival rv)"
    using p assms(2) by (cases p; simp add: isLss_def isLeq_def isGtr_def isGeq_def k ival_get
      word_less_def word_le_def)+
qed

lemma base_primitive:
  assumes "baseOf (T tv) = Some (Primitive p)" "intInfo p = Some ws"
  obtains t k where "T tv = Some t" "TKind t = Inr k" "PrimitiveKind p = Inr k" "k \<noteq> InterfaceKind"
    "\<forall>rk s s'. t \<noteq> NativeType rk s s'"
  using assms by (cases "T tv" rule: baseOf.cases; cases p) auto

lemma eql_ints:
  assumes "intType (T lv) = Some ws" "baseOf (T rv) = baseOf (T lv)"
  shows "isEql goEq D h (Suc n) lv rv = Inr (ival lv = ival rv)"
proof -
  obtain p where p: "baseOf (T lv) = Some (Primitive p)" "intInfo p = Some ws"
    using intTypeE[OF assms(1)] .
  obtain t k where t: "T lv = Some t" "TKind t = Inr k" "PrimitiveKind p = Inr k" "k \<noteq> InterfaceKind"
      "\<forall>rk s s'. t \<noteq> NativeType rk s s'"
    using base_primitive[OF p] .
  obtain t' k' where t': "T rv = Some t'" "TKind t' = Inr k'" "k' \<noteq> InterfaceKind"
    using base_primitive[of rv p ws] p assms(2) by metis
  show ?thesis
    using t t' p assms(2)
    by (cases t; cases p) (auto simp: isEqlStep_def IsUndefined_def IsNilInterface_def ival_get sint_uint_inject)
qed

lemma wrapTo_ival: "intType (T tv) = Some ws \<Longrightarrow> wrapTo ws (ival tv) = ival tv"
proof -
  assume a: "intType (T tv) = Some ws"
  then have "0 < fst ws" by (elim intTypeE) (rename_tac p, case_tac p, auto)
  then show ?thesis using a
    by (auto simp: ival_def readInt_def wrapTo_def swrap_signed_take_bit take_bit_eq_mod[symmetric])
qed

subsection \<open>Properties\<close>

text \<open>Operands on which the theorems are run.\<close>

definition num :: "PrimitiveType \<Rightarrow> int \<Rightarrow> unit TypedValue" where
  "num t n = \<lparr>T = Some (Primitive t), V = None, N = word_of_int n\<rparr>"

definition sample_heap :: "unit heap" where
  "sample_heap = \<lparr>cells = Map.empty, arrays = Map.empty, structs = Map.empty, mapItems = Map.empty,
     maps = Map.empty, funcs = Map.empty, packages = Map.empty, nextAddr = 0\<rparr>"

definition sample_apd :: "unit apd" where
  "sample_apd = \<lparr>dAdd = (\<lambda>a b. None), dSub = (\<lambda>a b. None), dMul = (\<lambda>a b. None), dQuo = (\<lambda>a b. None),
     dNeg = id, dCmp = (\<lambda>a b. 0)\<rparr>"

definition sample_fpu :: fpu where
  "sample_fpu = \<lparr>nan32 = (\<lambda>a b. 0x7FC00000), nan64 = (\<lambda>a b. 0x7FF8000000000000),
     nan32to64 = (\<lambda>a. 0x7FF8000000000000), nan64to32 = (\<lambda>a. 0x7FC00000), outside = (\<lambda>w s a. 0)\<rparr>"

lemma num_simps [simp]:
  "T (num t n) = Some (Primitive t)" "V (num t n) = None" "N (num t n) = word_of_int n"
  by (simp_all add: num_def)

lemma intType_num [simp]: "intType (Some (Primitive t)) = intInfo t"
  by (simp add: intType_def)

lemma ival_num: "ival (num t n) = (case intInfo t of Some ws \<Rightarrow> readInt ws (word_of_int n) | None \<Rightarrow> 0)"
  by (simp add: ival_def split: option.split)

text \<open>
  The operator wrote \<open>x\<close> into byte \<open>i\<close> of the array at \<open>a\<close> and changed nothing else.
\<close>

definition byteStored :: "'d heap \<Rightarrow> 'd TypedValue \<Rightarrow> addr \<Rightarrow> int \<Rightarrow> 8 word \<Rightarrow> ('d heap \<times> 'd TypedValue) result \<Rightarrow> bool" where
  "byteStored h lv a i x r \<longleftrightarrow> (\<exists>h'. r = Inr (h', lv) \<and> GetDataByte h' lv = Inr x
     \<and> (\<forall>c j. (c, j) \<noteq> (a, i) \<longrightarrow> GetByte h' c j = GetByte h c j) \<and> h'\<lparr>arrays := arrays h\<rparr> = h)"

lemma byteStored_set:
  assumes "V lv = Some (DataByteValue a i et)" "GetByte h a i = Inr b"
  shows "byteStored h lv a i x (bindR (SetDataByte h lv x) (\<lambda>h. Inr (h, lv)))"
proof -
  obtain bs where bs: "arrays h a = Some (DataArray bs)" "0 \<le> i" "i < int (length bs)"
    using assms(2) by (auto simp: GetByte_def split: option.splits ArrayValue.splits if_splits)
  let ?h = "h\<lparr>arrays := (arrays h)(a \<mapsto> DataArray (bs[nat i := x]))\<rparr>"
  have "GetByte ?h c j = GetByte h c j" if "(c, j) \<noteq> (a, i)" for c j
    using bs that by (cases "c = a") (auto simp: GetByte_def nth_list_update nat_eq_iff)
  moreover have "GetDataByte ?h lv = Inr x" "SetDataByte h lv x = Inr ?h"
    using bs assms(1) by (simp_all add: GetDataByte_def SetDataByte_def GetByte_def SetByte_def)
  ultimately show ?thesis
    by (simp add: byteStored_def)
qed

definition byte_heap :: "unit heap" where
  "byte_heap = sample_heap\<lparr>arrays := [0 \<mapsto> DataArray [7, 255, 9]]\<rparr>"

definition byte_ref :: "unit TypedValue" where
  "byte_ref = \<lparr>T = Some (Primitive DataByteType), V = Some (DataByteValue 0 1 (Primitive Uint8Type)), N = 0\<rparr>"

lemma byte_wraps: "(255 :: 8 word) + 1 = 0"
  by simp

lemma map_bindR: "bindR r (\<lambda>h. Inr (al, h, lv)) = map_sum id (Pair al) (bindR r (\<lambda>h. Inr (h, lv)))"
  by (cases r) simp_all

text \<open>
  C9: \<open>+\<close>, \<open>-\<close> and \<open>*\<close> on two values of one integer type never panic and wrap around: the result has
  the type of the left operand and denotes the exact result reduced modulo \<open>2\<^sup>w\<close> into the range
  of the type, for every signed and unsigned width.
\<close>

theorem arithmetic_wraps:
  assumes "intType (T lv) = Some ws" "baseOf (T rv) = baseOf (T lv)"
  shows "(\<exists>r. addAssign U D al h lv rv = map_sum id (Pair al) r \<and>
            denotes h lv (wrapTo ws (ival lv + ival rv)) r)
    \<and> denotes h lv (wrapTo ws (ival lv - ival rv)) (subAssign U D h lv rv)
    \<and> denotes h lv (wrapTo ws (ival lv * ival rv)) (mulAssign U D h lv rv)"
  using add_wraps[OF assms] sub_wraps[OF assms] mul_wraps[OF assms] by blast

theorem arithmetic_wraps_witness:
  "ival (num Int8Type 127) = 127 \<and>
   (\<exists>r. addAssign sample_fpu sample_apd None sample_heap (num Int8Type 127) (num Int8Type 1) =
      map_sum id (Pair None) r \<and> denotes sample_heap (num Int8Type 127) (-128) r)"
  using arithmetic_wraps[of "num Int8Type 127" "(8, True)" "num Int8Type 1" sample_fpu sample_apd None sample_heap]
  by (simp add: ival_num readInt_def wrapTo_def swrap_def)

text \<open>
  C10: integer \<open>/\<close> and \<open>%\<close> panic with a division by zero exactly when the divisor denotes zero, and
  otherwise return the quotient truncated towards zero and its remainder (reduced to the range
  of the type, which only the quotient of the least value by -1 leaves).
\<close>

theorem quotient_remainder:
  assumes "intType (T lv) = Some ws" "baseOf (T rv) = baseOf (T lv)"
  shows "if ival rv = 0
    then quoAssign U D h lv rv = Inl DivideByZero \<and> remAssign h lv rv = Inl DivideByZero
    else denotes h lv (wrapTo ws (ival lv sdiv ival rv)) (quoAssign U D h lv rv)
       \<and> denotes h lv (wrapTo ws (ival lv smod ival rv)) (remAssign h lv rv)"
  using quo_wraps[OF assms, of U D h] rem_wraps[OF assms, of h] by (auto split: if_splits)

theorem quotient_remainder_witness:
  "denotes sample_heap (num Int8Type (-7)) (-3) (quoAssign sample_fpu sample_apd sample_heap (num Int8Type (-7)) (num Int8Type 2))
   \<and> denotes sample_heap (num Int8Type (-7)) (-1) (remAssign sample_heap (num Int8Type (-7)) (num Int8Type 2))"
  using quotient_remainder[of "num Int8Type (-7)" "(8, True)" "num Int8Type 2" sample_fpu sample_apd sample_heap]
  by (simp add: ival_num readInt_def wrapTo_def swrap_def signed_divide_int_def signed_modulo_int_def)

text \<open>
  C11: the bitwise operators compute the two's complement operation on the denoted integers; a
  left shift multiplies by the power of two and wraps, a right shift divides rounding down
  (arithmetically for the signed types), for every shift count, also beyond the width.
\<close>

theorem bits_and_shifts:
  assumes "intType (T lv) = Some ws" "baseOf (T rv) = baseOf (T lv)"
  shows "denotes h lv (ival lv AND ival rv) (bandAssign h lv rv)
    \<and> denotes h lv (ival lv AND NOT (ival rv)) (bandnAssign h lv rv)
    \<and> denotes h lv (ival lv OR ival rv) (borAssign h lv rv)
    \<and> denotes h lv (ival lv XOR ival rv) (xorAssign h lv rv)
    \<and> denotes h lv (wrapTo ws (ival lv * 2 ^ unat (GetUint sv))) (shlAssign h lv sv)
    \<and> denotes h lv (ival lv div 2 ^ unat (GetUint sv)) (shrAssign h lv sv)"
  using band_bits[OF assms] bandn_bits[OF assms] bor_bits[OF assms] xor_bits[OF assms]
    shl_wraps[OF assms(1)] shr_floor[OF assms(1)] by blast

theorem bits_and_shifts_witness:
  "denotes sample_heap (num Int8Type (-7)) (-4) (shrAssign sample_heap (num Int8Type (-7)) (num UintType 1))
   \<and> denotes sample_heap (num Int8Type (-7)) 1 (bandAssign sample_heap (num Int8Type (-7)) (num Int8Type 3))"
  using bits_and_shifts[of "num Int8Type (-7)" "(8, True)" "num Int8Type 3" sample_heap "num UintType 1"]
  by (simp add: ival_num readInt_def GetUint_def)

text \<open>
  C12: on two values of one integer type the comparison operators decide the order of the denoted
  integers, and \<open>==\<close> their equality, without a panic.
\<close>

theorem comparisons_decide_order:
  assumes "intType (T lv) = Some ws" "baseOf (T rv) = baseOf (T lv)"
  shows "isLss D lv rv = Inr (ival lv < ival rv) \<and> isLeq D lv rv = Inr (ival lv \<le> ival rv)
    \<and> isGtr D lv rv = Inr (ival lv > ival rv) \<and> isGeq D lv rv = Inr (ival lv \<ge> ival rv)
    \<and> isEql goEq D h (Suc n) lv rv = Inr (ival lv = ival rv)"
  using compare_ints[OF assms] eql_ints[OF assms] by simp

theorem comparisons_decide_order_witness:
  "isLss sample_apd (num Int16Type 65535) (num Int16Type 1) = Inr True
   \<and> isEql (\<lambda>a b. Inr False) sample_apd sample_heap 1 (num Int16Type 65535) (num Int16Type 131071) = Inr True"
  using comparisons_decide_order[of "num Int16Type 65535" "(16, True)" "num Int16Type 1" sample_apd
      "\<lambda>a b. Inr False" sample_heap 0]
    comparisons_decide_order[of "num Int16Type 65535" "(16, True)" "num Int16Type 131071" sample_apd
      "\<lambda>a b. Inr False" sample_heap 0]
  by (simp add: ival_num readInt_def)

text \<open>
  C13: The unary \<open>-\<close> and \<open>^\<close>, \<open>x++\<close> and \<open>x--\<close> on a value of any typed integer type do not panic and keep
  its type: they give the negation, the complement, the successor and the predecessor, wrapped into
  the range of the type. On an untyped rune, which the binary operators accept, each of them panics.
\<close>

theorem unary_operators:
  assumes "intType (T xv) = Some ws"
  shows "if baseOf (T xv) = Some (Primitive UntypedRuneType)
    then unegValue D xv = Inl (Panic ''unexpected type in operation'') \<and> uxorValue xv = Inl (Panic ''unexpected type in operation'')
       \<and> incValue h xv = Inl (Panic ''unexpected type in in operation'') \<and> decValue h xv = Inl (Panic ''unexpected type in in operation'')
    else denotes h xv (wrapTo ws (- ival xv)) (map_sum id (Pair h) (unegValue D xv))
       \<and> denotes h xv (wrapTo ws (- ival xv - 1)) (map_sum id (Pair h) (uxorValue xv))
       \<and> denotes h xv (wrapTo ws (ival xv + 1)) (incValue h xv)
       \<and> denotes h xv (wrapTo ws (ival xv - 1)) (decValue h xv)"
proof (cases "baseOf (T xv) = Some (Primitive UntypedRuneType)")
  case True
  then show ?thesis
    by (simp add: unegValue_def uxorValue_def incValue_def decValue_def)
next
  case False
  then show ?thesis
    using uneg_wraps[OF assms False] uxor_wraps[OF assms False] inc_wraps[OF assms False] dec_wraps[OF assms False] by simp
qed

theorem unary_operators_witness:
  "denotes sample_heap (num Uint8Type 255) 0 (incValue sample_heap (num Uint8Type 255))
   \<and> denotes sample_heap (num Int8Type 128) (-128) (map_sum id (Pair sample_heap) (unegValue sample_apd (num Int8Type 128)))
   \<and> incValue sample_heap (num UntypedRuneType 97) = Inl (Panic ''unexpected type in in operation'')"
  using unary_operators[of "num Uint8Type 255" "(8, False)" sample_apd sample_heap]
    unary_operators[of "num Int8Type 128" "(8, True)" sample_apd sample_heap]
    unary_operators[of "num UntypedRuneType 97" "(32, True)" sample_apd sample_heap]
  by (simp add: ival_num readInt_def wrapTo_def swrap_def)



end
