(* ===== verification/Kv_Store.thy ===== *)
theory Kv_Store
  imports Prelude
begin

text \<open>
  The interface of the key-value stores (\<^verbatim>\<open>pkgs/store/types\<close>). A store is a record of operations over
  its state; every operation returns how the call ended and the state it left, also when it
  panicked. The locale \<open>kv_store\<close> is the contract the stores promise each other: the state stands
  for a sorted list of entries, reads return what the list holds and writes change it as a map
  is changed. \<open>ok n s\<close> says that \<open>s\<close> is well-formed and takes \<open>n\<close> more writes.

  A nil slice is \<open>None\<close>, an empty one \<open>Some []\<close>. An iterator is handed to its client as the pairs
  it will produce.
\<close>

subsection \<open>Calls with state\<close>

type_synonym ('s, 'a) act = "'s \<Rightarrow> 'a result \<times> 's"

definition bindA :: "('s, 'a) act \<Rightarrow> ('a \<Rightarrow> ('s, 'b) act) \<Rightarrow> ('s, 'b) act" where
  "bindA m f s = (case m s of (Inl e, s') \<Rightarrow> (Inl e, s') | (Inr x, s') \<Rightarrow> f x s')"

definition returnA :: "'a \<Rightarrow> ('s, 'a) act" where
  "returnA x s = (Inr x, s)"

definition failA :: "panic \<Rightarrow> ('s, 'a) act" where
  "failA e s = (Inl e, s)"

definition liftA :: "'a result \<Rightarrow> ('s, 'a) act" where
  "liftA r s = (r, s)"

subsection \<open>The interface\<close>

record kvIter =
  itStart :: "bytes option"
  itEnd :: "bytes option"
  itItems :: "(bytes \<times> bytes option) list"

record 's kvOps =
  opGet :: "bytes option \<Rightarrow> ('s, bytes option) act"
  opHas :: "bytes option \<Rightarrow> ('s, bool) act"
  opSet :: "bytes option \<Rightarrow> bytes option \<Rightarrow> ('s, unit) act"
  opDelete :: "bytes option \<Rightarrow> ('s, unit) act"
  opIterator :: "bool \<Rightarrow> bytes option \<Rightarrow> bytes option \<Rightarrow> ('s, kvIter) act"
  opWrite :: "('s, unit) act"

definition AssertValidKey :: "bytes option \<Rightarrow> unit result" where
  "AssertValidKey key = (if key = None then Inl (Panic ''key is nil'') else Inr ())"

definition AssertValidValue :: "bytes option \<Rightarrow> unit result" where
  "AssertValidValue value = (if value = None then Inl (Panic ''value is nil'') else Inr ())"

text \<open>The bytes of a slice: none for nil.\<close>

definition bytesOf :: "bytes option \<Rightarrow> bytes" where
  "bytesOf b = (case b of None \<Rightarrow> [] | Some x \<Rightarrow> x)"

definition IsKeyInDomain :: "bytes \<Rightarrow> bytes option \<Rightarrow> bytes option \<Rightarrow> bool" where
  "IsKeyInDomain key start end =
     (if key < bytesOf start then False
      else case end of None \<Rightarrow> True | Some e \<Rightarrow> \<not> e \<le> key)"

fun prefixEnd_loop :: "bytes \<Rightarrow> bytes option" where
  "prefixEnd_loop [] = None"
| "prefixEnd_loop (b # rest) = (if b \<noteq> 255 then Some (rev ((b + 1) # rest)) else prefixEnd_loop rest)"

definition PrefixEndBytes :: "bytes \<Rightarrow> bytes option" where
  "PrefixEndBytes prefix = prefixEnd_loop (rev prefix)"

definition InclusiveEndBytes :: "bytes \<Rightarrow> bytes" where
  "InclusiveEndBytes inclusiveBytes = inclusiveBytes @ [0]"

definition PrefixIterator :: "'s kvOps \<Rightarrow> bytes \<Rightarrow> ('s, kvIter) act" where
  "PrefixIterator kvs prefix = opIterator kvs True (Some prefix) (PrefixEndBytes prefix)"

definition ReversePrefixIterator :: "'s kvOps \<Rightarrow> bytes \<Rightarrow> ('s, kvIter) act" where
  "ReversePrefixIterator kvs prefix = opIterator kvs False (Some prefix) (PrefixEndBytes prefix)"

subsection \<open>The contract\<close>

definition inDomain :: "bytes option \<Rightarrow> bytes option \<Rightarrow> (bytes \<times> 'v) list \<Rightarrow> (bytes \<times> 'v) list" where
  "inDomain start end es = filter (\<lambda>e. IsKeyInDomain (fst e) start end) es"

definition someItems :: "(bytes \<times> bytes) list \<Rightarrow> (bytes \<times> bytes option) list" where
  "someItems es = map (\<lambda>(k, v). (k, Some v)) es"

abbreviation ascending :: "(bytes \<times> 'v) list \<Rightarrow> bool" where
  "ascending es \<equiv> sorted_wrt (<) (map fst es)"

locale kv_store =
  fixes ops :: "'s kvOps"
    and view :: "'s \<Rightarrow> (bytes \<times> bytes) list"
    and ok :: "nat \<Rightarrow> 's \<Rightarrow> bool"
  assumes view_ascending: "ok n s \<Longrightarrow> ascending (view s)"
    and ok_mono: "ok n s \<Longrightarrow> m \<le> n \<Longrightarrow> ok m s"
    and get_law: "ok n s \<Longrightarrow> opGet ops (Some k) s = (r, s') \<Longrightarrow>
      r = Inr (map_of (view s) k) \<and> ok n s' \<and> view s' = view s"
    and has_law: "ok n s \<Longrightarrow> opHas ops (Some k) s = (b, s') \<Longrightarrow>
      b = Inr (map_of (view s) k \<noteq> None) \<and> ok n s' \<and> view s' = view s"
    and set_law: "ok (Suc n) s \<Longrightarrow> opSet ops (Some k) (Some v) s = (u, s') \<Longrightarrow>
      u = Inr () \<and> ok n s' \<and> view s' = kput k v (view s)"
    and delete_law: "ok (Suc n) s \<Longrightarrow> opDelete ops (Some k) s = (u, s') \<Longrightarrow>
      u = Inr () \<and> ok n s' \<and> view s' = kdel k (view s)"
    and iterator_law: "ok n s \<Longrightarrow> opIterator ops asc start end s = (it, s') \<Longrightarrow>
      it = Inr \<lparr>itStart = start, itEnd = end, itItems = someItems (ordered asc (inDomain start end (view s)))\<rparr>
      \<and> ok n s' \<and> view s' = view s"
begin

text \<open>What a client of any store may rely on.\<close>

lemma set_get:
  assumes "ok (Suc n) s" "opSet ops (Some k) (Some v) s = (u, s')" "opGet ops (Some q) s' = (r, s'')"
  shows "r = Inr (if q = k then Some v else map_of (view s) q)"
  using set_law[OF assms(1,2)] get_law[of n s' q r s''] assms(3) by (simp add: map_of_kput)

lemma delete_get:
  assumes "ok (Suc n) s" "opDelete ops (Some k) s = (u, s')" "opGet ops (Some q) s' = (r, s'')"
  shows "r = Inr (if q = k then None else map_of (view s) q)"
  using delete_law[OF assms(1,2)] get_law[of n s' q r s''] assms(3) by (simp add: map_of_kdel)

end

subsection \<open>Lemmas on calls and entries\<close>

lemma bindA_simps [simp]:
  "m s = (Inr x, s') \<Longrightarrow> bindA m f s = f x s'"
  "m s = (Inl e, s') \<Longrightarrow> bindA m f s = (Inl e, s')"
  "bindA (returnA y) f s = f y s"
  "bindA (failA e) f s = (Inl e, s)"
  by (simp_all add: bindA_def returnA_def failA_def)

lemma bindR_cong [fundef_cong]:
  "r = r' \<Longrightarrow> (\<And>x. r' = Inr x \<Longrightarrow> f x = g x) \<Longrightarrow> bindR r f = bindR r' g"
  by (cases r') simp_all

lemma act_simps [simp]: "returnA x s = (Inr x, s)" "failA e s = (Inl e, s)" "liftA r s = (r, s)"
  by (simp_all add: returnA_def failA_def liftA_def)

lemma inDomain_mem: "e \<in> set (inDomain start end es) \<longleftrightarrow> e \<in> set es \<and> IsKeyInDomain (fst e) start end"
  by (simp add: inDomain_def)

lemma ascending_filter: "ascending es \<Longrightarrow> ascending (filter P es)"
  by (induction es) auto

lemma ascending_distinct: "ascending es \<Longrightarrow> distinct (map fst es)"
  by (auto simp: strict_sorted_iff)

lemma ascending_eqI:
  assumes "ascending xs" "ascending ys" "map_of xs = map_of ys"
  shows "xs = ys"
proof -
  have "set xs = set ys"
    using assms ascending_distinct map_of_eq_Some_iff by (metis prod.collapse subrelI subset_antisym)
  moreover have "sorted_wrt (<) (map fst xs)" "sorted_wrt (<) (map fst ys)"
    using assms by simp_all
  ultimately show ?thesis
    using assms ascending_distinct
    by (intro map_sorted_distinct_set_unique[of fst]) (auto simp: strict_sorted_iff distinct_map)
qed

lemma ascending_kput: "ascending es \<Longrightarrow> ascending (kput k v es)"
  by (auto simp: kput_def sorted_wrt_append ascending_filter)

lemma ascending_kdel: "ascending es \<Longrightarrow> ascending (kdel k es)"
  by (simp add: kdel_def ascending_filter)

end
