(* ===== verification/Iavl_Tree.thy ===== *)
theory Iavl_Tree
  imports Prelude
begin

text \<open>
  The IAVL+ tree of \<^verbatim>\<open>pkgs/iavl\<close> (\<^verbatim>\<open>node.go\<close>, \<^verbatim>\<open>mutable_tree.go\<close>, \<^verbatim>\<open>immutable_tree.go\<close>):
  the authenticated store of the chain state. Values sit in the leaves; an inner node's key is the
  smallest key of its right subtree. The Go struct \<open>Node\<close> is a leaf exactly when its height is 0,
  which the datatype makes explicit. The children of an inner node are the nodes
  \<open>getLeftNode\<close>/\<open>getRightNode\<close> return, so a child that Go would fetch from the node database by
  its hash stands in the model as the fetched node. Heights (\<open>int8\<close>) and sizes (\<open>int64\<close>) wrap
  around as in Go.
\<close>

subsection \<open>Nodes\<close>

datatype Node =
    Leaf (key: bytes) (val: bytes) (version: int) (hash: "bytes option") (persisted: bool)
  | Inner (key: bytes) (version: int) (ht: int) (sz: int) (hash: "bytes option") (persisted: bool)
      (leftNode: Node) (rightNode: Node)

definition NewNode :: "bytes \<Rightarrow> bytes \<Rightarrow> int \<Rightarrow> Node" where
  "NewNode k v ver = Leaf k v ver None False"

fun height :: "Node \<Rightarrow> int" where
  "height (Leaf k x v hs p) = 0"
| "height (Inner k v h s hs p l r) = h"

fun nsize :: "Node \<Rightarrow> int" where
  "nsize (Leaf k x v hs p) = 1"
| "nsize (Inner k v h s hs p l r) = s"

fun isLeaf :: "Node \<Rightarrow> bool" where
  "isLeaf (Leaf k x v hs p) = True"
| "isLeaf (Inner k v h s hs p l r) = False"

fun clone :: "Node \<Rightarrow> int \<Rightarrow> Node result" where
  "clone (Leaf k x v hs p) ver = Inl (Panic ''Attempt to copy a leaf node'')"
| "clone (Inner k v h s hs p l r) ver = Inr (Inner k ver h s None False l r)"

fun setLeftNode :: "Node \<Rightarrow> Node \<Rightarrow> Node" where
  "setLeftNode (Leaf k x v hs p) c = Leaf k x v hs p"
| "setLeftNode (Inner k v h s hs p l r) c = Inner k v h s hs p c r"

fun setRightNode :: "Node \<Rightarrow> Node \<Rightarrow> Node" where
  "setRightNode (Leaf k x v hs p) c = Leaf k x v hs p"
| "setRightNode (Inner k v h s hs p l r) c = Inner k v h s hs p l c"

fun setKey :: "Node \<Rightarrow> bytes \<Rightarrow> Node" where
  "setKey (Leaf k x v hs p) k' = Leaf k' x v hs p"
| "setKey (Inner k v h s hs p l r) k' = Inner k' v h s hs p l r"

definition maxInt8 :: "int \<Rightarrow> int \<Rightarrow> int" where
  "maxInt8 a b = (if a > b then a else b)"

fun calcHeightAndSize :: "Node \<Rightarrow> Node" where
  "calcHeightAndSize (Leaf k x v hs p) = Leaf k x v hs p"
| "calcHeightAndSize (Inner k v h s hs p l r) =
     Inner k v (swrap 8 (maxInt8 (height l) (height r) + 1)) (swrap 64 (nsize l + nsize r)) hs p l r"

fun calcBalance :: "Node \<Rightarrow> int result" where
  "calcBalance (Leaf k x v hs p) = Inl (Panic ''nodeDB.GetNode() requires hash'')"
| "calcBalance (Inner k v h s hs p l r) = Inr (height l - height r)"

subsection \<open>Reading\<close>

fun has :: "Node \<Rightarrow> bytes \<Rightarrow> bool" where
  "has (Leaf k x v hs p) q = (k = q)"
| "has (Inner k v h s hs p l r) q =
     (if k = q then True else if q < k then has l q else has r q)"

fun get :: "Node \<Rightarrow> bytes \<Rightarrow> int \<times> bytes option" where
  "get (Leaf k x v hs p) q = (if k < q then (1, None) else if q < k then (0, None) else (0, Some x))"
| "get (Inner k v h s hs p l r) q =
     (if q < k then get l q
      else let (index, value) = get r q in (swrap 64 (index + swrap 64 (s - nsize r)), value))"

fun getByIndex :: "Node \<Rightarrow> int \<Rightarrow> (bytes \<times> bytes) option" where
  "getByIndex (Leaf k x v hs p) i = (if i = 0 then Some (k, x) else None)"
| "getByIndex (Inner k v h s hs p l r) i =
     (if i < nsize l then getByIndex l i else getByIndex r (swrap 64 (i - nsize l)))"

text \<open>
  \<open>traverseInRange\<close> calls back on every inner node it visits and on the leaves in range. The Go
  callback is a closure over local state; here it takes and returns that state \<open>'s\<close> beside the
  stop flag.
\<close>

fun traverseInRange ::
  "bytes option \<Rightarrow> bytes option \<Rightarrow> bool \<Rightarrow> bool \<Rightarrow> (Node \<Rightarrow> 8 word \<Rightarrow> 's \<Rightarrow> bool \<times> 's) \<Rightarrow>
     Node \<Rightarrow> 8 word \<Rightarrow> 's \<Rightarrow> bool \<times> 's" where
  "traverseInRange start end asc incl cb (Leaf k x v hs p) depth st =
     (let startOrAfter = (case start of None \<Rightarrow> True | Some a \<Rightarrow> a \<le> k);
          beforeEnd = (case end of None \<Rightarrow> True | Some b \<Rightarrow> if incl then k \<le> b else k < b)
      in if startOrAfter \<and> beforeEnd then cb (Leaf k x v hs p) depth st else (False, st))"
| "traverseInRange start end asc incl cb (Inner k v h s hs p l r) depth st =
     (let afterStart = (case start of None \<Rightarrow> True | Some a \<Rightarrow> a < k);
          beforeEnd = (case end of None \<Rightarrow> True | Some b \<Rightarrow> if incl then k \<le> b else k < b);
          (stop, st1) = cb (Inner k v h s hs p l r) depth st
      in if stop then (True, st1)
         else if asc then
           (let (stop, st2) = (if afterStart
                  then traverseInRange start end asc incl cb l (depth + 1) st1 else (False, st1))
            in if stop then (True, st2)
               else if beforeEnd then traverseInRange start end asc incl cb r (depth + 1) st2
               else (False, st2))
         else
           (let (stop, st2) = (if beforeEnd
                  then traverseInRange start end asc incl cb r (depth + 1) st1 else (False, st1))
            in if stop then (True, st2)
               else if afterStart then traverseInRange start end asc incl cb l (depth + 1) st2
               else (False, st2)))"

definition traverseWithDepth ::
  "Node \<Rightarrow> bool \<Rightarrow> (Node \<Rightarrow> 8 word \<Rightarrow> 's \<Rightarrow> bool \<times> 's) \<Rightarrow> 's \<Rightarrow> bool \<times> 's" where
  "traverseWithDepth node asc cb st = traverseInRange None None asc False cb node 0 st"

definition traverse :: "Node \<Rightarrow> bool \<Rightarrow> (Node \<Rightarrow> 's \<Rightarrow> bool \<times> 's) \<Rightarrow> 's \<Rightarrow> bool \<times> 's" where
  "traverse node asc cb st = traverseInRange None None asc False (\<lambda>n depth. cb n) node 0 st"

fun lmd :: "Node \<Rightarrow> Node" where
  "lmd (Leaf k x v hs p) = Leaf k x v hs p"
| "lmd (Inner k v h s hs p l r) = lmd l"

subsection \<open>Rotations and balancing\<close>

definition rotateRight :: "int \<Rightarrow> Node \<Rightarrow> (Node \<times> Node) result" where
  "rotateRight ver node0 =
     bindR (clone node0 ver) (\<lambda>node.
     let orphaned = leftNode node in
     bindR (clone orphaned ver) (\<lambda>newNode.
     let node = calcHeightAndSize (setLeftNode node (rightNode newNode));
         newNode = calcHeightAndSize (setRightNode newNode node)
     in Inr (newNode, orphaned)))"

definition rotateLeft :: "int \<Rightarrow> Node \<Rightarrow> (Node \<times> Node) result" where
  "rotateLeft ver node0 =
     bindR (clone node0 ver) (\<lambda>node.
     let orphaned = rightNode node in
     bindR (clone orphaned ver) (\<lambda>newNode.
     let node = calcHeightAndSize (setRightNode node (leftNode newNode));
         newNode = calcHeightAndSize (setLeftNode newNode node)
     in Inr (newNode, orphaned)))"

definition balance :: "int \<Rightarrow> Node \<Rightarrow> (Node \<times> Node list) result" where
  "balance ver node =
     (if persisted node then Inl (Panic ''Unexpected balance() call on persisted node'')
      else bindR (calcBalance node) (\<lambda>bal.
        if bal > 1 then
          bindR (calcBalance (leftNode node)) (\<lambda>lbal.
          if lbal \<ge> 0 then
            bindR (rotateRight ver node) (\<lambda>(newNode, orphaned). Inr (newNode, [orphaned]))
          else
            (let left = leftNode node in
             bindR (rotateLeft ver left) (\<lambda>(l', leftOrphaned).
             bindR (rotateRight ver (setLeftNode node l')) (\<lambda>(newNode, rightOrphaned).
             Inr (newNode, [left, leftOrphaned, rightOrphaned])))))
        else if bal < -1 then
          bindR (calcBalance (rightNode node)) (\<lambda>rbal.
          if rbal \<le> 0 then
            bindR (rotateLeft ver node) (\<lambda>(newNode, orphaned). Inr (newNode, [orphaned]))
          else
            (let right = rightNode node in
             bindR (rotateRight ver right) (\<lambda>(r', rightOrphaned).
             bindR (rotateLeft ver (setRightNode node r')) (\<lambda>(newNode, leftOrphaned).
             Inr (newNode, [right, leftOrphaned, rightOrphaned])))))
        else Inr (node, [])))"

subsection \<open>Writing\<close>

fun recursiveSet :: "int \<Rightarrow> Node \<Rightarrow> bytes \<Rightarrow> bytes \<Rightarrow> (Node \<times> bool \<times> Node list) result" where
  "recursiveSet ver (Leaf k x v hs p) q y =
     (if q < k then
        Inr (Inner k ver 1 2 None False (NewNode q y ver) (Leaf k x v hs p), False, [])
      else if k < q then
        Inr (Inner q ver 1 2 None False (Leaf k x v hs p) (NewNode q y ver), False, [])
      else Inr (NewNode q y ver, True, [Leaf k x v hs p]))"
| "recursiveSet ver (Inner k v h s hs p l r) q y =
     bindR (clone (Inner k v h s hs p l r) ver) (\<lambda>node.
     bindR (if q < k
            then bindR (recursiveSet ver l q y) (\<lambda>(l', updated, leftOrphaned).
                   Inr (setLeftNode node l', updated, Inner k v h s hs p l r # leftOrphaned))
            else bindR (recursiveSet ver r q y) (\<lambda>(r', updated, rightOrphaned).
                   Inr (setRightNode node r', updated, Inner k v h s hs p l r # rightOrphaned)))
       (\<lambda>(node, updated, orphaned).
     if updated then Inr (node, updated, orphaned)
     else bindR (balance ver (calcHeightAndSize node)) (\<lambda>(newNode, balanceOrphaned).
       Inr (newNode, updated, orphaned @ balanceOrphaned))))"

text \<open>
  \<open>recursiveRemove\<close>: the replacement of the node (\<open>None\<close> when the node itself is removed), the new
  leftmost key of the subtree if it changed, the removed value, and the orphaned nodes.
\<close>

fun recursiveRemove ::
  "int \<Rightarrow> Node \<Rightarrow> bytes \<Rightarrow> (Node option \<times> bytes option \<times> bytes option \<times> Node list) result" where
  "recursiveRemove ver (Leaf k x v hs p) q =
     (if q = k then Inr (None, None, Some x, [Leaf k x v hs p])
      else Inr (Some (Leaf k x v hs p), None, None, []))"
| "recursiveRemove ver (Inner k v h s hs p l r) q =
     (if q < k then
        bindR (recursiveRemove ver l q) (\<lambda>(newLeft, newKey, value, orphaned).
        if orphaned = [] then Inr (Some (Inner k v h s hs p l r), None, value, orphaned)
        else case newLeft of
          None \<Rightarrow> Inr (Some r, Some k, value, orphaned)
        | Some l' \<Rightarrow>
            bindR (clone (Inner k v h s hs p l r) ver) (\<lambda>newNode.
            bindR (balance ver (calcHeightAndSize (setLeftNode newNode l')))
              (\<lambda>(newNode, balanceOrphaned).
            Inr (Some newNode, newKey, value,
                 (orphaned @ [Inner k v h s hs p l r]) @ balanceOrphaned))))
      else
        bindR (recursiveRemove ver r q) (\<lambda>(newRight, newKey, value, orphaned).
        if orphaned = [] then Inr (Some (Inner k v h s hs p l r), None, value, orphaned)
        else case newRight of
          None \<Rightarrow> Inr (Some l, None, value, orphaned)
        | Some r' \<Rightarrow>
            bindR (clone (Inner k v h s hs p l r) ver) (\<lambda>newNode.
            let newNode = setRightNode newNode r';
                newNode = (case newKey of None \<Rightarrow> newNode | Some k' \<Rightarrow> setKey newNode k') in
            bindR (balance ver (calcHeightAndSize newNode)) (\<lambda>(newNode, balanceOrphaned).
            Inr (Some newNode, None, value,
                 (orphaned @ [Inner k v h s hs p l r]) @ balanceOrphaned)))))"

subsection \<open>The tree\<close>

text \<open>
  A \<open>MutableTree\<close> embeds the \<open>ImmutableTree\<close> it works on, which the record extension mirrors: the
  root and version are those of the working tree, \<open>lastSaved\<close> is the tree of the last
  \<open>SaveVersion\<close> and \<open>orphans\<close> the persisted nodes the working tree dropped, by hash.
\<close>

record ImmutableTree =
  root :: "Node option"
  tversion :: int

record MutableTree = ImmutableTree +
  lastSaved :: ImmutableTree
  orphans :: "bytes \<rightharpoonup> int"

definition NewMutableTree :: MutableTree where
  "NewMutableTree = \<lparr>root = None, tversion = 0, lastSaved = \<lparr>root = None, tversion = 0\<rparr>,
     orphans = Map.empty\<rparr>"

definition Size :: "'a ImmutableTree_scheme \<Rightarrow> int" where
  "Size t = (case root t of None \<Rightarrow> 0 | Some n \<Rightarrow> nsize n)"

definition Height :: "'a ImmutableTree_scheme \<Rightarrow> int" where
  "Height t = (case root t of None \<Rightarrow> 0 | Some n \<Rightarrow> height n)"

definition Has :: "'a ImmutableTree_scheme \<Rightarrow> bytes \<Rightarrow> bool" where
  "Has t k = (case root t of None \<Rightarrow> False | Some n \<Rightarrow> has n k)"

definition Get :: "'a ImmutableTree_scheme \<Rightarrow> bytes \<Rightarrow> int \<times> bytes option" where
  "Get t k = (case root t of None \<Rightarrow> (0, None) | Some n \<Rightarrow> get n k)"

definition GetByIndex :: "'a ImmutableTree_scheme \<Rightarrow> int \<Rightarrow> (bytes \<times> bytes) option" where
  "GetByIndex t i = (case root t of None \<Rightarrow> None | Some n \<Rightarrow> getByIndex n i)"

definition IsEmpty :: "'a ImmutableTree_scheme \<Rightarrow> bool" where
  "IsEmpty t \<longleftrightarrow> Size t = 0"

text \<open>The callback the iterators hand to \<open>traverseInRange\<close>: the user function, on leaves only.\<close>

fun leaf_cb :: "(bytes \<Rightarrow> bytes \<Rightarrow> int \<Rightarrow> 's \<Rightarrow> bool \<times> 's) \<Rightarrow> Node \<Rightarrow> 's \<Rightarrow> bool \<times> 's" where
  "leaf_cb fn (Leaf k x v hs p) st = fn k x v st"
| "leaf_cb fn (Inner k v h s hs p l r) st = (False, st)"

definition Iterate ::
  "'a ImmutableTree_scheme \<Rightarrow> (bytes \<Rightarrow> bytes \<Rightarrow> 's \<Rightarrow> bool \<times> 's) \<Rightarrow> 's \<Rightarrow> bool \<times> 's" where
  "Iterate t fn st = (case root t of None \<Rightarrow> (False, st)
     | Some n \<Rightarrow> traverse n True (leaf_cb (\<lambda>k x v. fn k x)) st)"

definition IterateRange ::
  "'a ImmutableTree_scheme \<Rightarrow> bytes option \<Rightarrow> bytes option \<Rightarrow> bool \<Rightarrow>
     (bytes \<Rightarrow> bytes \<Rightarrow> 's \<Rightarrow> bool \<times> 's) \<Rightarrow> 's \<Rightarrow> bool \<times> 's" where
  "IterateRange t start end asc fn st = (case root t of None \<Rightarrow> (False, st)
     | Some n \<Rightarrow> traverseInRange start end asc False
                  (\<lambda>n d. leaf_cb (\<lambda>k x v. fn k x) n) n 0 st)"

definition IterateRangeInclusive ::
  "'a ImmutableTree_scheme \<Rightarrow> bytes option \<Rightarrow> bytes option \<Rightarrow> bool \<Rightarrow>
     (bytes \<Rightarrow> bytes \<Rightarrow> int \<Rightarrow> 's \<Rightarrow> bool \<times> 's) \<Rightarrow> 's \<Rightarrow> bool \<times> 's" where
  "IterateRangeInclusive t start end asc fn st = (case root t of None \<Rightarrow> (False, st)
     | Some n \<Rightarrow> traverseInRange start end asc True (\<lambda>n d. leaf_cb fn n) n 0 st)"

text \<open>\<open>nodeSize\<close> dereferences the root, so an empty tree panics.\<close>

definition nodeSize :: "'a ImmutableTree_scheme \<Rightarrow> int result" where
  "nodeSize t = (case root t of None \<Rightarrow> Inl NilDereference
     | Some n \<Rightarrow> Inr (snd (traverse n True (\<lambda>n size. (False, swrap 64 (size + 1))) 0)))"

definition Rollback :: "MutableTree \<Rightarrow> MutableTree" where
  "Rollback t =
     (if tversion t > 0
      then t\<lparr>root := root (lastSaved t), tversion := tversion (lastSaved t), orphans := Map.empty\<rparr>
      else t\<lparr>root := None, tversion := 0, orphans := Map.empty\<rparr>)"

fun addOrphans :: "MutableTree \<Rightarrow> Node list \<Rightarrow> MutableTree result" where
  "addOrphans t [] = Inr t"
| "addOrphans t (n # ns) =
     (if \<not> persisted n then addOrphans t ns
      else case hash n of
        None \<Rightarrow> Inl (Panic ''Expected to find node hash, but was empty'')
      | Some h \<Rightarrow>
          if h = [] then Inl (Panic ''Expected to find node hash, but was empty'')
          else addOrphans (t\<lparr>orphans := (orphans t)(h \<mapsto> version n)\<rparr>) ns)"

text \<open>The value is an option because Go callers can pass a nil slice, which \<open>set\<close> refuses.\<close>

definition set_tree :: "MutableTree \<Rightarrow> bytes \<Rightarrow> bytes option \<Rightarrow> (MutableTree \<times> Node list \<times> bool) result"
where
  "set_tree t k value =
     (case value of
        None \<Rightarrow> Inl (Panic ''Attempt to store nil value'')
      | Some y \<Rightarrow>
         (case root t of
            None \<Rightarrow> Inr (t\<lparr>root := Some (NewNode k y (swrap 64 (tversion t + 1)))\<rparr>, [], False)
          | Some n \<Rightarrow>
              bindR (recursiveSet (swrap 64 (tversion t + 1)) n k y) (\<lambda>(n', updated, orphaned).
              Inr (t\<lparr>root := Some n'\<rparr>, orphaned, updated))))"

definition Set :: "MutableTree \<Rightarrow> bytes \<Rightarrow> bytes option \<Rightarrow> (MutableTree \<times> bool) result" where
  "Set t k value =
     bindR (set_tree t k value) (\<lambda>(t', orphaned, updated).
     bindR (addOrphans t' orphaned) (\<lambda>t''. Inr (t'', updated)))"

definition remove :: "MutableTree \<Rightarrow> bytes \<Rightarrow> (MutableTree \<times> bytes option \<times> Node list \<times> bool) result"
where
  "remove t k =
     (case root t of
        None \<Rightarrow> Inr (t, None, [], False)
      | Some n \<Rightarrow>
          bindR (recursiveRemove (swrap 64 (tversion t + 1)) n k)
            (\<lambda>(newRoot, newKey, value, orphaned).
          if orphaned = [] then Inr (t, None, [], False)
          else Inr (t\<lparr>root := newRoot\<rparr>, value, orphaned, True)))"

definition Remove :: "MutableTree \<Rightarrow> bytes \<Rightarrow> (MutableTree \<times> bytes option \<times> bool) result" where
  "Remove t k =
     bindR (remove t k) (\<lambda>(t', value, orphaned, removed).
     bindR (addOrphans t' orphaned) (\<lambda>t''. Inr (t'', value, removed)))"

end
