(* ===== verification/Iavl_Invariants.thy ===== *)
theory Iavl_Invariants
  imports Iavl_Tree "HOL-Library.Multiset"
begin

text \<open>
  The invariants of IAVL nodes (search order, balance, stored sizes), what the read operations
  return under them, and the rotations and \<open>balance\<close>: they keep the invariants, the entries and,
  together with the nodes they orphan, the persisted nodes.
\<close>

fun leaves :: "Node \<Rightarrow> (bytes \<times> bytes) list" where
  "leaves (Leaf k x v hs p) = [(k, x)]"
| "leaves (Inner k v h s hs p l r) = leaves l @ leaves r"

fun minkey :: "Node \<Rightarrow> bytes" where
  "minkey (Leaf k x v hs p) = k"
| "minkey (Inner k v h s hs p l r) = minkey l"

abbreviation keys :: "Node \<Rightarrow> bytes list" where
  "keys n \<equiv> map fst (leaves n)"

fun bst :: "Node \<Rightarrow> bool" where
  "bst (Leaf k x v hs p) = True"
| "bst (Inner k v h s hs p l r) =
     (bst l \<and> bst r \<and> (\<forall>a \<in> set (keys l). a < k) \<and> k = minkey r)"

fun avl :: "Node \<Rightarrow> bool" where
  "avl (Leaf k x v hs p) = True"
| "avl (Inner k v h s hs p l r) =
     (avl l \<and> avl r \<and> \<bar>height l - height r\<bar> \<le> 1 \<and> h = max (height l) (height r) + 1)"

fun sized :: "Node \<Rightarrow> bool" where
  "sized (Leaf k x v hs p) = True"
| "sized (Inner k v h s hs p l r) = (sized l \<and> sized r \<and> s = nsize l + nsize r)"

lemma leaves_nonempty [simp]: "leaves n \<noteq> []"
  by (induction n) auto

lemma minkey_leaves: "minkey n = fst (hd (leaves n))"
  by (induction n) auto

lemma minkey_in_keys [simp]: "minkey n \<in> fst ` set (leaves n)"
  by (induction n) auto

lemma bst_minkey: "bst n \<Longrightarrow> a \<in> set (keys n) \<Longrightarrow> minkey n \<le> a"
proof (induction n)
  case (Inner k v h s hs p l r)
  have "minkey l < k" using Inner.prems(1) minkey_in_keys[of l] by (auto simp del: minkey_in_keys)
  then show ?case using Inner by fastforce
qed simp

lemma bst_sorted: "bst n \<Longrightarrow> sorted_wrt (<) (keys n)"
proof (induction n)
  case (Inner k v h s hs p l r)
  then show ?case using bst_minkey[of r] by (fastforce simp: sorted_wrt_append)
qed simp

lemma sized_nsize: "sized n \<Longrightarrow> nsize n = int (length (leaves n))"
  by (induction n) auto

lemma avl_height_nonneg: "avl n \<Longrightarrow> 0 \<le> height n"
  by (induction n) auto

lemma avl_height_bound: "avl n \<Longrightarrow> 2 ^ (nat (height n) div 2) \<le> length (leaves n)"
proof (induction n)
  case (Inner k v h s hs p l r)
  let ?m = "min (nat (height l)) (nat (height r))"
  have "(2::nat) ^ (?m div 2) \<le> 2 ^ (nat (height l) div 2)"
    and "(2::nat) ^ (?m div 2) \<le> 2 ^ (nat (height r) div 2)"
    by (intro power_increasing div_le_mono; simp)+
  moreover have "2 ^ (nat (height l) div 2) \<le> length (leaves l)"
    and "2 ^ (nat (height r) div 2) \<le> length (leaves r)"
    using Inner by auto
  ultimately have ll: "2 ^ (?m div 2) \<le> length (leaves l)" and rr: "2 ^ (?m div 2) \<le> length (leaves r)"
    by (blast intro: le_trans)+
  have "nat h div 2 \<le> Suc (?m div 2)"
    using Inner.prems avl_height_nonneg[of l] avl_height_nonneg[of r] by auto
  then have "(2::nat) ^ (nat h div 2) \<le> 2 ^ Suc (?m div 2)"
    by (rule power_increasing) simp
  then show ?case using ll rr by simp
qed simp

lemma avl_height_lt: "avl n \<Longrightarrow> length (leaves n) < 2 ^ 63 \<Longrightarrow> height n \<le> 125"
proof (rule ccontr)
  assume a: "avl n" "length (leaves n) < 2 ^ 63" "\<not> height n \<le> 125"
  then have "63 \<le> nat (height n) div 2" by linarith
  then have "(2::nat) ^ 63 \<le> 2 ^ (nat (height n) div 2)" by (rule power_increasing) simp
  with avl_height_bound[OF a(1)] a(2) show False by linarith
qed

lemma has_iff: "bst n \<Longrightarrow> has n q \<longleftrightarrow> q \<in> set (keys n)"
proof (induction n)
  case (Inner k v h s hs p l r)
  then show ?case using bst_minkey[of r q] minkey_in_keys[of r]
    by (auto simp del: minkey_in_keys dest: leD)
qed auto

lemma map_of_none_keys: "q \<notin> set (map fst xs) \<Longrightarrow> map_of xs q = None"
  by (simp add: map_of_eq_None_iff)

lemma get_spec:
  "bst n \<Longrightarrow> sized n \<Longrightarrow> length (leaves n) < 2 ^ 63 \<Longrightarrow>
   get n q = (int (length (filter (\<lambda>e. fst e < q) (leaves n))), map_of (leaves n) q)"
proof (induction n)
  case (Inner k v h s hs p l r)
  show ?case
  proof (cases "q < k")
    case True
    have "\<And>a. a \<in> set (keys r) \<Longrightarrow> q < a"
      using Inner.prems(1) bst_minkey[of r] True by fastforce
    then have "filter (\<lambda>e. fst e < q) (leaves r) = []" "map_of (leaves r) q = None"
      by (auto simp: filter_empty_conv map_of_eq_None_iff dest: less_asym)
    with True Inner show ?thesis by (simp add: map_add_def split: option.split)
  next
    case False
    have "\<And>a. a \<in> set (keys l) \<Longrightarrow> a < q" using Inner.prems(1) False by fastforce
    then have f: "filter (\<lambda>e. fst e < q) (leaves l) = leaves l" and m: "map_of (leaves l) q = None"
      by (auto simp: filter_id_conv map_of_eq_None_iff)
    define c where "c = length (filter (\<lambda>e. fst e < q) (leaves r))"
    have "c \<le> length (leaves r)"
      unfolding c_def by simp
    with Inner.prems(3) have b: "swrap 64 (int c + int (length (leaves l))) = int c + int (length (leaves l))"
      and b2: "swrap 64 (int (length (leaves l))) = int (length (leaves l))"
      by (auto intro!: swrap64_id)
    have "get r q = (int c, map_of (leaves r) q)" "s - nsize r = int (length (leaves l))"
      using Inner by (auto simp: c_def sized_nsize)
    then show ?thesis using False f m by (simp add: b b2 map_add_def flip: c_def split: option.split)
  qed
qed auto

lemma getByIndex_spec:
  "sized n \<Longrightarrow> length (leaves n) < 2 ^ 63 \<Longrightarrow> - (2 ^ 63) \<le> i \<Longrightarrow> i < 2 ^ 63 \<Longrightarrow>
   getByIndex n i = (if 0 \<le> i \<and> i < int (length (leaves n)) then Some (leaves n ! nat i) else None)"
proof (induction n arbitrary: i)
  case (Inner k v h s hs p l r)
  show ?case
  proof (cases "i < nsize l")
    case True
    then show ?thesis using Inner by (auto simp: sized_nsize nth_append)
  next
    case False
    then have "swrap 64 (i - nsize l) = i - nsize l"
      using Inner.prems by (intro swrap64_id) (auto simp: sized_nsize)
    then show ?thesis using Inner False by (auto simp: sized_nsize nth_append nat_diff_distrib)
  qed
qed auto

fun nodes :: "Node \<Rightarrow> Node list" where
  "nodes (Leaf k x v hs p) = [Leaf k x v hs p]"
| "nodes (Inner k v h s hs p l r) = Inner k v h s hs p l r # nodes l @ nodes r"

definition pers :: "Node list \<Rightarrow> Node multiset" where
  "pers ns = filter_mset persisted (mset ns)"

lemma pers_simps [simp]:
  "pers [] = {#}"
  "pers (xs @ ys) = pers xs + pers ys"
  "pers (n # ns) = (if persisted n then add_mset n (pers ns) else pers ns)"
  by (simp_all add: pers_def)

definition mk :: "int \<Rightarrow> bytes \<Rightarrow> Node \<Rightarrow> Node \<Rightarrow> Node" where
  "mk ver k l r = Inner k ver (max (height l) (height r) + 1) (nsize l + nsize r) None False l r"

lemma mk_simps [simp]:
  "height (mk ver k l r) = max (height l) (height r) + 1"
  "nsize (mk ver k l r) = nsize l + nsize r"
  "leaves (mk ver k l r) = leaves l @ leaves r"
  "minkey (mk ver k l r) = minkey l"
  "persisted (mk ver k l r) = False"
  "pers (nodes (mk ver k l r)) = pers (nodes l) + pers (nodes r)"
  "avl (mk ver k l r) \<longleftrightarrow> avl l \<and> avl r \<and> \<bar>height l - height r\<bar> \<le> 1"
  "sized (mk ver k l r) \<longleftrightarrow> sized l \<and> sized r"
  "bst (mk ver k l r) \<longleftrightarrow> bst l \<and> bst r \<and> (\<forall>a \<in> set (keys l). a < k) \<and> k = minkey r"
  "leftNode (mk ver k l r) = l" "rightNode (mk ver k l r) = r"
  "calcBalance (mk ver k l r) = Inr (height l - height r)"
  "setLeftNode (mk ver k l r) l' = Inner k ver (max (height l) (height r) + 1) (nsize l + nsize r) None False l' r"
  "setRightNode (mk ver k l r) r' = Inner k ver (max (height l) (height r) + 1) (nsize l + nsize r) None False l r'"
  by (auto simp: mk_def)

definition fits :: "Node \<Rightarrow> Node \<Rightarrow> bool" where
  "fits l r \<longleftrightarrow> 0 \<le> height l \<and> 0 \<le> height r \<and> height l \<le> 126 \<and> height r \<le> 126
     \<and> 0 \<le> nsize l \<and> 0 \<le> nsize r \<and> nsize l + nsize r < 2 ^ 63"

lemma calc_mk:
  "fits l r \<Longrightarrow> calcHeightAndSize (Inner k ver h s None False l r) = mk ver k l r"
  by (auto simp: fits_def mk_def maxInt8_def max_def intro!: swrap8_id swrap64_id)

definition small :: "Node \<Rightarrow> bool" where
  "small n \<longleftrightarrow> avl n \<and> sized n"

lemma small_bounds:
  assumes "small n" "length (leaves n) < 2 ^ 63"
  shows "0 \<le> height n" "height n \<le> 125" "nsize n = int (length (leaves n))"
  using assms avl_height_nonneg avl_height_lt by (auto simp: small_def sized_nsize)

lemma fitsI:
  assumes "small l" "small r" "length (leaves l) + length (leaves r) < 2 ^ 63"
  shows "fits l r"
  using small_bounds[OF assms(1)] small_bounds[OF assms(2)] assms(3) by (auto simp: fits_def)

lemma minkey_less: "\<forall>a\<in>set (leaves n). fst a < x \<Longrightarrow> minkey n < x"
  by (induction n) auto

lemma rotateRight_Inner [simp]:
  "fits lr r \<Longrightarrow> fits ll (mk ver k lr r) \<Longrightarrow>
   rotateRight ver (Inner k v h s hs p (Inner lk lv lh ls lhs lp ll lr) r) =
     Inr (mk ver lk ll (mk ver k lr r), Inner lk lv lh ls lhs lp ll lr)"
  by (simp add: rotateRight_def calc_mk del: calcHeightAndSize.simps)

lemma rotateLeft_Inner [simp]:
  "fits l rl \<Longrightarrow> fits (mk ver k l rl) rr \<Longrightarrow>
   rotateLeft ver (Inner k v h s hs p l (Inner rk rv rh rs rhs rp rl rr)) =
     Inr (mk ver rk (mk ver k l rl) rr, Inner rk rv rh rs rhs rp rl rr)"
  by (simp add: rotateLeft_def calc_mk del: calcHeightAndSize.simps)

lemma rotateRight_mk:
  "fits lr r \<Longrightarrow> fits ll (mk ver k lr r) \<Longrightarrow>
   rotateRight ver (mk v k (Inner lk lv lh ls lhs lp ll lr) r) =
     Inr (mk ver lk ll (mk ver k lr r), Inner lk lv lh ls lhs lp ll lr)"
  unfolding mk_def[of v k] by simp

lemma rotateLeft_mk:
  "fits l rl \<Longrightarrow> fits (mk ver k l rl) rr \<Longrightarrow>
   rotateLeft ver (mk v k l (Inner rk rv rh rs rhs rp rl rr)) =
     Inr (mk ver rk (mk ver k l rl) rr, Inner rk rv rh rs rhs rp rl rr)"
  unfolding mk_def[of v k] by simp

lemma balance_none:
  assumes "\<bar>height l - height r\<bar> \<le> 1"
  shows "balance ver (mk ver k l r) = Inr (mk ver k l r, [])"
proof -
  have "\<not> 1 < height l - height r" "\<not> height l - height r < - 1" using assms by linarith+
  then show ?thesis by (simp add: balance_def)
qed

lemma small_Inner:
  "small (Inner k v h s hs p l r) \<longleftrightarrow> small l \<and> small r \<and> \<bar>height l - height r\<bar> \<le> 1 \<and>
     h = max (height l) (height r) + 1 \<and> s = nsize l + nsize r"
  by (auto simp: small_def)

lemma small_mk: "small (mk ver k l r) \<longleftrightarrow> small l \<and> small r \<and> \<bar>height l - height r\<bar> \<le> 1"
  by (auto simp: small_def)

definition bal_ok :: "int \<Rightarrow> bytes \<Rightarrow> Node \<Rightarrow> Node \<Rightarrow> Node \<Rightarrow> Node list \<Rightarrow> bool" where
  "bal_ok ver k l r n orph \<longleftrightarrow> balance ver (mk ver k l r) = Inr (n, orph) \<and> small n
     \<and> leaves n = leaves l @ leaves r \<and> minkey n = minkey l
     \<and> (bst (mk ver k l r) \<longrightarrow> bst n)
     \<and> (if \<bar>height l - height r\<bar> \<le> 1 then height n = max (height l) (height r) + 1
        else height n \<in> {max (height l) (height r), max (height l) (height r) + 1})
     \<and> persisted n = False
     \<and> pers (nodes n) + pers orph = pers (nodes l) + pers (nodes r)"

lemma bal_ok_height:
  "bal_ok ver k l r n orph \<Longrightarrow> height n = max (height l) (height r) + 1
     \<or> 1 < \<bar>height l - height r\<bar> \<and> height n = max (height l) (height r)"
  by (auto simp: bal_ok_def split: if_splits)

lemma height_left:
  assumes "(h::int) = max a' b + 1 \<or> 1 < \<bar>a' - b\<bar> \<and> h = max a' b" "\<bar>a - b\<bar> \<le> 1"
  shows "a' = a \<or> a' = a + 1 \<Longrightarrow> h = max a b + 1 \<or> h = max a b + 1 + 1"
    and "a' = a \<or> a' = a - 1 \<Longrightarrow> h = max a b + 1 \<or> h = max a b"
  using assms by linarith+

lemma height_right:
  assumes "(h::int) = max a b' + 1 \<or> 1 < \<bar>a - b'\<bar> \<and> h = max a b'" "\<bar>a - b\<bar> \<le> 1"
  shows "b' = b \<or> b' = b + 1 \<Longrightarrow> h = max a b + 1 \<or> h = max a b + 1 + 1"
    and "b' = b \<or> b' = b - 1 \<Longrightarrow> h = max a b + 1 \<or> h = max a b"
  using assms by linarith+

lemma balance_left:
  assumes s: "small l" "small r" and h: "height l = height r + 2"
    and len: "length (leaves l) + length (leaves r) < 2 ^ 63"
  shows "\<exists>n orph. bal_ok ver k l r n orph"
proof -
  from s h obtain lk lv lh ls lhs lp ll lr where l: "l = Inner lk lv lh ls lhs lp ll lr"
    by (cases l) (auto simp: small_def dest: avl_height_nonneg)
  have sl: "small ll" "small lr" "\<bar>height ll - height lr\<bar> \<le> 1" "lh = max (height ll) (height lr) + 1"
    using s l by (auto simp: small_def)
  note b = small_bounds[OF s(1)] small_bounds[OF s(2)] small_bounds[OF sl(1)] small_bounds[OF sl(2)]
  show ?thesis
  proof (cases "height lr \<le> height ll")
    case True
    let ?n = "mk ver lk ll (mk ver k lr r)"
    have f1: "fits lr r" and f2: "fits ll (mk ver k lr r)"
      using b l len sl s h True by (auto simp: fits_def)
    have "balance ver (mk ver k l r) = Inr (?n, [l])"
      using h True by (simp add: balance_def l rotateRight_mk f1 f2)
    then have "bal_ok ver k l r ?n [l]"
      using s sl h True unfolding bal_ok_def small_def l by auto
    then show ?thesis by blast
  next
    case False
    with sl b obtain mk' mv mh ms mhs mp ml mr where lr: "lr = Inner mk' mv mh ms mhs mp ml mr"
      by (cases lr) (auto simp: small_def dest: avl_height_nonneg)
    have sm: "small ml" "small mr" "\<bar>height ml - height mr\<bar> \<le> 1" "mh = max (height ml) (height mr) + 1"
      using sl lr by (auto simp: small_def)
    note b' = small_bounds[OF sm(1)] small_bounds[OF sm(2)]
    let ?n = "mk ver mk' (mk ver lk ll ml) (mk ver k mr r)"
    let ?lrot = "mk ver mk' (mk ver lk ll ml) mr"
    have n: "small (mk ver lk ll ml)" "small (mk ver k mr r)"
      unfolding small_mk using sl sm s h False l lr by auto
    have f: "fits ll ml" "fits (mk ver lk ll ml) mr" "fits mr r" "fits (mk ver lk ll ml) (mk ver k mr r)"
      using sl(1) sm(1,2) s(2) n len by (auto intro!: fitsI simp: l lr)
    have r2: "rotateRight ver (Inner k ver (max (height l) (height r) + 1) (nsize l + nsize r) None False ?lrot r) = Inr (?n, ?lrot)"
      unfolding mk_def[of ver mk' "mk ver lk ll ml" mr] using f by simp
    have "balance ver (mk ver k l r) = Inr (?n, [l, lr, ?lrot])"
      using h False f r2 by (simp add: balance_def l lr)
    moreover have "bst ?n" if "bst (mk ver k l r)"
    proof -
      have "minkey ml < minkey mr" using that by (auto simp: l lr dest: minkey_less)
      then show ?thesis using that by (auto simp: l lr intro: less_trans)
    qed
    ultimately have "bal_ok ver k l r ?n [l, lr, ?lrot]"
      using s sl sm h False unfolding bal_ok_def small_def by (auto simp: l lr simp del: bst.simps mk_simps(9))
    then show ?thesis by blast
  qed
qed


lemma balance_right:
  assumes s: "small l" "small r" and h: "height r = height l + 2"
    and len: "length (leaves l) + length (leaves r) < 2 ^ 63"
  shows "\<exists>n orph. bal_ok ver k l r n orph"
proof -
  from s h obtain rk rv rh rs rhs rp rl rr where r: "r = Inner rk rv rh rs rhs rp rl rr"
    by (cases r) (auto simp: small_def dest: avl_height_nonneg)
  have sr: "small rl" "small rr" "\<bar>height rl - height rr\<bar> \<le> 1" "rh = max (height rl) (height rr) + 1"
    using s r by (auto simp: small_def)
  note b = small_bounds[OF s(1)] small_bounds[OF s(2)] small_bounds[OF sr(1)] small_bounds[OF sr(2)]
  show ?thesis
  proof (cases "height rl \<le> height rr")
    case True
    let ?n = "mk ver rk (mk ver k l rl) rr"
    have f: "fits l rl" "fits (mk ver k l rl) rr"
      using b r len sr s h True by (auto simp: fits_def)
    have "balance ver (mk ver k l r) = Inr (?n, [r])"
      using h True by (simp add: balance_def r rotateLeft_mk f)
    moreover have "bst ?n" if "bst (mk ver k l r)"
      using that by (auto simp: r intro: less_trans dest: minkey_less)
    ultimately have "bal_ok ver k l r ?n [r]"
      using s sr h True unfolding bal_ok_def small_def by (auto simp: r simp del: bst.simps mk_simps(9))
    then show ?thesis by blast
  next
    case False
    with sr b obtain mk' mv mh ms mhs mp ml mr where rl: "rl = Inner mk' mv mh ms mhs mp ml mr"
      by (cases rl) (auto simp: small_def dest: avl_height_nonneg)
    have sm: "small ml" "small mr" "\<bar>height ml - height mr\<bar> \<le> 1" "mh = max (height ml) (height mr) + 1"
      using sr rl by (auto simp: small_def)
    note b' = small_bounds[OF sm(1)] small_bounds[OF sm(2)]
    let ?n = "mk ver mk' (mk ver k l ml) (mk ver rk mr rr)"
    let ?rrot = "mk ver mk' ml (mk ver rk mr rr)"
    have n: "small (mk ver rk mr rr)" "small (mk ver k l ml)"
      unfolding small_mk using sr sm s h False r rl by auto
    have f: "fits mr rr" "fits ml (mk ver rk mr rr)" "fits l ml" "fits (mk ver k l ml) (mk ver rk mr rr)"
      using sr(2) sm(1,2) s(1) n len by (auto intro!: fitsI simp: r rl)
    have r2: "rotateLeft ver (Inner k ver (max (height l) (height r) + 1) (nsize l + nsize r) None False l ?rrot) = Inr (?n, ?rrot)"
      unfolding mk_def[of ver mk' ml] using f by simp
    have "balance ver (mk ver k l r) = Inr (?n, [r, ?rrot, rl])"
      using h False f r2 by (simp add: balance_def r rl)
    moreover have "bst ?n" if "bst (mk ver k l r)"
    proof -
      have "minkey ml < minkey mr" using that by (auto simp: r rl dest: minkey_less)
      then show ?thesis using that by (auto simp: r rl intro: less_trans)
    qed
    ultimately have "bal_ok ver k l r ?n [r, ?rrot, rl]"
      using s sr sm h False unfolding bal_ok_def small_def by (auto simp: r rl simp del: bst.simps mk_simps(9))
    then show ?thesis by blast
  qed
qed

lemma balance_ok:
  assumes "small l" "small r" "\<bar>height l - height r\<bar> \<le> 2"
    and "length (leaves l) + length (leaves r) < 2 ^ 63"
  obtains n orph where "bal_ok ver k l r n orph"
proof -
  consider "\<bar>height l - height r\<bar> \<le> 1" | "height l = height r + 2" | "height r = height l + 2"
    using assms(3) by linarith
  then have "\<exists>n orph. bal_ok ver k l r n orph"
  proof cases
    case 1
    then have "bal_ok ver k l r (mk ver k l r) []"
      using assms by (auto simp: bal_ok_def balance_none small_def)
    then show ?thesis by blast
  qed (use assms balance_left balance_right in blast)+
  then show ?thesis using that by blast
qed

end
