(* ===== verification/Iavl_Correct.thy ===== *)
theory Iavl_Correct
  imports Iavl_Invariants
begin

text \<open>
  Correctness of the IAVL tree operations: \<open>Set\<close>, \<open>Remove\<close>, \<open>Get\<close>, \<open>Has\<close>, \<open>GetByIndex\<close> and the
  iterators against the sorted list of the tree's entries.
\<close>

subsection \<open>Insertion\<close>

definition good :: "Node \<Rightarrow> bool" where
  "good n \<longleftrightarrow> small n \<and> bst n"

definition set_ok :: "int \<Rightarrow> Node \<Rightarrow> bytes \<Rightarrow> bytes \<Rightarrow> Node \<Rightarrow> bool \<Rightarrow> Node list \<Rightarrow> bool" where
  "set_ok ver n q y n' upd orph \<longleftrightarrow> recursiveSet ver n q y = Inr (n', upd, orph)
     \<and> good n' \<and> leaves n' = kput q y (leaves n)
     \<and> (upd \<longleftrightarrow> q \<in> set (keys n)) \<and> minkey n' = min q (minkey n)
     \<and> height n' \<in> {height n, height n + 1} \<and> (upd \<longrightarrow> height n' = height n)
     \<and> pers (nodes n') + pers orph = pers (nodes n)"

lemma rebalance:
  assumes "small l" "small r" "\<bar>height l - height r\<bar> \<le> 2"
    and "length (leaves l) + length (leaves r) < 2 ^ 63"
  obtains n orph where "balance ver (calcHeightAndSize (Inner k ver h s None False l r)) = Inr (n, orph)"
    and "bal_ok ver k l r n orph"
proof -
  obtain n orph where ok: "bal_ok ver k l r n orph" using balance_ok[OF assms] .
  moreover have "balance ver (calcHeightAndSize (Inner k ver h s None False l r)) = Inr (n, orph)"
    using ok calc_mk[OF fitsI[OF assms(1,2,4)]] by (simp add: bal_ok_def)
  ultimately show ?thesis using that by blast
qed

lemma nsize_kput:
  assumes "small n" "small n'" "bst n" "leaves n' = kput q y (leaves n)" "q \<in> set (keys n)"
  shows "nsize n' = nsize n"
  using assms length_kput_mem[OF bst_sorted[OF assms(3)], of q y]
  by (simp add: small_def sized_nsize)

lemma pers_combine:
  assumes "a + c = b + d" "b + e = f"
  shows "a + (e + c) = f + (d :: 'a multiset)" "a + (e + c) = d + f"
proof -
  have "a + (e + c) = (a + c) + e" by (simp add: ac_simps)
  also have "\<dots> = (b + e) + d" by (simp add: assms(1) ac_simps)
  finally show "a + (e + c) = f + d" "a + (e + c) = d + f" by (simp_all add: assms(2) ac_simps)
qed

lemma good_InnerD:
  assumes "good (Inner k v h s hs p l r)"
  shows "small l" "small r" "bst l" "bst r" "good l" "good r"
    and "h = max (height l) (height r) + 1" "s = nsize l + nsize r" "\<bar>height l - height r\<bar> \<le> 1"
    and "\<forall>a \<in> set (keys l). a < k" "k = minkey r"
    and "\<forall>a \<in> set (keys r). k \<le> a" "minkey l < k" "0 \<le> height l" "0 \<le> height r"
  using assms bst_minkey[of r]
  by (auto simp: good_def small_def intro: minkey_less avl_height_nonneg)

lemma set_left_update:
  assumes n: "good (Inner k v h s hs p l r)" and q: "q < k" and ok: "set_ok ver l q y l' True lo"
  shows "set_ok ver (Inner k v h s hs p l r) q y (mk ver k l' r) True (Inner k v h s hs p l r # lo)"
proof -
  note d = good_InnerD[OF n] and okd = ok[unfolded set_ok_def good_def]
  have kp: "kput q y (leaves l @ leaves r) = kput q y (leaves l) @ leaves r"
    using d(12) q by (intro kput_append1) fastforce
  have lk: "\<forall>a \<in> set (keys l'). a < k" using okd d(10) q by (auto simp: set_keys_kput)
  have "recursiveSet ver (Inner k v h s hs p l r) q y
      = Inr (mk ver k l' r, True, Inner k v h s hs p l r # lo)"
    using okd d nsize_kput[of l l' q y] q by (simp add: mk_def)
  then show ?thesis
    using okd d kp lk by (auto simp: set_ok_def good_def small_mk)
qed

lemma set_left_insert:
  assumes n: "good (Inner k v h s hs p l r)" and q: "q < k" and ok: "set_ok ver l q y l' False lo"
    and len: "length (leaves l) + length (leaves r) + 1 < 2 ^ 63"
  shows "\<exists>n' orph. set_ok ver (Inner k v h s hs p l r) q y n' False orph"
proof -
  let ?n = "Inner k v h s hs p l r"
  note d = good_InnerD[OF n] and okd = ok[unfolded set_ok_def good_def]
  have kp: "kput q y (leaves l @ leaves r) = kput q y (leaves l) @ leaves r"
    using d(12) q by (intro kput_append1) fastforce
  have rk: "q \<notin> set (keys r)" using d(12) q by fastforce
  have lk: "\<forall>a \<in> set (keys l'). a < k" using okd d(10) q by (auto simp: set_keys_kput)
  have "length (leaves l') + length (leaves r) < 2 ^ 63"
    using okd len length_kput_le[of q y "leaves l"] by simp
  moreover have "\<bar>height l' - height r\<bar> \<le> 2" using okd d by auto
  ultimately obtain n' orph where
    bal: "balance ver (calcHeightAndSize (Inner k ver h s None False l' r)) = Inr (n', orph)"
    and bok: "bal_ok ver k l' r n' orph"
    using rebalance[of l' r] okd d by blast
  note bokd = bok[unfolded bal_ok_def]
  have "recursiveSet ver ?n q y = Inr (n', False, (?n # lo) @ orph)"
    using q okd bal by simp
  moreover have "bst n'" using bokd okd d lk by simp
  moreover have "height n' \<in> {h, h + 1}"
    using height_left(1)[OF bal_ok_height[OF bok] d(9)] okd d(7) by blast
  moreover have "pers (nodes n') + (pers lo + pers orph) = pers (nodes l) + pers (nodes r)"
    using bokd okd by (blast intro: pers_combine)
  ultimately have "set_ok ver ?n q y n' False ((?n # lo) @ orph)"
    using bokd okd kp rk by (auto simp: set_ok_def good_def simp del: recursiveSet.simps)
  then show ?thesis by blast
qed

lemma set_right_update:
  assumes n: "good (Inner k v h s hs p l r)" and nq: "\<not> q < k" and ok: "set_ok ver r q y r' True ro"
  shows "set_ok ver (Inner k v h s hs p l r) q y (mk ver k l r') True (Inner k v h s hs p l r # ro)"
proof -
  note d = good_InnerD[OF n] and okd = ok[unfolded set_ok_def good_def]
  have q: "k \<le> q" using nq by simp
  have kp: "kput q y (leaves l @ leaves r) = leaves l @ kput q y (leaves r)"
    using d(10) q by (intro kput_append2) fastforce
  have mr: "minkey r' = k" using okd d(11) q by simp
  have ml: "min q (minkey l) = minkey l" using d(13) q by (auto simp: min_def)
  have "recursiveSet ver (Inner k v h s hs p l r) q y
      = Inr (mk ver k l r', True, Inner k v h s hs p l r # ro)"
    using okd d nsize_kput[of r r' q y] nq by (simp add: mk_def)
  then show ?thesis
    using okd d kp mr ml by (auto simp: set_ok_def good_def small_mk)
qed

lemma set_right_insert:
  assumes n: "good (Inner k v h s hs p l r)" and nq: "\<not> q < k" and ok: "set_ok ver r q y r' False ro"
    and len: "length (leaves l) + length (leaves r) + 1 < 2 ^ 63"
  shows "\<exists>n' orph. set_ok ver (Inner k v h s hs p l r) q y n' False orph"
proof -
  let ?n = "Inner k v h s hs p l r"
  note d = good_InnerD[OF n] and okd = ok[unfolded set_ok_def good_def]
  have q: "k \<le> q" using nq by simp
  have kp: "kput q y (leaves l @ leaves r) = leaves l @ kput q y (leaves r)"
    using d(10) q by (intro kput_append2) fastforce
  have rk: "q \<notin> set (keys l)" using d(10) q by fastforce
  have mr: "minkey r' = k" using okd d(11) q by simp
  have ml: "min q (minkey l) = minkey l" using d(13) q by (auto simp: min_def)
  have "length (leaves l) + length (leaves r') < 2 ^ 63"
    using okd len length_kput_le[of q y "leaves r"] by simp
  moreover have "\<bar>height l - height r'\<bar> \<le> 2" using okd d by auto
  ultimately obtain n' orph where
    bal: "balance ver (calcHeightAndSize (Inner k ver h s None False l r')) = Inr (n', orph)"
    and bok: "bal_ok ver k l r' n' orph"
    using rebalance[of l r'] okd d by blast
  note bokd = bok[unfolded bal_ok_def]
  have "recursiveSet ver ?n q y = Inr (n', False, (?n # ro) @ orph)"
    using nq okd bal by simp
  moreover have "bst n'" using bokd okd d mr by simp
  moreover have "height n' \<in> {h, h + 1}"
    using height_right(1)[OF bal_ok_height[OF bok] d(9)] okd d(7) by blast
  moreover have "pers (nodes n') + (pers ro + pers orph) = pers (nodes l) + pers (nodes r)"
    using bokd okd by (intro pers_combine(2)[of _ _ "pers (nodes r')"]) (auto simp: add.commute)
  ultimately have "set_ok ver ?n q y n' False ((?n # ro) @ orph)"
    using bokd okd kp rk ml by (auto simp: set_ok_def good_def simp del: recursiveSet.simps)
  then show ?thesis by blast
qed

lemma recursiveSet_ok:
  assumes "good n" "length (leaves n) + 1 < 2 ^ 63"
  shows "\<exists>n' upd orph. set_ok ver n q y n' upd orph"
  using assms
proof (induction n)
  case (Leaf k x v hs p)
  then show ?case
    by (cases q k rule: linorder_cases)
       (auto simp: set_ok_def NewNode_def good_def small_def kput_def min_def)
next
  case (Inner k v h s hs p l r)
  note d = good_InnerD[OF Inner.prems(1)]
  have len: "length (leaves l) + length (leaves r) + 1 < 2 ^ 63" using Inner.prems(2) by simp
  show ?case
  proof (cases "q < k")
    case True
    with Inner.IH(1) d len obtain l' upd lo where "set_ok ver l q y l' upd lo" by auto
    then show ?thesis
      using set_left_update[OF Inner.prems(1) True] set_left_insert[OF Inner.prems(1) True _ len]
      by (cases upd) (simp, blast)+
  next
    case False
    from Inner.IH(2) d len obtain r' upd ro where "set_ok ver r q y r' upd ro" by auto
    then show ?thesis
      using set_right_update[OF Inner.prems(1) False] set_right_insert[OF Inner.prems(1) False _ len]
      by (cases upd) (simp, blast)+
  qed
qed

subsection \<open>Removal\<close>

text \<open>The inner node above the leaf a search for \<open>q\<close> ends in.\<close>

fun parent :: "Node \<Rightarrow> bytes \<Rightarrow> Node option" where
  "parent (Leaf k x v hs p) q = None"
| "parent (Inner k v h s hs p l r) q =
     (let c = (if q < k then l else r) in if isLeaf c then Some (Inner k v h s hs p l r) else parent c q)"

fun children :: "Node \<Rightarrow> Node list" where
  "children (Leaf k x v hs p) = []"
| "children (Inner k v h s hs p l r) = [l, r]"

definition lost :: "Node \<Rightarrow> bytes \<Rightarrow> Node \<Rightarrow> Node list \<Rightarrow> bool" where
  "lost n q n' orph \<longleftrightarrow> (\<exists>d. parent n q = Some d \<and> pers (nodes n') + pers orph + pers [d] = pers (nodes n))"

definition del_ok :: "int \<Rightarrow> Node \<Rightarrow> bytes \<Rightarrow> Node \<Rightarrow> bytes option \<Rightarrow> Node list \<Rightarrow> bool" where
  "del_ok ver n q n' newKey orph \<longleftrightarrow>
     recursiveRemove ver n q = Inr (Some n', newKey, map_of (leaves n) q, orph) \<and> orph \<noteq> []
     \<and> good n' \<and> leaves n' = kdel q (leaves n) \<and> height n' \<in> {height n, height n - 1}
     \<and> newKey = (if q = minkey n then Some (minkey n') else None)
     \<and> (q \<noteq> minkey n \<longrightarrow> minkey n' = minkey n) \<and> lost n q n' orph"

lemma lost_here:
  assumes "pers orph = pers (nodes l)" "q < k" "isLeaf l" shows "lost (Inner k v h s hs p l r) q r orph"
  unfolding lost_def using assms by (auto simp: ac_simps)

lemma lost_here_sym:
  assumes "pers orph = pers (nodes r)" "\<not> q < k" "isLeaf r" shows "lost (Inner k v h s hs p l r) q l orph"
  unfolding lost_def using assms by (auto simp: ac_simps)

lemma pers_combine3:
  assumes "a + c = b + d" "b + e + x = (f :: 'a multiset)"
  shows "a + (e + y + c) + x = y + (f + d)"
proof -
  have "a + (e + y + c) + x = (a + c) + (e + x + y)" by (simp add: ac_simps)
  also have "\<dots> = (b + d) + (e + x + y)" by (simp only: assms(1))
  also have "\<dots> = (b + e + x) + (y + d)" by (simp add: ac_simps)
  also have "\<dots> = f + (y + d)" by (simp only: assms(2))
  finally show ?thesis by (simp add: ac_simps)
qed

lemma pers_Inner: "pers (nodes (Inner k v h s hs p l r)) =
    pers [Inner k v h s hs p l r] + (pers (nodes l) + pers (nodes r))"
  by simp

lemma parent_nonleaf: "parent n q = Some d \<Longrightarrow> \<not> isLeaf n"
  by (cases n) auto

lemma lost_left:
  assumes "lost l q l' lo" "pers (nodes n') + pers orph = pers (nodes l') + pers (nodes r)" "q < k"
  shows "lost (Inner k v h s hs p l r) q n' ((lo @ [Inner k v h s hs p l r]) @ orph)"
proof -
  obtain d where d: "parent l q = Some d" "pers (nodes l') + pers lo + pers [d] = pers (nodes l)"
    using assms(1) by (auto simp: lost_def)
  have "pers (nodes n') + pers ((lo @ [Inner k v h s hs p l r]) @ orph) + pers [d]
      = pers (nodes (Inner k v h s hs p l r))"
    unfolding pers_Inner pers_simps(2) using assms(2) d(2) by (rule pers_combine3)
  with d(1) assms(3) show ?thesis unfolding lost_def by (intro exI[of _ d]) (simp add: parent_nonleaf)
qed

lemma lost_right:
  assumes "lost r q r' ro" "pers (nodes n') + pers orph = pers (nodes l) + pers (nodes r')" "\<not> q < k"
  shows "lost (Inner k v h s hs p l r) q n' ((ro @ [Inner k v h s hs p l r]) @ orph)"
proof -
  obtain d where d: "parent r q = Some d" "pers (nodes r') + pers ro + pers [d] = pers (nodes r)"
    using assms(1) by (auto simp: lost_def)
  have "pers (nodes n') + pers ((ro @ [Inner k v h s hs p l r]) @ orph) + pers [d]
      = pers (nodes (Inner k v h s hs p l r))"
    unfolding pers_Inner pers_simps(2) add.commute[of "pers (nodes l)"]
    using assms(2)[unfolded add.commute[of "pers (nodes l)"]] d(2) by (rule pers_combine3)
  with d(1) assms(3) show ?thesis unfolding lost_def by (intro exI[of _ d]) (simp add: parent_nonleaf)
qed

lemma isLeaf_leaf:
  "isLeaf n \<Longrightarrow> q \<in> set (keys n) \<Longrightarrow> kdel q (leaves n) = [] \<and> height n = 0 \<and> minkey n = q
     \<and> recursiveRemove ver n q = Inr (None, None, map_of (leaves n) q, nodes n)"
  by (cases n) (auto simp: kdel_def)

lemma recursiveRemove_absent:
  "good n \<Longrightarrow> q \<notin> set (keys n) \<Longrightarrow> recursiveRemove ver n q = Inr (Some n, None, None, [])"
  by (induction n) (auto simp: good_def small_def)

lemma del_left_leaf:
  assumes n: "good (Inner k v h s hs p l r)" and q: "q < k" "q \<in> set (keys l)" "isLeaf l"
  shows "del_ok ver (Inner k v h s hs p l r) q r (Some k) (nodes l)"
proof -
  note d = good_InnerD[OF n]
  have rk: "q \<notin> fst ` set (leaves r)" using d(12) q(1) by fastforce
  have ll: "kdel q (leaves l) = []" "height l = 0" "minkey l = q"
      "recursiveRemove ver l q = Inr (None, None, map_of (leaves l) q, nodes l)"
    using isLeaf_leaf[OF q(3,2)] by auto
  have "nodes l \<noteq> []" by (cases l) auto
  then show ?thesis
    using ll d q rk lost_here[OF refl q(1,3)]
    by (auto simp: del_ok_def kdel_append kdel_notin map_of_append_left simp del: map_of_append)
qed

lemma del_right_leaf:
  assumes n: "good (Inner k v h s hs p l r)" and q: "\<not> q < k" "q \<in> set (keys r)" "isLeaf r"
  shows "del_ok ver (Inner k v h s hs p l r) q l None (nodes r)"
proof -
  note d = good_InnerD[OF n]
  have lk: "q \<notin> fst ` set (leaves l)" using d(10) q(1) by fastforce
  have ll: "kdel q (leaves r) = []" "height r = 0" "minkey r = q"
      "recursiveRemove ver r q = Inr (None, None, map_of (leaves r) q, nodes r)"
    using isLeaf_leaf[OF q(3,2)] by auto
  have "nodes r \<noteq> []" by (cases r) auto
  then show ?thesis
    using ll d q lk lost_here_sym[OF refl q(1,3)]
    by (auto simp: del_ok_def kdel_append kdel_notin map_of_append_right simp del: map_of_append)
qed

lemma del_left:
  assumes n: "good (Inner k v h s hs p l r)" and q: "q < k" and ok: "del_ok ver l q l' nk lo"
    and len: "length (leaves l) + length (leaves r) < 2 ^ 63"
  shows "\<exists>n' orph. del_ok ver (Inner k v h s hs p l r) q n' nk orph"
proof -
  let ?n = "Inner k v h s hs p l r"
  note d = good_InnerD[OF n] and okd = ok[unfolded del_ok_def good_def]
  have rk: "q \<notin> fst ` set (leaves r)" using d(12) q(1) by fastforce
  have "length (leaves l') + length (leaves r) < 2 ^ 63"
    using okd len length_kdel_le[of q "leaves l"] by simp
  moreover have "\<bar>height l' - height r\<bar> \<le> 2" using okd d by auto
  ultimately obtain n' orph where
    bal: "balance ver (calcHeightAndSize (Inner k ver h s None False l' r)) = Inr (n', orph)"
    and bok: "bal_ok ver k l' r n' orph"
    using rebalance[of l' r] okd d by blast
  note bokd = bok[unfolded bal_ok_def]
  have "recursiveRemove ver ?n q = Inr (Some n', nk, map_of (leaves l) q, (lo @ [?n]) @ orph)"
    using okd q bal by simp
  moreover have "good n'" using bokd okd d by (auto simp: good_def kdel_def)
  moreover have "height n' \<in> {h, h - 1}"
    using height_left(2)[OF bal_ok_height[OF bok] d(9)] okd d(7) by fastforce
  moreover have "lost ?n q n' ((lo @ [?n]) @ orph)" using okd bokd q by (intro lost_left) auto
  ultimately have "del_ok ver ?n q n' nk ((lo @ [?n]) @ orph)"
    using okd bokd rk unfolding del_ok_def
    by (auto simp: kdel_append kdel_notin map_of_append_left
          simp del: map_of_append recursiveRemove.simps)
  then show ?thesis by blast
qed

lemma del_right:
  assumes n: "good (Inner k v h s hs p l r)" and q: "\<not> q < k" and ok: "del_ok ver r q r' nk ro"
    and len: "length (leaves l) + length (leaves r) < 2 ^ 63"
  shows "\<exists>n' orph. del_ok ver (Inner k v h s hs p l r) q n' None orph"
proof -
  let ?n = "Inner k v h s hs p l r" and ?k = "minkey r'"
  note d = good_InnerD[OF n] and okd = ok[unfolded del_ok_def good_def]
  have lk: "q \<notin> fst ` set (leaves l)" "q \<noteq> minkey l" using d(10,13) q by fastforce+
  have "length (leaves l) + length (leaves r') < 2 ^ 63"
    using okd len length_kdel_le[of q "leaves r"] by simp
  moreover have "\<bar>height l - height r'\<bar> \<le> 2" using okd d by auto
  ultimately obtain n' orph where
    bal: "balance ver (calcHeightAndSize (Inner ?k ver h s None False l r')) = Inr (n', orph)"
    and bok: "bal_ok ver ?k l r' n' orph"
    using rebalance[of l r'] okd d by blast
  note bokd = bok[unfolded bal_ok_def]
  have "recursiveRemove ver ?n q = Inr (Some n', None, map_of (leaves r) q, (ro @ [?n]) @ orph)"
    using okd q bal d(11) by (cases "q = minkey r") simp_all
  moreover have "k \<le> ?k" using d(12) okd minkey_in_keys[of r'] by (auto simp: kdel_def)
  then have "good n'" using bokd okd d by (auto simp: good_def intro: less_le_trans)
  moreover have "height n' \<in> {h, h - 1}"
    using height_right(2)[OF bal_ok_height[OF bok] d(9)] okd d(7) by fastforce
  moreover have "lost ?n q n' ((ro @ [?n]) @ orph)" using okd bokd q by (intro lost_right) auto
  ultimately have "del_ok ver ?n q n' None ((ro @ [?n]) @ orph)"
    using okd bokd lk unfolding del_ok_def
    by (auto simp: kdel_append kdel_notin map_of_append_right
          simp del: map_of_append recursiveRemove.simps)
  then show ?thesis by blast
qed

lemma recursiveRemove_ok:
  assumes "good n" "length (leaves n) < 2 ^ 63" "q \<in> set (keys n)" "\<not> isLeaf n"
  shows "\<exists>n' newKey orph. del_ok ver n q n' newKey orph"
  using assms
proof (induction n)
  case (Inner k v h s hs p l r)
  note d = good_InnerD[OF Inner.prems(1)]
  have len: "length (leaves l) + length (leaves r) < 2 ^ 63"
      "length (leaves l) < 2 ^ 63" "length (leaves r) < 2 ^ 63" using Inner.prems(2) by simp_all
  show ?case
  proof (cases "q < k")
    case True
    then have "q \<in> set (keys l)" using Inner.prems(3) d(12) by fastforce
    then show ?thesis
      using Inner.IH(1)[OF d(5) len(2)] del_left[OF Inner.prems(1) True _ len(1)]
        del_left_leaf[OF Inner.prems(1) True] by blast
  next
    case False
    then have "q \<in> set (keys r)" using Inner.prems(3) d(10) by fastforce
    then show ?thesis
      using Inner.IH(2)[OF d(6) len(3)] del_right[OF Inner.prems(1) False _ len(1)]
        del_right_leaf[OF Inner.prems(1) False] by blast
  qed
qed simp

subsection \<open>Traversal\<close>

definition in_range :: "bytes option \<Rightarrow> bytes option \<Rightarrow> bool \<Rightarrow> bytes \<Rightarrow> bool" where
  "in_range start end incl k \<longleftrightarrow> (case start of None \<Rightarrow> True | Some a \<Rightarrow> a \<le> k) \<and>
     (case end of None \<Rightarrow> True | Some b \<Rightarrow> if incl then k \<le> b else k < b)"

fun vleaves :: "Node \<Rightarrow> (bytes \<times> bytes \<times> int) list" where
  "vleaves (Leaf k x v hs p) = [(k, x, v)]"
| "vleaves (Inner k v h s hs p l r) = vleaves l @ vleaves r"

lemma vleaves_leaves: "map (\<lambda>(k, x, v). (k, x)) (vleaves n) = leaves n"
  by (induction n) auto

lemma vleaves_keys: "fst ` set (vleaves n) = fst ` set (leaves n)"
  by (induction n) auto

lemma skip_left:
  assumes "good (Inner k v h s hs p l r)" "a \<ge> k"
  shows "filter (\<lambda>e. in_range (Some a) end incl (fst e)) (vleaves l) = []"
proof -
  have "\<forall>e \<in> set (vleaves l). fst e < k"
    using good_InnerD(10)[OF assms(1)] vleaves_keys[of l] by force
  then show ?thesis using assms(2) by (fastforce simp: filter_empty_conv in_range_def)
qed

lemma skip_right:
  assumes "good (Inner k v h s hs p l r)" "\<not> (if incl then k \<le> b else k < b)"
  shows "filter (\<lambda>e. in_range start (Some b) incl (fst e)) (vleaves r) = []"
proof -
  have "\<forall>e \<in> set (vleaves r). k \<le> fst e"
    using good_InnerD(12)[OF assms(1)] vleaves_keys[of r] by force
  then show ?thesis using assms(2) by (fastforce simp: filter_empty_conv in_range_def split: if_splits)
qed

lemma traverseInRange_visit:
  assumes "good n"
  shows "traverseInRange start end asc incl (\<lambda>n d. leaf_cb fn n) n depth st
    = visit (\<lambda>k (x, v). fn k x v)
        (ordered asc (filter (\<lambda>e. in_range start end incl (fst e)) (vleaves n))) st"
  using assms
proof (induction n arbitrary: depth st)
  case (Leaf k x v hs p)
  then show ?case by (auto simp: in_range_def ordered_def Let_def split: option.splits simp del: visit.simps(2))
next
  case (Inner k v h s hs p l r)
  note IH = Inner.IH(1)[OF good_InnerD(5)[OF Inner.prems]] Inner.IH(2)[OF good_InnerD(6)[OF Inner.prems]]
  let ?V = "\<lambda>n. visit (\<lambda>k (x, v). fn k x v)
        (ordered asc (filter (\<lambda>e. in_range start end incl (fst e)) (vleaves n)))"
  have l: "(if (case start of None \<Rightarrow> True | Some a \<Rightarrow> a < k)
      then traverseInRange start end asc incl (\<lambda>n d. leaf_cb fn n) l (depth + 1) st
      else (False, st)) = ?V l st" for st
    using skip_left[OF Inner.prems] by (auto simp: IH(1) ordered_def split: option.split)
  have r: "(if (case end of None \<Rightarrow> True | Some b \<Rightarrow> if incl then k \<le> b else k < b)
      then traverseInRange start end asc incl (\<lambda>n d. leaf_cb fn n) r (depth + 1) st
      else (False, st)) = ?V r st" for st
    using skip_right[OF Inner.prems] by (auto simp: IH(2) ordered_def split: option.split)
  have "?V (Inner k v h s hs p l r) st = (if asc
      then (let (stop, st') = ?V l st in if stop then (True, st') else ?V r st')
      else (let (stop, st') = ?V r st in if stop then (True, st') else ?V l st'))"
    by (simp add: ordered_append visit_append split: prod.split)
  then show ?case by (simp only: traverseInRange.simps leaf_cb.simps Let_def l r prod.case if_False)
qed

subsection \<open>The tree\<close>

lemma MutableTree_root_simps [simp]:
  "lastSaved (t\<lparr>root := x\<rparr>) = lastSaved t" "orphans (t\<lparr>root := x\<rparr>) = orphans t"
  by (cases t; simp)+

definition entries :: "'a ImmutableTree_scheme \<Rightarrow> (bytes \<times> bytes) list" where
  "entries t = (case root t of None \<Rightarrow> [] | Some n \<Rightarrow> leaves n)"

definition tree_nodes :: "'a ImmutableTree_scheme \<Rightarrow> Node list" where
  "tree_nodes t = (case root t of None \<Rightarrow> [] | Some n \<Rightarrow> nodes n)"

definition hashed :: "Node list \<Rightarrow> bool" where
  "hashed ns \<longleftrightarrow> (\<forall>d \<in> set ns. persisted d \<longrightarrow> (\<exists>h. hash d = Some h \<and> h \<noteq> []))"

definition tree_ok :: "'a ImmutableTree_scheme \<Rightarrow> bool" where
  "tree_ok t \<longleftrightarrow> (case root t of None \<Rightarrow> True | Some n \<Rightarrow> good n) \<and> hashed (tree_nodes t)"

lemma hashed_pers: "hashed ns \<longleftrightarrow> (\<forall>d \<in># pers ns. \<exists>h. hash d = Some h \<and> h \<noteq> [])"
  by (auto simp: hashed_def pers_def)

lemma hashed_mono: "pers ms \<subseteq># pers ns \<Longrightarrow> hashed ns \<Longrightarrow> hashed ms"
  by (auto simp: hashed_pers dest: mset_subset_eqD)

fun note_orphans :: "(bytes \<rightharpoonup> int) \<Rightarrow> Node list \<Rightarrow> (bytes \<rightharpoonup> int)" where
  "note_orphans m [] = m"
| "note_orphans m (n # ns) =
     note_orphans (if persisted n then m(the (hash n) \<mapsto> version n) else m) ns"

lemma addOrphans_ok:
  "hashed ns \<Longrightarrow> addOrphans t ns = Inr (t\<lparr>orphans := note_orphans (orphans t) ns\<rparr>)"
  by (induction ns arbitrary: t) (auto simp: hashed_def)

lemma orphan_hashed: "pers xs + pers ys = pers zs \<Longrightarrow> hashed zs \<Longrightarrow> hashed xs \<and> hashed ys"
  by (metis hashed_mono mset_subset_eq_add_left mset_subset_eq_add_right)

lemma set_tree_ok:
  assumes "tree_ok t" "length (entries t) + 1 < 2 ^ 63"
  shows "\<exists>t' orph upd. set_tree t k (Some y) = Inr (t', orph, upd) \<and> tree_ok t'
     \<and> entries t' = kput k y (entries t) \<and> (upd \<longleftrightarrow> k \<in> fst ` set (entries t))
     \<and> pers (tree_nodes t') + pers orph = pers (tree_nodes t)
     \<and> tversion t' = tversion t \<and> lastSaved t' = lastSaved t \<and> orphans t' = orphans t"
proof (cases "root t")
  case None
  then show ?thesis
    by (auto simp: set_tree_def tree_ok_def entries_def tree_nodes_def NewNode_def good_def small_def
        kput_def hashed_def)
next
  case (Some n)
  with assms have "good n" "length (leaves n) + 1 < 2 ^ 63" by (auto simp: tree_ok_def entries_def)
  from recursiveSet_ok[OF this] obtain n' upd orph
    where ok: "set_ok (swrap 64 (tversion t + 1)) n k y n' upd orph" by blast
  have "hashed (nodes n')"
    using ok assms(1) Some orphan_hashed[of "nodes n'" orph "nodes n"]
    by (auto simp: set_ok_def tree_ok_def tree_nodes_def)
  then show ?thesis
    using ok Some by (auto simp: set_ok_def set_tree_def tree_ok_def entries_def tree_nodes_def)
qed

lemma good_keys:
  "tree_ok t \<Longrightarrow> sorted_wrt (<) (map fst (entries t))"
  by (auto simp: tree_ok_def entries_def good_def bst_sorted split: option.splits)

lemma remove_absent:
  assumes "tree_ok t" "k \<notin> fst ` set (entries t)"
  shows "remove t k = Inr (t, None, [], False)"
  using assms recursiveRemove_absent
  by (auto simp: remove_def tree_ok_def entries_def split: option.splits)

definition parentOf :: "'a ImmutableTree_scheme \<Rightarrow> bytes \<Rightarrow> Node option" where
  "parentOf t k = (case root t of None \<Rightarrow> None | Some n \<Rightarrow> parent n k)"

lemma remove_present:
  assumes "tree_ok t" "length (entries t) < 2 ^ 63" "k \<in> fst ` set (entries t)"
  shows "\<exists>t' orph. remove t k = Inr (t', map_of (entries t) k, orph, True) \<and> tree_ok t'
     \<and> entries t' = kdel k (entries t)
     \<and> (if length (entries t) = 1 then pers (tree_nodes t') + pers orph = pers (tree_nodes t)
        else \<exists>d. parentOf t k = Some d \<and> pers (tree_nodes t') + pers orph + pers [d] = pers (tree_nodes t))
     \<and> hashed orph
     \<and> tversion t' = tversion t \<and> lastSaved t' = lastSaved t \<and> orphans t' = orphans t"
proof -
  obtain n where n: "root t = Some n" "good n" "length (leaves n) < 2 ^ 63" "k \<in> set (keys n)"
      "hashed (nodes n)"
    using assms by (auto simp: tree_ok_def entries_def tree_nodes_def split: option.splits)
  show ?thesis
  proof (cases "isLeaf n")
    case True
    then show ?thesis using n assms
      by (cases n) (auto simp: remove_def tree_ok_def entries_def tree_nodes_def hashed_def kdel_def)
  next
    case False
    then obtain n' nk orph where ok: "del_ok (swrap 64 (tversion t + 1)) n k n' nk orph"
      using recursiveRemove_ok[OF n(2,3,4)] by blast
    have "length (leaves n) \<noteq> 1" using False by (cases n) (auto simp: add_is_1)
    moreover obtain d where d: "parent n k = Some d" "pers (nodes n') + pers orph + pers [d] = pers (nodes n)"
      using ok by (auto simp: del_ok_def lost_def)
    moreover have "hashed (nodes n')" "hashed orph"
      using hashed_mono[OF _ n(5)] d(2)[symmetric] by (auto simp: subset_mset.add_increasing2 simp del: pers_simps)
    ultimately show ?thesis
      using ok n(1) by (auto simp: del_ok_def remove_def tree_ok_def entries_def tree_nodes_def
        parentOf_def simp del: pers_simps)
  qed
qed

text \<open>A tree of two persisted leaves under a persisted root, on which the theorems are run.\<close>

definition sample_root :: Node where
  "sample_root = Inner [5] 1 1 2 (Some [9]) True
     (Leaf [3] [30] 1 (Some [7]) True) (Leaf [5] [50] 1 (Some [8]) True)"

definition sample_tree :: MutableTree where
  "sample_tree = \<lparr>root = Some sample_root, tversion = 1,
     lastSaved = \<lparr>root = Some sample_root, tversion = 1\<rparr>, orphans = Map.empty\<rparr>"

lemma sample_tree_ok [simp]: "tree_ok sample_tree"
  by (simp add: tree_ok_def sample_tree_def sample_root_def tree_nodes_def hashed_def good_def small_def)

lemma sample_entries [simp]: "entries sample_tree = [([3], [30]), ([5], [50])]"
  by (simp add: sample_tree_def sample_root_def entries_def)

lemma visit_map:
  "visit (\<lambda>k (x, v). fn k x) es st = visit fn (map (\<lambda>(k, x, v). (k, x)) es) st"
  by (induction es arbitrary: st) (auto split: prod.split)

lemma visit_entries:
  "visit (\<lambda>k (x, v). fn k x) (ordered asc (filter (\<lambda>e. P (fst e)) (vleaves n))) st
    = visit fn (ordered asc (filter (\<lambda>e. P (fst e)) (leaves n))) st"
proof -
  have "map (\<lambda>(k, x, v). (k, x)) (filter (\<lambda>e. P (fst e)) es)
      = filter (\<lambda>e. P (fst e)) (map (\<lambda>(k, x, v). (k, x)) es)" for es :: "(bytes \<times> bytes \<times> int) list"
    by (induction es) auto
  then show ?thesis by (simp add: visit_map ordered_def rev_map[symmetric] vleaves_leaves)
qed

lemma Get_ok:
  assumes "tree_ok t" "length (entries t) < 2 ^ 63"
  shows "Get t k = (int (length (filter (\<lambda>e. fst e < k) (entries t))), map_of (entries t) k)"
  using assms get_spec
  by (auto simp: Get_def tree_ok_def entries_def good_def small_def split: option.splits)

lemma IterateRange_ok:
  assumes "tree_ok t"
  shows "IterateRange t start end asc fn st =
    visit fn (ordered asc (filter (\<lambda>e. in_range start end False (fst e)) (entries t))) st"
proof (cases "root t")
  case (Some n)
  then have "good n" using assms by (simp add: tree_ok_def)
  then show ?thesis using Some
    by (simp add: IterateRange_def entries_def traverseInRange_visit visit_entries)
qed (simp add: IterateRange_def entries_def ordered_def)

lemma Set_ok:
  assumes "tree_ok t" "length (entries t) + 1 < 2 ^ 63"
  shows "\<exists>t'. Set t k (Some y) = Inr (t', k \<in> fst ` set (entries t)) \<and> tree_ok t'
     \<and> entries t' = kput k y (entries t)
     \<and> tversion t' = tversion t \<and> lastSaved t' = lastSaved t"
proof -
  obtain t' orph upd where t': "set_tree t k (Some y) = Inr (t', orph, upd)" "tree_ok t'"
      "entries t' = kput k y (entries t)" "upd \<longleftrightarrow> k \<in> fst ` set (entries t)"
      "pers (tree_nodes t') + pers orph = pers (tree_nodes t)"
      "tversion t' = tversion t" "lastSaved t' = lastSaved t"
    using set_tree_ok[OF assms] by blast
  have "hashed orph" using orphan_hashed[OF t'(5)] assms(1) by (simp add: tree_ok_def)
  then show ?thesis using t' by (auto simp: Set_def addOrphans_ok tree_ok_def entries_def tree_nodes_def)
qed

lemma Remove_ok:
  assumes "tree_ok t" "length (entries t) < 2 ^ 63"
  shows "\<exists>t'. Remove t k = Inr (t', map_of (entries t) k, k \<in> fst ` set (entries t)) \<and> tree_ok t'
     \<and> entries t' = kdel k (entries t)
     \<and> tversion t' = tversion t \<and> lastSaved t' = lastSaved t"
proof (cases "k \<in> fst ` set (entries t)")
  case True
  from remove_present[OF assms this] obtain t' orph
    where "remove t k = Inr (t', map_of (entries t) k, orph, True)" "tree_ok t'" "hashed orph"
      "entries t' = kdel k (entries t)" "tversion t' = tversion t" "lastSaved t' = lastSaved t"
    by blast
  with True show ?thesis by (auto simp: Remove_def addOrphans_ok tree_ok_def entries_def tree_nodes_def)
next
  case False
  then show ?thesis using remove_absent[OF assms(1) False] assms(1)
      map_of_eq_None_iff[THEN iffD2, OF False]
    by (auto simp: Remove_def kdel_notin)
qed

lemma search_child:
  assumes "good (Inner k v h s hs p l r)" "q \<in> set (keys (Inner k v h s hs p l r))"
  defines "c \<equiv> if q < k then l else r"
  shows "q \<in> set (keys c)" "good c" "map_of (leaves (Inner k v h s hs p l r)) q = map_of (leaves c) q"
proof -
  note d = good_InnerD[OF assms(1)]
  have "q \<in> set (keys c) \<and> good c \<and> map_of (leaves l @ leaves r) q = map_of (leaves c) q"
  proof (cases "q < k")
    case True
    then have "q \<notin> fst ` set (leaves r)" using d(12) by fastforce
    then show ?thesis
      using True assms(2) d(5) by (auto simp: c_def map_of_append_left simp del: map_of_append)
  next
    case False
    then have "q \<notin> fst ` set (leaves l)" using d(10) by fastforce
    then show ?thesis
      using False assms(2) d(6) by (auto simp: c_def map_of_append_right simp del: map_of_append)
  qed
  then show "q \<in> set (keys c)" "good c" "map_of (leaves (Inner k v h s hs p l r)) q = map_of (leaves c) q"
    by simp_all
qed

lemma leaf_child: "isLeaf n \<Longrightarrow> q \<in> set (keys n) \<Longrightarrow> \<exists>x v hs p. n = Leaf q x v hs p \<and> map_of (leaves n) q = Some x"
  by (cases n) auto

lemma leaf_single: "isLeaf n \<Longrightarrow> length (leaves n) = 1"
  by (cases n) auto

lemma parent_child:
  "good n \<Longrightarrow> q \<in> set (keys n) \<Longrightarrow> \<not> isLeaf n \<Longrightarrow>
   \<exists>d x v hs p. parent n q = Some d \<and> Leaf q x v hs p \<in> set (children d) \<and> map_of (leaves n) q = Some x"
proof (induction n)
  case (Inner k v h s hs p l r)
  let ?c = "if q < k then l else r"
  note c = search_child[OF Inner.prems(1,2)]
  show ?case
  proof (cases "isLeaf ?c")
    case True
    obtain x v' hs' p' where x: "?c = Leaf q x v' hs' p'" "map_of (leaves ?c) q = Some x"
      using leaf_child[OF True c(1)] by blast
    have "parent (Inner k v h s hs p l r) q = Some (Inner k v h s hs p l r)"
      using True by (simp add: Let_def)
    moreover have "Leaf q x v' hs' p' \<in> set (children (Inner k v h s hs p l r))"
      using x(1) by (auto split: if_splits)
    ultimately show ?thesis
      using x(2) c(3) by metis
  next
    case False
    have "parent (Inner k v h s hs p l r) q = parent ?c q"
      using False by (simp add: Let_def)
    moreover have "\<exists>d x v hs p. parent ?c q = Some d \<and> Leaf q x v hs p \<in> set (children d) \<and> map_of (leaves ?c) q = Some x"
      using Inner.IH(1)[OF _ _ ] Inner.IH(2) c(1,2) False by presburger
    ultimately show ?thesis
      using c(3) by simp
  qed
qed simp

lemma note_orphans_other:
  "\<forall>m \<in># pers ns. the (hash m) \<noteq> h \<Longrightarrow> note_orphans f ns h = f h"
  by (induction ns arbitrary: f) (auto split: if_splits)

lemma pers_mset: "pers ns = mset (filter persisted ns)"
  by (simp add: pers_def)

lemma pers_hash_distinct:
  "distinct (map hash (filter persisted ns)) \<Longrightarrow> A + pers [d] = pers ns \<Longrightarrow> persisted d \<Longrightarrow> m \<in># A \<Longrightarrow> hash m \<noteq> hash d"
proof
  assume a: "distinct (map hash (filter persisted ns))" "A + pers [d] = pers ns" "persisted d" "m \<in># A" "hash m = hash d"
  have "mset (map hash (filter persisted ns)) = image_mset hash A + {#hash d#}"
    using a(3) arg_cong[OF a(2), of "image_mset hash"] by (simp add: pers_mset)
  then have "count (mset (map hash (filter persisted ns))) (hash d) \<ge> 2"
    using a(4,5) by (metis (no_types, lifting) One_nat_def Suc_leI add_Suc_right add_mono count_greater_zero_iff count_single
        count_union image_eqI nat_1_add_1 order_refl plus_1_eq_Suc set_image_mset)
  moreover have "count (mset (map hash (filter persisted ns))) (hash d) \<le> 1"
    using a(1) unfolding distinct_count_atmost_1 by simp
  ultimately show False by linarith
qed

subsection \<open>Sequences of updates\<close>

datatype edit = EditSet bytes bytes | EditRemove bytes

fun applyEdit :: "edit \<Rightarrow> MutableTree \<Rightarrow> MutableTree result" where
  "applyEdit (EditSet k y) t = bindR (Set t k (Some y)) (\<lambda>(t', updated). Inr t')"
| "applyEdit (EditRemove k) t = bindR (Remove t k) (\<lambda>(t', value, removed). Inr t')"

fun runEdits :: "edit list \<Rightarrow> MutableTree \<Rightarrow> MutableTree result" where
  "runEdits [] t = Inr t"
| "runEdits (e # es) t = bindR (applyEdit e t) (runEdits es)"

fun editSpec :: "edit \<Rightarrow> (bytes \<times> bytes) list \<Rightarrow> (bytes \<times> bytes) list" where
  "editSpec (EditSet k y) es = kput k y es"
| "editSpec (EditRemove k) es = kdel k es"

fun depth :: "Node \<Rightarrow> nat" where
  "depth (Leaf k x v hs p) = 0"
| "depth (Inner k v h s hs p l r) = Suc (max (depth l) (depth r))"

lemma avl_depth: "avl n \<Longrightarrow> height n = int (depth n)"
  by (induction n) auto

lemma applyEdit_ok:
  assumes "tree_ok t" "length (entries t) + 1 < 2 ^ 63"
  shows "\<exists>t'. applyEdit e t = Inr t' \<and> tree_ok t' \<and> entries t' = editSpec e (entries t) \<and> length (entries t') \<le> Suc (length (entries t))"
proof (cases e)
  case (EditSet k y)
  then show ?thesis using Set_ok[OF assms, of k y] length_kput_le[of k y "entries t"] by fastforce
next
  case (EditRemove k)
  then show ?thesis using Remove_ok[OF assms(1), of k] assms(2) length_kdel_le[of k "entries t"] by fastforce
qed

lemma runEdits_ok:
  "tree_ok t \<Longrightarrow> length (entries t) + length es < 2 ^ 63 \<Longrightarrow>
   \<exists>t'. runEdits es t = Inr t' \<and> tree_ok t' \<and> entries t' = fold editSpec es (entries t) \<and> length (entries t') < 2 ^ 63"
proof (induction es arbitrary: t)
  case (Cons e es)
  obtain t1 where t1: "applyEdit e t = Inr t1" "tree_ok t1" "entries t1 = editSpec e (entries t)"
      "length (entries t1) \<le> Suc (length (entries t))"
    using applyEdit_ok[OF Cons.prems(1), of e] Cons.prems(2) by auto
  show ?case using Cons.IH[OF t1(2)] t1 Cons.prems(2) by auto
qed simp

lemma empty_tree_ok: "tree_ok NewMutableTree" "entries NewMutableTree = []"
  by (simp_all add: NewMutableTree_def tree_ok_def entries_def tree_nodes_def hashed_def)

subsection \<open>Properties\<close>

text \<open>
  C1: \<open>Set\<close> on a well-formed tree never panics, answers whether the key was already there, keeps
  the tree well-formed (search order, AVL balance, stored sizes and heights within their widths)
  and its entries become the old ones with the key's entry replaced or inserted in order.
\<close>

theorem Set_refines_kput:
  assumes "tree_ok t" "length (entries t) + 1 < 2 ^ 63"
  shows "\<exists>t'. Set t k (Some y) = Inr (t', k \<in> fst ` set (entries t)) \<and> tree_ok t'
     \<and> entries t' = kput k y (entries t)"
  using Set_ok[OF assms] by blast

theorem Set_refines_kput_witness:
  "\<exists>t'. Set sample_tree [4] (Some [40]) = Inr (t', False) \<and>
     entries t' = [([3], [30]), ([4], [40]), ([5], [50])]"
  using Set_refines_kput[of sample_tree "[4]" "[40]"] by (auto simp: kput_def)

text \<open>
  C2: \<open>Remove\<close> on a well-formed tree never panics, returns the value the key had, answers whether
  it was present, keeps the tree well-formed and deletes exactly that key's entry.
\<close>

theorem Remove_refines_kdel:
  assumes "tree_ok t" "length (entries t) < 2 ^ 63"
  shows "\<exists>t'. Remove t k = Inr (t', map_of (entries t) k, k \<in> fst ` set (entries t)) \<and> tree_ok t'
     \<and> entries t' = kdel k (entries t)"
  using Remove_ok[OF assms] by blast

theorem Remove_refines_kdel_witness:
  "\<exists>t'. Remove sample_tree [3] = Inr (t', Some [30], True) \<and> entries t' = [([5], [50])]"
  using Remove_refines_kdel[of sample_tree "[3]"] by (auto simp: kdel_def)

text \<open>
  C3: \<open>Get\<close> returns the number of smaller keys (the index of the key, or where it would be
  inserted) and the value of the key, \<open>None\<close> when it is absent.
\<close>

theorem Get_rank_lookup:
  assumes "tree_ok t" "length (entries t) < 2 ^ 63"
  shows "Get t k = (int (length (filter (\<lambda>e. fst e < k) (entries t))), map_of (entries t) k)"
  using Get_ok[OF assms] .

theorem Get_rank_lookup_witness: "Get sample_tree [5] = (1, Some [50]) \<and> Get sample_tree [4] = (1, None)"
  using Get_rank_lookup[of sample_tree "[5]"] Get_rank_lookup[of sample_tree "[4]"] by simp

text \<open>
  C4: \<open>GetByIndex\<close> returns the entry at that position of the sorted entries and nothing for any other
  \<open>int64\<close> index, negative ones included, so it inverts the index \<open>Get\<close> returns.
\<close>

theorem GetByIndex_nth:
  assumes "tree_ok t" "length (entries t) < 2 ^ 63" "- (2 ^ 63) \<le> i" "i < 2 ^ 63"
  shows "GetByIndex t i = (if 0 \<le> i \<and> i < int (length (entries t)) then Some (entries t ! nat i) else None)"
  using assms getByIndex_spec
  by (auto simp: GetByIndex_def tree_ok_def entries_def good_def small_def split: option.splits)

theorem GetByIndex_nth_witness:
  "GetByIndex sample_tree 1 = Some ([5], [50]) \<and> GetByIndex sample_tree 2 = None \<and> GetByIndex sample_tree (- 1) = None"
  using GetByIndex_nth[of sample_tree 1] GetByIndex_nth[of sample_tree 2] GetByIndex_nth[of sample_tree "- 1"] by simp

text \<open>
  C5: \<open>IterateRange\<close> hands to the callback exactly the entries with \<open>start \<le> key < end\<close> (an open
  side when nil), in ascending or descending key order, and stops as soon as the callback says so.
\<close>

theorem IterateRange_visits:
  assumes "tree_ok t"
  shows "IterateRange t start end asc fn st =
    visit fn (ordered asc (filter (\<lambda>e. in_range start end False (fst e)) (entries t))) st"
  using IterateRange_ok[OF assms] .

theorem IterateRange_visits_witness:
  "IterateRange sample_tree (Some [4]) None True (\<lambda>k x acc. (False, acc @ [(k, x)])) []
     = (False, [([5], [50])])"
  using IterateRange_visits[of sample_tree "Some [4]" None True "\<lambda>k x acc. (False, acc @ [(k, x)])" "[]"]
  by (simp add: in_range_def ordered_def)

text \<open>
  C6: Any sequence of fewer than \<open>2\<^sup>63\<close> \<open>Set\<close> and \<open>Remove\<close> calls on a new tree runs without a panic, gives
  the entries of the same updates of a map, and leaves a tree whose recorded size and height are its real
  ones, with at least \<open>2\<^bsup>h div 2\<^esup>\<close> entries for height \<open>h\<close>: the height is logarithmic and fits the \<open>int8\<close>.
\<close>

theorem edits_keep_height_logarithmic:
  assumes "length es < 2 ^ 63"
  shows "\<exists>t. runEdits es NewMutableTree = Inr t \<and> entries t = fold editSpec es []
    \<and> Size t = int (length (entries t))
    \<and> (\<forall>n. root t = Some n \<longrightarrow> Height t = int (depth n) \<and> 2 ^ (depth n div 2) \<le> length (entries t) \<and> depth n \<le> 125)"
proof -
  obtain t where t: "runEdits es NewMutableTree = Inr t" "tree_ok t" "entries t = fold editSpec es []" "length (entries t) < 2 ^ 63"
    using runEdits_ok[of NewMutableTree es] assms empty_tree_ok by auto
  have "Height t = int (depth n) \<and> 2 ^ (depth n div 2) \<le> length (entries t) \<and> depth n \<le> 125" if "root t = Some n" for n
    using t(2,4) that avl_depth[of n] avl_height_bound[of n] avl_height_lt[of n]
    by (auto simp: Height_def tree_ok_def entries_def good_def small_def)
  moreover have "Size t = int (length (entries t))"
    using t(2) by (auto simp: Size_def tree_ok_def entries_def good_def small_def sized_nsize split: option.splits)
  ultimately show ?thesis using t(1,3) by blast
qed

theorem edits_keep_height_logarithmic_witness:
  "\<exists>t. runEdits [EditSet [1] [10], EditSet [2] [20], EditSet [3] [30], EditRemove [1]] NewMutableTree = Inr t
     \<and> Size t = 2 \<and> Height t \<le> 125"
  using edits_keep_height_logarithmic[of "[EditSet [1] [10], EditSet [2] [20], EditSet [3] [30], EditRemove [1]]"]
  by (auto simp: kput_def kdel_def Height_def split: option.splits)

text \<open>
  C7: the nodes \<open>set\<close> reports as orphaned are, counted with multiplicity, exactly the persisted
  nodes of the old tree that the new tree no longer contains: nothing still in use is orphaned and
  no dropped node is forgotten.
\<close>

theorem set_orphans_exact:
  assumes "tree_ok t" "length (entries t) + 1 < 2 ^ 63"
    and "set_tree t k (Some y) = Inr (t', orph, upd)"
  shows "pers (tree_nodes t') + pers orph = pers (tree_nodes t)"
  using set_tree_ok[OF assms(1,2), of k y] assms(3) by auto

theorem set_orphans_exact_witness:
  "\<exists>t' orph upd. set_tree sample_tree [4] (Some [40]) = Inr (t', orph, upd) \<and>
     pers (tree_nodes t') + pers orph = pers (tree_nodes sample_tree)"
proof -
  obtain t' orph upd where "set_tree sample_tree [4] (Some [40]) = Inr (t', orph, upd)"
    using set_tree_ok[of sample_tree "[4]" "[40]"] by auto
  with set_orphans_exact[OF sample_tree_ok _ this] show ?thesis by auto
qed

text \<open>
  C8: \<open>remove\<close> on a tree of more than one entry drops the inner node above the removed leaf without
  reporting it: the persisted nodes of the old tree are those of the new tree, the reported orphans and
  that node. If it was persisted (and persisted nodes have different hashes), then after \<open>Remove\<close> its hash
  is neither in the tree nor added to the orphans, so nothing ever deletes its record.
\<close>

theorem remove_forgets_parent:
  assumes "tree_ok t" "length (entries t) < 2 ^ 63" "1 < length (entries t)" "k \<in> fst ` set (entries t)"
  shows "\<exists>d x v hs p t' orph. parentOf t k = Some d \<and> Leaf k x v hs p \<in> set (children d)
    \<and> remove t k = Inr (t', Some x, orph, True)
    \<and> pers (tree_nodes t') + pers orph + pers [d] = pers (tree_nodes t)
    \<and> (persisted d \<and> distinct (map hash (filter persisted (tree_nodes t))) \<longrightarrow>
        (\<exists>t''. Remove t k = Inr (t'', Some x, True) \<and> orphans t'' (the (hash d)) = orphans t (the (hash d))
           \<and> (\<forall>m \<in> set (tree_nodes t''). persisted m \<longrightarrow> hash m \<noteq> hash d)))"
proof -
  obtain d t' orph where r: "remove t k = Inr (t', map_of (entries t) k, orph, True)" "parentOf t k = Some d"
      "pers (tree_nodes t') + pers orph + pers [d] = pers (tree_nodes t)" "hashed orph" "orphans t' = orphans t"
    using remove_present[OF assms(1,2,4)] assms(3) by auto
  obtain n where n: "root t = Some n" "good n" "k \<in> set (keys n)"
    using assms(1,4) by (cases "root t") (auto simp: tree_ok_def entries_def)
  have inner: "\<not> isLeaf n"
    using leaf_single[of n] n(1) assms(3) by (auto simp: entries_def)
  obtain x v hs p where leaf: "Leaf k x v hs p \<in> set (children d)" "map_of (entries t) k = Some x"
    using parent_child[OF n(2,3) inner] n(1) r(2) by (auto simp: parentOf_def entries_def)
  have "\<exists>t''. Remove t k = Inr (t'', Some x, True) \<and> orphans t'' (the (hash d)) = orphans t (the (hash d))
      \<and> (\<forall>m \<in> set (tree_nodes t''). persisted m \<longrightarrow> hash m \<noteq> hash d)"
    if h: "persisted d" "distinct (map hash (filter persisted (tree_nodes t)))"
  proof -
    have other: "hash m \<noteq> hash d" if "m \<in># pers (tree_nodes t') + pers orph" for m
      using pers_hash_distinct[OF h(2) r(3) h(1) that] .
    have hd: "hash m \<noteq> None" if "m \<in># pers orph + pers [d]" for m
    proof -
      have "m \<in># pers (tree_nodes t)" using that unfolding r(3)[symmetric] by (auto simp del: pers_simps)
      then show ?thesis using assms(1) unfolding tree_ok_def hashed_pers by fastforce
    qed
    have "the (hash m) \<noteq> the (hash d)" if "m \<in># pers orph" for m
      using other[of m] hd[of m] hd[of d] that h(1) by (auto simp: option.expand)
    then have "note_orphans (orphans t) orph (the (hash d)) = orphans t (the (hash d))"
      by (intro note_orphans_other) auto
    moreover have "hash m \<noteq> hash d" if "m \<in> set (tree_nodes t')" "persisted m" for m
      using other[of m] that by (simp add: pers_def)
    ultimately show ?thesis
      using r(1,4,5) leaf(2) by (auto simp: Remove_def addOrphans_ok tree_nodes_def)
  qed
  then show ?thesis using r(1)[unfolded leaf(2)] r(2,3) leaf(1) by blast
qed

theorem remove_forgets_parent_witness:
  "\<exists>t'. Remove sample_tree [3] = Inr (t', Some [30], True) \<and> orphans t' [9] = None
     \<and> (\<forall>m \<in> set (tree_nodes t'). persisted m \<longrightarrow> hash m \<noteq> Some [9]) \<and> hash sample_root = Some [9] \<and> persisted sample_root"
proof -
  have s: "parentOf sample_tree [3] = Some sample_root" "persisted sample_root" "hash sample_root = Some [9]" "orphans sample_tree = Map.empty"
      "distinct (map hash (filter persisted (tree_nodes sample_tree)))"
    by (simp_all add: parentOf_def sample_tree_def sample_root_def tree_nodes_def)
  have m: "remove sample_tree [3] = Inr (t', Some x, orph, True) \<Longrightarrow> x = [30]" for t' x orph
    using remove_present[of sample_tree "[3]"] by auto
  show ?thesis
    using remove_forgets_parent[of sample_tree "[3]"] s m by fastforce
qed

end
