(* ===== verification/Iavl_Store.thy ===== *)
theory Iavl_Store
  imports Kv_Store Iavl_Correct
begin

text \<open>
  The store over a mutable IAVL+ tree (\<^verbatim>\<open>pkgs/store/iavl/store.go\<close>), whose iterator receives the
  pairs of \<open>IterateRange\<close> through a channel until its client closes it. The code runs the iteration in
  a goroutine over the immutable tree of that moment; the model has the whole list of its pairs at once, so
  that a client which stops early leaves the rest unread. When the tree panics, the model keeps the tree as
  it was; on a well-formed tree with room it does not panic. Such a tree fulfils the store contract.
\<close>

definition iavlSet :: "bytes option \<Rightarrow> bytes option \<Rightarrow> (MutableTree, unit) act" where
  "iavlSet k v = bindA (liftA (AssertValidValue v)) (\<lambda>u t.
     case Set t (bytesOf k) v of
       Inl e \<Rightarrow> (Inl e, t)
     | Inr (t', updated) \<Rightarrow> (Inr (), t'))"

definition iavlGet :: "bytes option \<Rightarrow> (MutableTree, bytes option) act" where
  "iavlGet k t = (Inr (snd (Get t (bytesOf k))), t)"

definition iavlHas :: "bytes option \<Rightarrow> (MutableTree, bool) act" where
  "iavlHas k t = (Inr (Has t (bytesOf k)), t)"

definition iavlDelete :: "bytes option \<Rightarrow> (MutableTree, unit) act" where
  "iavlDelete k t = (case Remove t (bytesOf k) of
       Inl e \<Rightarrow> (Inl e, t)
     | Inr (t', v, removed) \<Rightarrow> (Inr (), t'))"

definition newIAVLIterator :: "MutableTree \<Rightarrow> bytes option \<Rightarrow> bytes option \<Rightarrow> bool \<Rightarrow> kvIter" where
  "newIAVLIterator t start end asc = \<lparr>itStart = start, itEnd = end,
     itItems = snd (IterateRange t start end asc (\<lambda>k v received. (False, received @ [(k, Some v)])) [])\<rparr>"

definition iavlIterator :: "bool \<Rightarrow> bytes option \<Rightarrow> bytes option \<Rightarrow> (MutableTree, kvIter) act" where
  "iavlIterator asc start end t = (Inr (newIAVLIterator t start end asc), t)"

definition iavlWrite :: "(MutableTree, unit) act" where
  "iavlWrite = failA (Panic ''unexpected .Write() on iavl.Store. Hash()?'')"

definition iavlOps :: "MutableTree kvOps" where
  "iavlOps = \<lparr>opGet = iavlGet, opHas = iavlHas, opSet = iavlSet, opDelete = iavlDelete,
     opIterator = iavlIterator, opWrite = iavlWrite\<rparr>"

definition iavlInv :: "nat \<Rightarrow> MutableTree \<Rightarrow> bool" where
  "iavlInv n t \<longleftrightarrow> tree_ok t \<and> length (entries t) + n < 2 ^ 63"

subsection \<open>The contract\<close>

lemma visit_collect:
  "visit (\<lambda>k x acc. (False, acc @ [(k, Some x)])) es acc = (False, acc @ someItems es)"
  by (induction es arbitrary: acc) (auto simp: someItems_def)

lemma in_range_domain: "in_range start end False k = IsKeyInDomain k start end"
  by (auto simp: in_range_def IsKeyInDomain_def bytesOf_def not_less not_le split: option.splits)

lemma entries_ascending: "tree_ok t \<Longrightarrow> ascending (entries t)"
  using bst_sorted by (auto simp: tree_ok_def entries_def good_def split: option.splits)

lemma Has_ok: "tree_ok t \<Longrightarrow> Has t k \<longleftrightarrow> map_of (entries t) k \<noteq> None"
  by (auto simp: Has_def tree_ok_def entries_def good_def has_iff map_of_eq_None_iff split: option.splits)

interpretation iavl: kv_store iavlOps entries iavlInv
proof
  fix n s k v r s' asc start "end" and b :: "bool result" and u :: "unit result" and it :: "kvIter result"
  show "iavlInv n s \<Longrightarrow> ascending (entries s)"
    by (simp add: iavlInv_def entries_ascending)
  show "iavlInv n s \<Longrightarrow> m \<le> n \<Longrightarrow> iavlInv m s" for m
    by (simp add: iavlInv_def)
  show "iavlInv n s \<Longrightarrow> opGet iavlOps (Some k) s = (r, s') \<Longrightarrow>
      r = Inr (map_of (entries s) k) \<and> iavlInv n s' \<and> entries s' = entries s"
    using Get_ok[of s k] by (auto simp: iavlOps_def iavlGet_def iavlInv_def bytesOf_def)
  show "iavlInv n s \<Longrightarrow> opHas iavlOps (Some k) s = (b, s') \<Longrightarrow>
      b = Inr (map_of (entries s) k \<noteq> None) \<and> iavlInv n s' \<and> entries s' = entries s"
    using Has_ok[of s k] by (auto simp: iavlOps_def iavlHas_def iavlInv_def bytesOf_def)
  show "iavlInv (Suc n) s \<Longrightarrow> opSet iavlOps (Some k) (Some v) s = (u, s') \<Longrightarrow>
      u = Inr () \<and> iavlInv n s' \<and> entries s' = kput k v (entries s)"
    using Set_ok[of s k v] length_kput_le[of k v "entries s"]
    by (auto simp: iavlOps_def iavlSet_def iavlInv_def bytesOf_def AssertValidValue_def bindA_def)
  show "iavlInv (Suc n) s \<Longrightarrow> opDelete iavlOps (Some k) s = (u, s') \<Longrightarrow>
      u = Inr () \<and> iavlInv n s' \<and> entries s' = kdel k (entries s)"
    using Remove_ok[of s k] length_kdel_le[of k "entries s"]
    by (auto simp: iavlOps_def iavlDelete_def iavlInv_def bytesOf_def)
  show "iavlInv n s \<Longrightarrow> opIterator iavlOps asc start end s = (it, s') \<Longrightarrow>
      it = Inr \<lparr>itStart = start, itEnd = end,
        itItems = someItems (ordered asc (inDomain start end (entries s)))\<rparr>
      \<and> iavlInv n s' \<and> entries s' = entries s"
    by (auto simp: iavlOps_def iavlIterator_def newIAVLIterator_def iavlInv_def IterateRange_ok
        visit_collect in_range_domain inDomain_def)
qed

end
