(* ===== verification/Cache_Store.thy ===== *)
theory Cache_Store
  imports Kv_Store
begin

text \<open>
  The cache-wrap of a store (\<^verbatim>\<open>pkgs/store/cache\<close>): reads go through to the parent and are remembered,
  writes and deletions stay in the cache until \<open>Write\<close>, iteration merges the parent's iterator with
  the dirty items. The parent is any store: its operations are the parameter \<open>ops\<close> and its state is
  a field. The Go maps \<open>cache\<close> and \<open>unsortedCache\<close> are association lists by ascending key; the code
  sorts what it reads from them. An iteration is run to its end before the next call on the store; a
  client that writes while it iterates is not modelled.
\<close>

subsection \<open>State\<close>

record cValue =
  cvalue :: "bytes option"
  deleted :: bool
  dirty :: bool

type_synonym item = "bytes \<times> bytes option"

record 's cacheStore =
  cache :: "(bytes \<times> cValue) list"
  unsortedCache :: "(bytes \<times> unit) list"
  sortedCache :: "item list"
  parent :: 's

definition newCache :: "'s \<Rightarrow> 's cacheStore" where
  "newCache p = \<lparr>cache = [], unsortedCache = [], sortedCache = [], parent = p\<rparr>"

definition onParent :: "('s, 'a) act \<Rightarrow> ('s cacheStore, 'a) act" where
  "onParent m store = (case m (parent store) of (r, p) \<Rightarrow> (r, store\<lparr>parent := p\<rparr>))"

subsection \<open>Reads and writes\<close>

definition setCacheValue :: "bytes option \<Rightarrow> bytes option \<Rightarrow> bool \<Rightarrow> bool \<Rightarrow> ('s cacheStore, unit) act" where
  "setCacheValue key v del drt store =
     (let store = store\<lparr>cache := kput (bytesOf key) \<lparr>cvalue = v, deleted = del, dirty = drt\<rparr> (cache store)\<rparr>
      in (Inr (), if drt then store\<lparr>unsortedCache := kput (bytesOf key) () (unsortedCache store)\<rparr> else store))"

definition cacheGet :: "'s kvOps \<Rightarrow> bytes option \<Rightarrow> ('s cacheStore, bytes option) act" where
  "cacheGet ops key = bindA (liftA (AssertValidKey key)) (\<lambda>u store.
     case map_of (cache store) (bytesOf key) of
       None \<Rightarrow> bindA (onParent (opGet ops key)) (\<lambda>v.
         bindA (setCacheValue key v False False) (\<lambda>u. returnA v)) store
     | Some cacheValue \<Rightarrow> (Inr (cvalue cacheValue), store))"

definition cacheSet :: "'s kvOps \<Rightarrow> bytes option \<Rightarrow> bytes option \<Rightarrow> ('s cacheStore, unit) act" where
  "cacheSet ops key v = bindA (liftA (AssertValidKey key)) (\<lambda>u.
     bindA (liftA (AssertValidValue v)) (\<lambda>u. setCacheValue key v False True))"

definition cacheHas :: "'s kvOps \<Rightarrow> bytes option \<Rightarrow> ('s cacheStore, bool) act" where
  "cacheHas ops key = bindA (cacheGet ops key) (\<lambda>v. returnA (v \<noteq> None))"

definition cacheDelete :: "'s kvOps \<Rightarrow> bytes option \<Rightarrow> ('s cacheStore, unit) act" where
  "cacheDelete ops key = bindA (liftA (AssertValidKey key)) (\<lambda>u. setCacheValue key None True True)"

fun writeKeys :: "'s kvOps \<Rightarrow> bytes list \<Rightarrow> ('s cacheStore, unit) act" where
  "writeKeys ops [] = returnA ()"
| "writeKeys ops (key # keys) = bindA (\<lambda>store.
     case map_of (cache store) key of
       None \<Rightarrow> (Inl NilDereference, store)
     | Some cacheValue \<Rightarrow>
         if deleted cacheValue then onParent (opDelete ops (Some key)) store
         else if cvalue cacheValue = None then (Inr (), store)
         else onParent (opSet ops (Some key) (cvalue cacheValue)) store) (\<lambda>u. writeKeys ops keys)"

definition cacheWrite :: "'s kvOps \<Rightarrow> ('s cacheStore, unit) act" where
  "cacheWrite ops store =
     (let keys = sort (map fst (filter (\<lambda>(key, dbValue). dirty dbValue) (cache store)))
      in bindA (writeKeys ops keys) (\<lambda>u store.
           (Inr (), store\<lparr>cache := [], unsortedCache := [], sortedCache := []\<rparr>)) store)"

subsection \<open>The iterator over the dirty items\<close>

text \<open>The loop of \<open>dirtyItems\<close> that merges the new items into the sorted list.\<close>

fun mergeSorted :: "item list \<Rightarrow> item list \<Rightarrow> item list" where
  "mergeSorted [] ss = ss"
| "mergeSorted (u # us) [] = u # us"
| "mergeSorted (u # us) (s # ss) =
     (if fst u < fst s then u # mergeSorted us (s # ss)
      else if fst u > fst s then s # mergeSorted (u # us) ss
      else u # mergeSorted us ss)"

fun collectDirty :: "(bytes \<times> cValue) list \<Rightarrow> bytes list \<Rightarrow> item list result" where
  "collectDirty cs [] = Inr []"
| "collectDirty cs (key # keys) = (case map_of cs key of
     None \<Rightarrow> Inl NilDereference
   | Some cv \<Rightarrow> bindR (collectDirty cs keys) (\<lambda>is. Inr ((key, cvalue cv) # is)))"

definition dirtyItems :: "bytes option \<Rightarrow> bytes option \<Rightarrow> ('s cacheStore, unit) act" where
  "dirtyItems start end store =
     (let keys = map fst (inDomain start end (unsortedCache store))
      in case collectDirty (cache store) keys of
           Inl e \<Rightarrow> (Inl e, store)
         | Inr unsorted \<Rightarrow>
             (Inr (), store\<lparr>unsortedCache := filter (\<lambda>e. \<not> IsKeyInDomain (fst e) start end) (unsortedCache store),
                 sortedCache := mergeSorted (sort_key fst unsorted) (sortedCache store)\<rparr>))"

record memIterator =
  mstart :: "bytes option"
  mend :: "bytes option"
  mitems :: "item list"
  mascending :: bool

fun itemsInDomain :: "bytes option \<Rightarrow> bytes option \<Rightarrow> bool \<Rightarrow> item list \<Rightarrow> item list" where
  "itemsInDomain start end entered [] = []"
| "itemsInDomain start end entered (item # rest) =
     (if \<not> IsKeyInDomain (fst item) start end
      then if entered then [] else itemsInDomain start end entered rest
      else item # itemsInDomain start end True rest)"

definition newMemIterator :: "bytes option \<Rightarrow> bytes option \<Rightarrow> item list \<Rightarrow> bool \<Rightarrow> memIterator" where
  "newMemIterator start end its asc =
     \<lparr>mstart = start, mend = end, mitems = itemsInDomain start end False its, mascending = asc\<rparr>"

definition memValid :: "memIterator \<Rightarrow> bool" where
  "memValid mi \<longleftrightarrow> length (mitems mi) > 0"

definition memHead :: "memIterator \<Rightarrow> item" where
  "memHead mi = (if mascending mi then mitems mi ! 0 else mitems mi ! (length (mitems mi) - 1))"

definition memTail :: "memIterator \<Rightarrow> memIterator" where
  "memTail mi = mi\<lparr>mitems := (if mascending mi then drop 1 (mitems mi) else take (length (mitems mi) - 1) (mitems mi))\<rparr>"

definition memNext :: "memIterator \<Rightarrow> memIterator result" where
  "memNext mi = (if \<not> memValid mi then Inl (Panic ''memIterator is invalid'') else Inr (memTail mi))"

definition memKey :: "memIterator \<Rightarrow> bytes result" where
  "memKey mi = (if \<not> memValid mi then Inl (Panic ''memIterator is invalid'') else Inr (fst (memHead mi)))"

definition memValue :: "memIterator \<Rightarrow> bytes option result" where
  "memValue mi = (if \<not> memValid mi then Inl (Panic ''memIterator is invalid'') else Inr (snd (memHead mi)))"

subsection \<open>The merging iterator\<close>

text \<open>The parent's iterator holds the pairs it has yet to produce.\<close>

definition iterValid :: "kvIter \<Rightarrow> bool" where
  "iterValid it \<longleftrightarrow> itItems it \<noteq> []"

definition iterNext :: "kvIter \<Rightarrow> kvIter result" where
  "iterNext it = (if \<not> iterValid it then Inl (Panic ''invalid iterator'') else Inr (it\<lparr>itItems := tl (itItems it)\<rparr>))"

definition iterKey :: "kvIter \<Rightarrow> bytes result" where
  "iterKey it = (if \<not> iterValid it then Inl (Panic ''invalid iterator'') else Inr (fst (hd (itItems it))))"

definition iterValue :: "kvIter \<Rightarrow> bytes option result" where
  "iterValue it = (if \<not> iterValid it then Inl (Panic ''invalid iterator'') else Inr (snd (hd (itItems it))))"

record cacheMergeIterator =
  cparent :: kvIter
  ccache :: memIterator
  cascending :: bool

definition compareI :: "cacheMergeIterator \<Rightarrow> bytes \<Rightarrow> bytes \<Rightarrow> int" where
  "compareI iter a b =
     (let c = (if a < b then -1 else if a = b then 0 else 1)
      in if cascending iter then c else c * -1)"

definition mergeDomain :: "cacheMergeIterator \<Rightarrow> bytes option \<times> bytes option" where
  "mergeDomain iter =
     (let (startP, endP) = (itStart (cparent iter), itEnd (cparent iter));
          (startC, endC) = (mstart (ccache iter), mend (ccache iter))
      in (if compareI iter (bytesOf startP) (bytesOf startC) < 0 then startP else startC,
          if compareI iter (bytesOf endP) (bytesOf endC) < 0 then endC else endP))"

lemma compareI_swap: "compareI iter a b \<noteq> -1 \<Longrightarrow> compareI iter a b \<noteq> 0 \<Longrightarrow> compareI iter b a < 0"
  by (auto simp: compareI_def Let_def split: if_splits)

lemma memTail_shorter: "memValid mi \<Longrightarrow> length (mitems (memTail mi)) < length (mitems mi)"
  by (auto simp: memTail_def memValid_def)

function skipCacheDeletes :: "cacheMergeIterator \<Rightarrow> bytes option \<Rightarrow> cacheMergeIterator" where
  "skipCacheDeletes iter until =
     (if memValid (ccache iter) \<and> snd (memHead (ccache iter)) = None
         \<and> (case until of None \<Rightarrow> True | Some u \<Rightarrow> compareI iter (fst (memHead (ccache iter))) u < 0)
      then skipCacheDeletes (iter\<lparr>ccache := memTail (ccache iter)\<rparr>) until
      else iter)"
  by auto
termination
  by (relation "measure (\<lambda>(iter, until). length (mitems (ccache iter)))") (auto simp: memTail_shorter)
declare skipCacheDeletes.simps [simp del]

lemma skipCacheDeletes_le: "length (mitems (ccache (skipCacheDeletes iter until))) \<le> length (mitems (ccache iter))"
proof (induction iter until rule: skipCacheDeletes.induct)
  case (1 iter until)
  show ?case
  proof (cases "memValid (ccache iter) \<and> snd (memHead (ccache iter)) = None
      \<and> (case until of None \<Rightarrow> True | Some u \<Rightarrow> compareI iter (fst (memHead (ccache iter))) u < 0)")
    case True
    then show ?thesis
      using 1[OF True] memTail_shorter[of "ccache iter"] by (subst skipCacheDeletes.simps) simp
  qed (auto simp: skipCacheDeletes.simps[of iter])
qed

lemma skipCacheDeletes_shorter:
  assumes "memValid (ccache iter)" "snd (memHead (ccache iter)) = None"
    "compareI iter (fst (memHead (ccache iter))) u < 0"
  shows "length (mitems (ccache (skipCacheDeletes iter (Some u)))) < length (mitems (ccache iter))"
  using assms memTail_shorter[of "ccache iter"] skipCacheDeletes_le[of "iter\<lparr>ccache := memTail (ccache iter)\<rparr>" "Some u"]
  by (subst skipCacheDeletes.simps) simp

function skipUntilExistsOrInvalid :: "cacheMergeIterator \<Rightarrow> cacheMergeIterator \<times> bool" where
  "skipUntilExistsOrInvalid iter =
     (if \<not> iterValid (cparent iter) then
        let iter = skipCacheDeletes iter None in (iter, memValid (ccache iter))
      else if \<not> memValid (ccache iter) then (iter, True)
      else
        let keyP = fst (hd (itItems (cparent iter))); keyC = fst (memHead (ccache iter));
            valueC = snd (memHead (ccache iter)); c = compareI iter keyP keyC
        in if c = -1 then (iter, True)
           else if c = 0 then
             if valueC = None then
               skipUntilExistsOrInvalid (iter\<lparr>cparent := (cparent iter)\<lparr>itItems := tl (itItems (cparent iter))\<rparr>,
                   ccache := memTail (ccache iter)\<rparr>)
             else (iter, True)
           else
             if valueC = None then skipUntilExistsOrInvalid (skipCacheDeletes iter (Some keyP))
             else (iter, True))"
  by auto
termination
  by (relation "measure (\<lambda>iter. length (mitems (ccache iter)))")
    (auto simp: memTail_shorter compareI_swap intro!: skipCacheDeletes_shorter)
declare skipUntilExistsOrInvalid.simps [simp del]

definition mergeValid :: "cacheMergeIterator \<Rightarrow> cacheMergeIterator \<times> bool" where
  "mergeValid iter = skipUntilExistsOrInvalid iter"

text \<open>\<open>Next\<close>, \<open>Key\<close> and \<open>Value\<close> first skip and assert validity.\<close>

definition mergeReady :: "cacheMergeIterator \<Rightarrow> cacheMergeIterator result" where
  "mergeReady iter =
     (let (iter, v) = skipUntilExistsOrInvalid iter; (iter, v) = mergeValid iter
      in if \<not> v then Inl (Panic ''iterator is invalid'') else Inr iter)"

definition mergeNext :: "cacheMergeIterator \<Rightarrow> cacheMergeIterator result" where
  "mergeNext iter = bindR (mergeReady iter) (\<lambda>iter.
     if \<not> iterValid (cparent iter) then
       bindR (memNext (ccache iter)) (\<lambda>c. Inr (iter\<lparr>ccache := c\<rparr>))
     else if \<not> memValid (ccache iter) then
       bindR (iterNext (cparent iter)) (\<lambda>p. Inr (iter\<lparr>cparent := p\<rparr>))
     else
       bindR (iterKey (cparent iter)) (\<lambda>keyP.
       bindR (memKey (ccache iter)) (\<lambda>keyC.
       let c = compareI iter keyP keyC
       in if c = -1 then bindR (iterNext (cparent iter)) (\<lambda>p. Inr (iter\<lparr>cparent := p\<rparr>))
          else if c = 0 then
            bindR (iterNext (cparent iter)) (\<lambda>p.
            bindR (memNext (ccache iter)) (\<lambda>c. Inr (iter\<lparr>cparent := p, ccache := c\<rparr>)))
          else bindR (memNext (ccache iter)) (\<lambda>c. Inr (iter\<lparr>ccache := c\<rparr>)))))"

definition mergeKey :: "cacheMergeIterator \<Rightarrow> bytes result" where
  "mergeKey iter = bindR (mergeReady iter) (\<lambda>iter.
     if \<not> iterValid (cparent iter) then memKey (ccache iter)
     else if \<not> memValid (ccache iter) then iterKey (cparent iter)
     else
       bindR (iterKey (cparent iter)) (\<lambda>keyP.
       bindR (memKey (ccache iter)) (\<lambda>keyC.
       Inr (if compareI iter keyP keyC = 1 then keyC else keyP))))"

definition mergeValue :: "cacheMergeIterator \<Rightarrow> bytes option result" where
  "mergeValue iter = bindR (mergeReady iter) (\<lambda>iter.
     if \<not> iterValid (cparent iter) then memValue (ccache iter)
     else if \<not> memValid (ccache iter) then iterValue (cparent iter)
     else
       bindR (iterKey (cparent iter)) (\<lambda>keyP.
       bindR (memKey (ccache iter)) (\<lambda>keyC.
       if compareI iter keyP keyC = -1 then iterValue (cparent iter) else memValue (ccache iter))))"

subsection \<open>Draining the iterator\<close>

text \<open>
  The loop of an iterator's client: \<open>for ; it.Valid(); it.Next() { it.Key(); it.Value() }\<close>. It ends
  because every \<open>Next\<close> takes an item of the parent or of the cache.
\<close>

abbreviation remaining :: "cacheMergeIterator \<Rightarrow> nat" where
  "remaining iter \<equiv> length (itItems (cparent iter)) + length (mitems (ccache iter))"

lemma skipCacheDeletes_parent:
  "cparent (skipCacheDeletes iter until) = cparent iter \<and> cascending (skipCacheDeletes iter until) = cascending iter"
  by (induction iter until rule: skipCacheDeletes.induct) (subst (1 2) skipCacheDeletes.simps, simp)

lemma skipUntil_le: "skipUntilExistsOrInvalid iter = (iter', v) \<Longrightarrow> remaining iter' \<le> remaining iter"
proof (induction iter rule: skipUntilExistsOrInvalid.induct)
  case (1 iter)
  show ?case
    using "1.prems" "1.IH"[OF _ _ refl refl refl refl] memTail_shorter[of "ccache iter"]
      skipCacheDeletes_parent[of iter] skipCacheDeletes_le[of iter]
    by (subst (asm) skipUntilExistsOrInvalid.simps)
      (fastforce simp: Let_def split: if_splits intro: le_trans)
qed

lemma mergeReady_le: "mergeReady iter = Inr iter' \<Longrightarrow> remaining iter' \<le> remaining iter"
  by (auto simp: mergeReady_def mergeValid_def Let_def split: prod.splits if_splits dest!: skipUntil_le)

lemma mergeNext_shorter:
  assumes "mergeNext iter = Inr iter'"
  shows "remaining iter' < remaining iter"
proof -
  obtain it where it: "mergeReady iter = Inr it"
    using assms by (cases "mergeReady iter") (auto simp: mergeNext_def)
  have "remaining iter' < remaining it"
    using assms it memTail_shorter[of "ccache it"]
    by (auto simp: mergeNext_def memNext_def iterNext_def memKey_def iterKey_def iterValid_def Let_def
        length_greater_0_conv[symmetric] simp del: length_greater_0_conv split: if_splits)
  then show ?thesis
    using mergeReady_le[OF it] by simp
qed

function drain :: "cacheMergeIterator \<Rightarrow> item list result" where
  "drain iter = (case mergeValid iter of (iter1, v) \<Rightarrow>
     if \<not> v then Inr []
     else bindR (mergeKey iter1) (\<lambda>k.
       bindR (mergeValue iter1) (\<lambda>x.
       bindR (mergeNext iter1) (\<lambda>iter2.
       bindR (drain iter2) (\<lambda>rest. Inr ((k, x) # rest))))))"
  by auto
termination
  by (relation "measure remaining")
    (auto simp: mergeValid_def dest!: mergeNext_shorter skipUntil_le[OF sym])
declare drain.simps [simp del]

subsection \<open>The store\<close>

definition cacheIterator :: "'s kvOps \<Rightarrow> bool \<Rightarrow> bytes option \<Rightarrow> bytes option \<Rightarrow> ('s cacheStore, kvIter) act" where
  "cacheIterator ops asc start end = bindA (onParent (opIterator ops asc start end)) (\<lambda>p.
     bindA (dirtyItems start end) (\<lambda>u store.
       let iter = \<lparr>cparent = p, ccache = newMemIterator start end (sortedCache store) asc, cascending = asc\<rparr>
       in (bindR (drain iter) (\<lambda>its.
             Inr \<lparr>itStart = fst (mergeDomain iter), itEnd = snd (mergeDomain iter), itItems = its\<rparr>), store)))"

definition cacheOps :: "'s kvOps \<Rightarrow> 's cacheStore kvOps" where
  "cacheOps ops = \<lparr>opGet = cacheGet ops, opHas = cacheHas ops, opSet = cacheSet ops, opDelete = cacheDelete ops,
     opIterator = cacheIterator ops, opWrite = cacheWrite ops\<rparr>"

end
