(* ===== verification/Cache_Correct.thy ===== *)
theory Cache_Correct
  imports Cache_Store
begin

text \<open>
  The cache-wrap keeps the store contract of its parent. The first part shows what the merging
  iterator produces: the parent's pairs overlaid with the dirty items, whichever of them is ahead.
  The second part is the invariant of the cache and its abstraction, the parent's entries with the
  dirty items applied.
\<close>

subsection \<open>The merging iterator\<close>

definition before :: "bool \<Rightarrow> bytes \<Rightarrow> bytes \<Rightarrow> bool" where
  "before asc a b = (if asc then a < b else b < a)"

lemma compareI_before:
  "compareI iter a b = -1 \<longleftrightarrow> before (cascending iter) a b"
  "compareI iter a b = 0 \<longleftrightarrow> a = b"
  "compareI iter a b = 1 \<longleftrightarrow> before (cascending iter) b a"
  "compareI iter a b < 0 \<longleftrightarrow> before (cascending iter) a b"
  by (auto simp: compareI_def before_def Let_def)

lemma before_order:
  "\<not> before asc a a"
  "before asc a b \<Longrightarrow> before asc b c \<Longrightarrow> before asc a c"
  "before asc a b \<or> a = b \<or> before asc b a"
  "before asc a b \<Longrightarrow> \<not> before asc b a"
  by (auto simp: before_def)

definition memItems :: "memIterator \<Rightarrow> item list" where
  "memItems mi = ordered (mascending mi) (mitems mi)"

lemma memItems_simps:
  "memValid mi \<longleftrightarrow> memItems mi \<noteq> []"
  "memItems mi \<noteq> [] \<Longrightarrow> memHead mi = hd (memItems mi)"
  "memItems (memTail mi) = tl (memItems mi)"
proof -
  show "memValid mi \<longleftrightarrow> memItems mi \<noteq> []"
    by (simp add: memValid_def memItems_def ordered_def)
  show "memItems mi \<noteq> [] \<Longrightarrow> memHead mi = hd (memItems mi)"
    by (cases "mascending mi") (simp_all add: memItems_def memHead_def ordered_def hd_conv_nth hd_rev last_conv_nth)
  show "memItems (memTail mi) = tl (memItems mi)"
    using butlast_rev[of "rev (mitems mi)"]
    by (simp add: memItems_def memTail_def ordered_def drop_Suc butlast_conv_take)
qed

fun overlay :: "bool \<Rightarrow> item list \<Rightarrow> item list \<Rightarrow> item list" where
  "overlay asc [] cs = filter (\<lambda>c. snd c \<noteq> None) cs"
| "overlay asc (p # ps) [] = p # ps"
| "overlay asc (p # ps) (c # cs) =
     (if before asc (fst p) (fst c) then p # overlay asc ps (c # cs)
      else let rest = (if fst p = fst c then overlay asc ps cs else overlay asc (p # ps) cs)
        in if snd c = None then rest else c # rest)"

lemma overlay_Nil: "overlay asc ps [] = ps"
  by (cases ps) simp_all

definition produced :: "cacheMergeIterator \<Rightarrow> item list" where
  "produced iter = overlay (cascending iter) (itItems (cparent iter)) (memItems (ccache iter))"

lemma overlay_skip:
  "overlay asc (p # ps) (dropWhile (\<lambda>c. snd c = None \<and> before asc (fst c) (fst p)) cs) = overlay asc (p # ps) cs"
  "filter (\<lambda>c. snd c \<noteq> None) (dropWhile (\<lambda>c. snd c = None) cs) = filter (\<lambda>c. snd c \<noteq> None) cs"
  by (induction cs) (auto simp: Let_def before_order(1) dest: before_order(4))

lemma skipCacheDeletes_items:
  "memItems (ccache (skipCacheDeletes iter until)) =
     dropWhile (\<lambda>c. snd c = None \<and> (case until of None \<Rightarrow> True | Some u \<Rightarrow> before (cascending iter) (fst c) u))
       (memItems (ccache iter))"
proof (induction iter until rule: skipCacheDeletes.induct)
  case (1 iter until)
  then show ?case
    by (subst skipCacheDeletes.simps; cases "memItems (ccache iter)")
      (auto simp: memItems_simps compareI_before split: option.splits)
qed

text \<open>The iterator stands at a pair it will produce.\<close>

definition ready :: "cacheMergeIterator \<Rightarrow> bool" where
  "ready iter \<longleftrightarrow> (case (itItems (cparent iter), memItems (ccache iter)) of
     ([], cs) \<Rightarrow> cs \<noteq> [] \<and> snd (hd cs) \<noteq> None
   | (p # ps, []) \<Rightarrow> True
   | (p # ps, c # cs) \<Rightarrow> before (cascending iter) (fst p) (fst c) \<or> snd c \<noteq> None)"

lemma skipUntil_output:
  "skipUntilExistsOrInvalid iter = (iter', v) \<Longrightarrow>
     produced iter' = produced iter \<and> v = (produced iter \<noteq> []) \<and> (v \<longrightarrow> ready iter')"
proof (induction iter rule: skipUntilExistsOrInvalid.induct)
  case (1 iter)
  let ?P = "itItems (cparent iter)" and ?M = "memItems (ccache iter)" and ?asc = "cascending iter"
  show ?case
  proof (cases ?P)
    case Nil
    let ?s = "skipCacheDeletes iter None"
    have s: "iter' = ?s" "v = memValid (ccache ?s)"
      using "1.prems" Nil by (auto simp: skipUntilExistsOrInvalid.simps[of iter] iterValid_def Let_def)
    have M: "memItems (ccache ?s) = dropWhile (\<lambda>c. snd c = None) ?M"
      by (simp add: skipCacheDeletes_items)
    have "ready ?s" if "dropWhile (\<lambda>c. snd c = None) ?M \<noteq> []"
      using that hd_dropWhile[OF that] by (simp add: ready_def skipCacheDeletes_parent Nil M)
    then show ?thesis
      using s overlay_skip(2)[of ?M] dropWhile_eq_Nil_conv[of "\<lambda>c. snd c = None" ?M]
      by (auto simp: produced_def skipCacheDeletes_parent Nil M memItems_simps filter_empty_conv)
  next
    case (Cons p ps)
    show ?thesis
    proof (cases ?M)
      case Nil
      then show ?thesis
        using "1.prems" Cons
        by (simp add: skipUntilExistsOrInvalid.simps[of iter] iterValid_def memItems_simps produced_def ready_def)
    next
      case M: (Cons c cs)
      have valid: "\<not> \<not> iterValid (cparent iter)" "\<not> \<not> memValid (ccache iter)" "memHead (ccache iter) = c"
        using Cons M by (simp_all add: iterValid_def memItems_simps)
      note step = "1.prems"[unfolded skipUntilExistsOrInvalid.simps[of iter] Let_def]
      note IH = "1.IH"[OF valid(1,2) refl refl refl refl]
      show ?thesis
        using step IH valid Cons M before_order(3)[of ?asc "fst p" "fst c"]
          overlay_skip(1)[of ?asc p ps ?M]
        by (auto simp: compareI_before produced_def ready_def memItems_simps skipCacheDeletes_items
            skipCacheDeletes_parent Let_def before_order(1) dest: before_order(4) split: if_splits)
    qed
  qed
qed

lemma skipUntil_ready:
  assumes "ready iter"
  shows "skipUntilExistsOrInvalid iter = (iter, True)"
proof (cases "itItems (cparent iter)")
  case Nil
  then have "skipCacheDeletes iter None = iter"
    using assms by (subst skipCacheDeletes.simps) (auto simp: ready_def memItems_simps)
  then show ?thesis
    using Nil assms by (subst skipUntilExistsOrInvalid.simps) (simp add: iterValid_def ready_def memItems_simps)
next
  case (Cons p ps)
  then show ?thesis
    using assms by (subst skipUntilExistsOrInvalid.simps; cases "memItems (ccache iter)")
      (auto simp: iterValid_def ready_def memItems_simps compareI_before Let_def)
qed

lemma ready_step:
  assumes "ready iter"
  shows "\<exists>k x iter'. mergeKey iter = Inr k \<and> mergeValue iter = Inr x \<and> mergeNext iter = Inr iter'
    \<and> produced iter = (k, x) # produced iter'"
proof -
  have r: "mergeReady iter = Inr iter"
    using skipUntil_ready[OF assms] by (simp add: mergeReady_def mergeValid_def)
  note defs = r mergeKey_def mergeValue_def mergeNext_def iterValid_def memItems_simps compareI_before
    memKey_def memValue_def memNext_def iterKey_def iterValue_def iterNext_def produced_def Let_def
  show ?thesis
  proof (cases "itItems (cparent iter) = [] \<or> memItems (ccache iter) = []")
    case True
    then show ?thesis
      using assms by (cases "itItems (cparent iter)"; cases "memItems (ccache iter)")
        (simp_all add: ready_def defs overlay_Nil)
  next
    case False
    then obtain p ps c cs where it: "itItems (cparent iter) = p # ps" "memItems (ccache iter) = c # cs"
      by (meson list.exhaust)
    consider "before (cascending iter) (fst p) (fst c)" | "fst p = fst c" | "before (cascending iter) (fst c) (fst p)"
      using before_order(3) by blast
    then show ?thesis
      using assms it before_order(1,4) by cases (auto simp: ready_def defs intro!: prod_eqI)
  qed
qed

lemma drain_produced: "drain iter = Inr (produced iter)"
proof (induction iter rule: drain.induct)
  case (1 iter)
  obtain iter1 v where skip: "skipUntilExistsOrInvalid iter = (iter1, v)"
    by fastforce
  note out = skipUntil_output[OF skip]
  show ?case
  proof (cases v)
    case True
    then obtain k x iter' where st: "mergeKey iter1 = Inr k" "mergeValue iter1 = Inr x" "mergeNext iter1 = Inr iter'"
        "produced iter1 = (k, x) # produced iter'"
      using out ready_step by metis
    moreover have "drain iter' = Inr (produced iter')"
      using "1.IH"[OF _ _ st(1-3)] skip True by (simp add: mergeValid_def)
    ultimately show ?thesis
      using out True by (simp add: drain.simps[of iter] mergeValid_def skip)
  next
    case False
    then show ?thesis
      using out by (simp add: drain.simps[of iter] mergeValid_def skip)
  qed
qed

text \<open>Overlaying two sorted lists gives the sorted list of the overridden map.\<close>

lemma overlay_keys: "x \<in> set (overlay asc ps cs) \<Longrightarrow> x \<in> set ps \<union> set cs"
  by (induction asc ps cs rule: overlay.induct) (auto simp: Let_def split: if_splits)

lemma before_absent: "\<forall>y\<in>set ys. before asc q (fst y) \<Longrightarrow> map_of ys q = None"
  by (auto simp: map_of_eq_None_iff before_order(1))

fun override :: "bytes option option \<Rightarrow> bytes option option \<Rightarrow> bytes option option" where
  "override None p = p"
| "override (Some None) p = None"
| "override (Some (Some v)) p = Some (Some v)"

lemma filter_override:
  "sorted_wrt (before asc) (map fst cs) \<Longrightarrow>
     map_of (filter (\<lambda>c. snd c \<noteq> None) cs) k = override (map_of cs k) None"
proof (induction cs)
  case (Cons c cs)
  have "map_of (filter (\<lambda>c. snd c \<noteq> None) cs) (fst c) = None" "map_of cs (fst c) = None"
    using Cons.prems by (auto intro!: before_absent[of _ asc])
  then show ?case
    using Cons by (cases c) auto
qed simp

lemma overlay_before:
  assumes "\<forall>y\<in>set ps \<union> set cs. before asc q (fst y)"
  shows "\<forall>y\<in>set (overlay asc ps cs). before asc q (fst y)" "map_of (overlay asc ps cs) q = None"
  using assms overlay_keys[of _ asc ps cs] by (auto intro!: before_absent[of _ asc])

lemma overlay_spec:
  "sorted_wrt (before asc) (map fst ps) \<Longrightarrow> sorted_wrt (before asc) (map fst cs) \<Longrightarrow>
     sorted_wrt (before asc) (map fst (overlay asc ps cs)) \<and>
     map_of (overlay asc ps cs) k = override (map_of cs k) (map_of ps k)"
proof (induction asc ps cs rule: overlay.induct)
  case (1 asc cs)
  then show ?case
    using filter_override[of asc cs k] by (simp add: sorted_wrt_map sorted_wrt_filter)
next
  case (2 asc p ps)
  then show ?case by simp
next
  case (3 asc p ps c cs)
  consider "before asc (fst p) (fst c)" | "fst p = fst c" | "before asc (fst c) (fst p)"
    using before_order(3) by blast
  then show ?case
  proof cases
    case 1
    then have b: "\<forall>y\<in>set ps \<union> set (c # cs). before asc (fst p) (fst y)"
      using 3 by (auto dest: before_order(2)[OF 1])
    have "map_of (c # cs) (fst p) = None"
      using b by (intro before_absent[of _ asc]) auto
    then show ?thesis
      using 1 3 overlay_before[OF b] by (cases p) auto
  next
    case 2
    then have b: "\<forall>y\<in>set ps \<union> set cs. before asc (fst c) (fst y)"
      using 3 by auto
    show ?thesis
      using 2 3 overlay_before[OF b] before_order(1)
      by (cases c; cases p) (auto simp: Let_def)
  next
    case cp: 3
    then have b: "\<forall>y\<in>set (p # ps) \<union> set cs. before asc (fst c) (fst y)"
      using 3 by (auto dest: before_order(2)[OF cp])
    show ?thesis
      using cp 3 overlay_before[OF b] before_order(1) before_order(4)[OF cp]
      by (cases c) (auto simp: Let_def)
  qed
qed

subsection \<open>Order and direction\<close>

lemma sorted_before: "ascending es \<Longrightarrow> sorted_wrt (before asc) (map fst (ordered asc es))"
  by (cases asc) (simp_all add: ordered_def before_def[abs_def] rev_map[symmetric] sorted_wrt_rev)

lemma before_ascending: "sorted_wrt (before asc) (map fst es) \<Longrightarrow> ascending (ordered asc es)"
  by (cases asc) (simp_all add: ordered_def before_def[abs_def] rev_map[symmetric] sorted_wrt_rev)

lemma map_of_ordered: "ascending es \<Longrightarrow> map_of (ordered asc es) = map_of es"
  using ascending_distinct[of es] map_of_inject_set[of "rev es" es] by (simp add: ordered_def rev_map[symmetric])

lemma ordered_ordered [simp]: "ordered asc (ordered asc es) = es"
  by (simp add: ordered_def)

lemma map_of_inDomain: "map_of (inDomain start end es) k = (if IsKeyInDomain k start end then map_of es k else None)"
  using map_of_filter_key[of "\<lambda>k. IsKeyInDomain k start end" es k] by (simp add: inDomain_def)

lemma map_of_someItems: "map_of (someItems es) k = map_option Some (map_of es k)"
  by (induction es) (auto simp: someItems_def)

lemma keys_someItems [simp]: "map fst (someItems es) = map fst es"
  by (auto simp: someItems_def)

lemma someItems_ordered: "someItems (ordered asc es) = ordered asc (someItems es)"
  by (simp add: someItems_def ordered_def rev_map)

lemma overlay_items:
  assumes "ascending ps" "ascending cs" "ascending es"
    "\<And>k. map_of es k = override (map_of cs k) (map_of ps k)"
  shows "overlay asc (ordered asc ps) (ordered asc cs) = ordered asc es"
proof -
  let ?r = "overlay asc (ordered asc ps) (ordered asc cs)"
  have sp: "sorted_wrt (before asc) (map fst ?r)"
      "map_of ?r k = override (map_of (ordered asc cs) k) (map_of (ordered asc ps) k)" for k
    using overlay_spec[OF sorted_before[OF assms(1)] sorted_before[OF assms(2)]] by blast+
  have asc: "ascending (ordered asc ?r)"
    using before_ascending[OF sp(1)] .
  have "map_of (ordered asc ?r) = map_of es"
    using map_of_ordered[OF asc, of asc] sp(2) assms by (auto simp: map_of_ordered)
  then have "ordered asc ?r = es"
    using ascending_eqI[OF asc assms(3)] by blast
  then show ?thesis
    by (metis ordered_ordered)
qed

lemma domain_convex:
  "IsKeyInDomain a start end \<Longrightarrow> a < b \<Longrightarrow> \<not> IsKeyInDomain b start end \<Longrightarrow> b < c \<Longrightarrow> \<not> IsKeyInDomain c start end"
  by (auto simp: IsKeyInDomain_def split: option.splits if_splits)

lemma itemsInDomain_entered:
  "ascending (x # es) \<Longrightarrow> IsKeyInDomain (fst x) start end \<Longrightarrow> itemsInDomain start end True es = inDomain start end es"
proof (induction es arbitrary: x)
  case (Cons e es)
  show ?case
  proof (cases "IsKeyInDomain (fst e) start end")
    case True
    then show ?thesis
      using Cons.IH[of e] Cons.prems by (auto simp: inDomain_def)
  next
    case False
    then have "\<forall>c\<in>set es. \<not> IsKeyInDomain (fst c) start end"
      using Cons.prems domain_convex[of "fst x" start "end" "fst e"] by auto
    then show ?thesis
      using False by (simp add: inDomain_def filter_empty_conv)
  qed
qed (simp add: inDomain_def)

lemma itemsInDomain_eq: "ascending es \<Longrightarrow> itemsInDomain start end False es = inDomain start end es"
proof (induction es)
  case (Cons e es)
  then show ?case
    using itemsInDomain_entered[of e es start "end"] by (auto simp: inDomain_def)
qed (simp add: inDomain_def)

subsection \<open>The invariant of the cache\<close>

text \<open>The pending writes: \<open>Some None\<close> is a deletion.\<close>

definition dirtyVal :: "(bytes \<times> cValue) list \<Rightarrow> bytes \<rightharpoonup> bytes option" where
  "dirtyVal cs k = (case map_of cs k of None \<Rightarrow> None | Some cv \<Rightarrow> if dirty cv then Some (cvalue cv) else None)"

definition applyDirty :: "bytes \<times> cValue \<Rightarrow> (bytes \<times> bytes) list \<Rightarrow> (bytes \<times> bytes) list" where
  "applyDirty c es = (if dirty (snd c) then
     (case cvalue (snd c) of None \<Rightarrow> kdel (fst c) es | Some v \<Rightarrow> kput (fst c) v es) else es)"

definition cacheAbs :: "('s \<Rightarrow> (bytes \<times> bytes) list) \<Rightarrow> 's cacheStore \<Rightarrow> (bytes \<times> bytes) list" where
  "cacheAbs view store = fold applyDirty (cache store) (view (parent store))"

definition cacheInv ::
  "('s \<Rightarrow> (bytes \<times> bytes) list) \<Rightarrow> (nat \<Rightarrow> 's \<Rightarrow> bool) \<Rightarrow> nat \<Rightarrow> 's cacheStore \<Rightarrow> bool" where
  "cacheInv view ok n store \<longleftrightarrow>
     ok (n + card (dom (dirtyVal (cache store)))) (parent store) \<and>
     ascending (cache store) \<and> ascending (unsortedCache store) \<and> ascending (sortedCache store) \<and>
     (\<forall>k cv. map_of (cache store) k = Some cv \<longrightarrow>
        (if dirty cv then deleted cv = (cvalue cv = None) else cvalue cv = map_of (view (parent store)) k)) \<and>
     fst ` set (unsortedCache store) \<subseteq> dom (dirtyVal (cache store)) \<and>
     fst ` set (sortedCache store) \<subseteq> dom (dirtyVal (cache store)) \<and>
     (\<forall>k \<in> dom (dirtyVal (cache store)). k \<notin> fst ` set (unsortedCache store) \<longrightarrow>
        map_of (sortedCache store) k = dirtyVal (cache store) k)"

lemma finite_dirty [simp]: "finite (dom (dirtyVal cs))"
proof (rule finite_subset)
  show "dom (dirtyVal cs) \<subseteq> fst ` set cs"
    by (auto simp: dirtyVal_def dom_map_of_conv_image_fst[symmetric] split: option.splits)
qed simp

lemma dirtyVal_kput:
  "dirtyVal (kput k cv cs) = (dirtyVal cs)(k := if dirty cv then Some (cvalue cv) else None)"
  by (auto simp: dirtyVal_def map_of_kput)

lemma dirtyVal_Cons:
  "dirtyVal (c # cs) = (\<lambda>k. if k = fst c then (if dirty (snd c) then Some (cvalue (snd c)) else None) else dirtyVal cs k)"
  by (auto simp: dirtyVal_def)

lemma ascending_fold: "ascending es \<Longrightarrow> ascending (fold applyDirty cs es)"
  by (induction cs arbitrary: es)
    (auto simp: applyDirty_def ascending_kput ascending_kdel split: option.splits)

lemma map_of_fold:
  "ascending cs \<Longrightarrow> map_of (fold applyDirty cs es) k = (case dirtyVal cs k of None \<Rightarrow> map_of es k | Some v \<Rightarrow> v)"
proof (induction cs arbitrary: es)
  case (Cons c cs)
  then have "map_of cs (fst c) = None"
    by (auto simp: map_of_eq_None_iff)
  then show ?case
    using Cons by (auto simp: dirtyVal_Cons dirtyVal_def applyDirty_def map_of_kput map_of_kdel split: option.splits)
qed (simp add: dirtyVal_def)

lemma mergeSorted_keys: "x \<in> set (mergeSorted us ss) \<Longrightarrow> x \<in> set us \<union> set ss"
  by (induction us ss rule: mergeSorted.induct) (auto split: if_splits)

lemma mergeSorted_fst: "fst ` set (mergeSorted us ss) \<subseteq> fst ` set us \<union> fst ` set ss"
  using mergeSorted_keys by fastforce

lemma ascending_front:
  assumes "\<forall>y\<in>set us \<union> set ss. q < fst y"
  shows "\<forall>y\<in>set (mergeSorted us ss). q < fst y" "map_of us q = None" "map_of ss q = None"
  using assms mergeSorted_keys[of _ us ss] by (auto simp: map_of_eq_None_iff)

lemma mergeSorted_spec:
  "ascending us \<Longrightarrow> ascending ss \<Longrightarrow> ascending (mergeSorted us ss) \<and>
     map_of (mergeSorted us ss) k = (case map_of us k of None \<Rightarrow> map_of ss k | Some v \<Rightarrow> Some v)"
proof (induction us ss rule: mergeSorted.induct)
  case (3 u us s ss)
  consider (lt) "fst u < fst s" | (eq) "fst u = fst s" | (gt) "fst s < fst u" "\<not> fst u < fst s"
    by fastforce
  then show ?case
  proof cases
    case lt
    then have "\<forall>y\<in>set us \<union> set (s # ss). fst u < fst y"
      using "3.prems" by auto
    from ascending_front[OF this] show ?thesis
      using lt "3.IH"(1)[OF lt] "3.prems" by (cases "k = fst u") (auto split: option.split)
  next
    case eq
    then have "\<forall>y\<in>set us \<union> set ss. fst u < fst y"
      using "3.prems" by auto
    from ascending_front[OF this] show ?thesis
      using eq "3.IH"(3) "3.prems" by (cases "k = fst u") (auto split: option.split)
  next
    case gt
    then have "\<forall>y\<in>set (u # us) \<union> set ss. fst s < fst y"
      using "3.prems" by auto
    from ascending_front[OF this] show ?thesis
      using gt "3.IH"(2)[OF gt(2,1)] "3.prems" by (cases "k = fst s") (auto split: option.split)
  qed
qed (simp_all split: option.split)

lemma cacheAbs_parent: "view p = view (parent cs) \<Longrightarrow> cacheAbs view (cs\<lparr>parent := p\<rparr>) = cacheAbs view cs"
  by (simp add: cacheAbs_def)

lemma cacheInv_parent:
  "cacheInv view ok n cs \<Longrightarrow> view p = view (parent cs) \<Longrightarrow> ok (n + card (dom (dirtyVal (cache cs)))) p \<Longrightarrow>
     cacheInv view ok n (cs\<lparr>parent := p\<rparr>)"
  by (simp add: cacheInv_def)

lemma map_of_cacheAbs:
  "ascending (cache cs) \<Longrightarrow> map_of (cacheAbs view cs) k =
     (case dirtyVal (cache cs) k of None \<Rightarrow> map_of (view (parent cs)) k | Some v \<Rightarrow> v)"
  by (simp add: cacheAbs_def map_of_fold)

text \<open>A clean value put in the cache changes nothing; a dirty one is a pending write.\<close>

lemma dirtyVal_clean:
  "map_of cs k = None \<Longrightarrow> dirtyVal (kput k \<lparr>cvalue = v, deleted = d, dirty = False\<rparr> cs) = dirtyVal cs"
  by (auto simp: dirtyVal_def map_of_kput)

lemma cacheInv_clean:
  assumes "cacheInv view ok n cs" "map_of (cache cs) k = None" "v = map_of (view (parent cs)) k"
  shows "cacheInv view ok n (cs\<lparr>cache := kput k \<lparr>cvalue = v, deleted = False, dirty = False\<rparr> (cache cs)\<rparr>)"
proof -
  show ?thesis
    using assms unfolding cacheInv_def by (auto simp: dirtyVal_clean ascending_kput map_of_kput)
qed

lemma cacheInv_dirty:
  assumes "cacheInv view ok (Suc n) cs" "del = (v = None)" "\<And>i j s. ok i s \<Longrightarrow> j \<le> i \<Longrightarrow> ok j s"
  shows "cacheInv view ok n (cs\<lparr>cache := kput k \<lparr>cvalue = v, deleted = del, dirty = True\<rparr> (cache cs),
      unsortedCache := kput k () (unsortedCache cs)\<rparr>)"
proof -
  have "card (dom ((dirtyVal (cache cs))(k \<mapsto> v))) \<le> Suc (card (dom (dirtyVal (cache cs))))"
    by (simp add: card_insert_if)
  then have "ok (n + card (dom ((dirtyVal (cache cs))(k \<mapsto> v)))) (parent cs)"
    using assms(1) assms(3)[of "Suc n + card (dom (dirtyVal (cache cs)))"] unfolding cacheInv_def by simp
  then show ?thesis
    using assms(1,2) unfolding cacheInv_def
    by (auto simp: dirtyVal_kput ascending_kput map_of_kput set_keys_kput)
qed

lemma cacheAbs_clean:
  assumes "ascending (cache cs)" "ascending (view (parent cs))" "map_of (cache cs) k = None"
  shows "cacheAbs view (cs\<lparr>cache := kput k \<lparr>cvalue = v, deleted = False, dirty = False\<rparr> (cache cs)\<rparr>) = cacheAbs view cs"
proof (rule ascending_eqI)
  show "ascending (cacheAbs view (cs\<lparr>cache := kput k \<lparr>cvalue = v, deleted = False, dirty = False\<rparr> (cache cs)\<rparr>))"
    "ascending (cacheAbs view cs)"
    using assms by (simp_all add: cacheAbs_def ascending_fold)
  show "map_of (cacheAbs view (cs\<lparr>cache := kput k \<lparr>cvalue = v, deleted = False, dirty = False\<rparr> (cache cs)\<rparr>))
      = map_of (cacheAbs view cs)"
    using assms by (intro ext) (simp add: map_of_cacheAbs ascending_kput dirtyVal_clean split: option.split)
qed

lemma cacheAbs_dirty:
  assumes "ascending (cache cs)" "ascending (view (parent cs))"
  shows "cacheAbs view (cs\<lparr>cache := kput k \<lparr>cvalue = v, deleted = del, dirty = True\<rparr> (cache cs), unsortedCache := u\<rparr>)
      = (case v of None \<Rightarrow> kdel k (cacheAbs view cs) | Some x \<Rightarrow> kput k x (cacheAbs view cs))"
proof (rule ascending_eqI)
  have *: "ascending (cacheAbs view cs)"
    using assms by (simp add: cacheAbs_def ascending_fold)
  then show "ascending (case v of None \<Rightarrow> kdel k (cacheAbs view cs) | Some x \<Rightarrow> kput k x (cacheAbs view cs))"
    by (simp add: ascending_kdel ascending_kput split: option.split)
  show "ascending (cacheAbs view (cs\<lparr>cache := kput k \<lparr>cvalue = v, deleted = del, dirty = True\<rparr> (cache cs), unsortedCache := u\<rparr>))"
    using assms by (simp add: cacheAbs_def ascending_fold)
  show "map_of (cacheAbs view (cs\<lparr>cache := kput k \<lparr>cvalue = v, deleted = del, dirty = True\<rparr> (cache cs), unsortedCache := u\<rparr>))
      = map_of (case v of None \<Rightarrow> kdel k (cacheAbs view cs) | Some x \<Rightarrow> kput k x (cacheAbs view cs))"
    using assms
    by (intro ext) (auto simp: map_of_cacheAbs ascending_kput dirtyVal_kput map_of_kput map_of_kdel split: option.split)
qed

subsection \<open>The operations keep the contract\<close>

context kv_store
begin

abbreviation "cok \<equiv> cacheInv view ok"
abbreviation "cview \<equiv> cacheAbs view"

lemma cok_simps:
  assumes "cok n cs"
  shows "ascending (cache cs)" "ascending (view (parent cs))" "ascending (cview cs)"
    "ok (n + card (dom (dirtyVal (cache cs)))) (parent cs)"
proof -
  show "ascending (cache cs)" "ok (n + card (dom (dirtyVal (cache cs)))) (parent cs)"
    using assms by (simp_all add: cacheInv_def)
  then show "ascending (view (parent cs))" "ascending (cview cs)"
    using view_ascending by (auto simp: cacheAbs_def intro!: ascending_fold)
qed

lemma cache_get:
  assumes "cok n cs" "cacheGet ops (Some k) cs = (r, cs')"
  shows "r = Inr (map_of (cview cs) k) \<and> cok n cs' \<and> cview cs' = cview cs"
proof (cases "map_of (cache cs) k")
  case None
  obtain r0 p where g: "opGet ops (Some k) (parent cs) = (r0, p)"
    by fastforce
  have law: "r0 = Inr (map_of (view (parent cs)) k)" "ok (n + card (dom (dirtyVal (cache cs)))) p" "view p = view (parent cs)"
    using get_law[OF cok_simps(4)[OF assms(1)] g] by auto
  let ?c = "cs\<lparr>parent := p\<rparr>" and ?v = "map_of (view (parent cs)) k"
  have c: "cok n ?c" "cview ?c = cview cs" "map_of (cache ?c) k = None"
    using cacheInv_parent[OF assms(1) law(3,2)] cacheAbs_parent[OF law(3)] None by simp_all
  have out: "r = Inr ?v" "cs' = ?c\<lparr>cache := kput k \<lparr>cvalue = ?v, deleted = False, dirty = False\<rparr> (cache ?c)\<rparr>"
    using assms(2) None g law(1)
    by (simp_all add: cacheGet_def AssertValidKey_def bytesOf_def onParent_def bindA_def setCacheValue_def Let_def)
  have "?v = map_of (cview cs) k"
    using None cok_simps(1)[OF assms(1)] by (simp add: map_of_cacheAbs dirtyVal_def)
  then show ?thesis
    using out c cacheInv_clean[OF c(1,3), of ?v] cacheAbs_clean[of ?c view k ?v] cok_simps[OF c(1)] law(3) by simp
next
  case (Some cv)
  then have "cvalue cv = map_of (cview cs) k"
    using assms(1) cok_simps(1)[OF assms(1)] by (auto simp: cacheInv_def map_of_cacheAbs dirtyVal_def)
  then show ?thesis
    using assms Some by (auto simp: cacheGet_def AssertValidKey_def bytesOf_def bindA_def)
qed

lemma cache_has:
  assumes "cok n cs" "cacheHas ops (Some k) cs = (b, cs')"
  shows "b = Inr (map_of (cview cs) k \<noteq> None) \<and> cok n cs' \<and> cview cs' = cview cs"
proof -
  obtain r cs1 where g: "cacheGet ops (Some k) cs = (r, cs1)"
    by fastforce
  then show ?thesis
    using cache_get[OF assms(1) g] assms(2) by (auto simp: cacheHas_def bindA_def)
qed

lemma cache_set:
  assumes "cok (Suc n) cs" "cacheSet ops (Some k) (Some v) cs = (u, cs')"
  shows "u = Inr () \<and> cok n cs' \<and> cview cs' = kput k v (cview cs)"
proof -
  have "u = Inr ()" "cs' = cs\<lparr>cache := kput k \<lparr>cvalue = Some v, deleted = False, dirty = True\<rparr> (cache cs),
      unsortedCache := kput k () (unsortedCache cs)\<rparr>"
    using assms(2)
    by (simp_all add: cacheSet_def AssertValidKey_def AssertValidValue_def bindA_def setCacheValue_def bytesOf_def Let_def)
  then show ?thesis
    using cacheInv_dirty[OF assms(1), of False "Some v" k] ok_mono cacheAbs_dirty[where cs = cs and view = view and v = "Some v"]
      cok_simps(1,2)[OF assms(1)] by simp
qed

lemma cache_delete:
  assumes "cok (Suc n) cs" "cacheDelete ops (Some k) cs = (u, cs')"
  shows "u = Inr () \<and> cok n cs' \<and> cview cs' = kdel k (cview cs)"
proof -
  have "u = Inr ()" "cs' = cs\<lparr>cache := kput k \<lparr>cvalue = None, deleted = True, dirty = True\<rparr> (cache cs),
      unsortedCache := kput k () (unsortedCache cs)\<rparr>"
    using assms(2)
    by (simp_all add: cacheDelete_def AssertValidKey_def bindA_def setCacheValue_def bytesOf_def Let_def)
  then show ?thesis
    using cacheInv_dirty[OF assms(1), of True None k] ok_mono cacheAbs_dirty[where cs = cs and view = view and v = None]
      cok_simps(1,2)[OF assms(1)] by simp
qed

lemma collectDirty_ok:
  "set keys \<subseteq> dom (dirtyVal cs) \<Longrightarrow> collectDirty cs keys = Inr (map (\<lambda>k. (k, the (dirtyVal cs k))) keys)"
  by (induction keys) (auto simp: dirtyVal_def split: option.splits if_splits)

lemma dirtyItems_ok:
  assumes "cok n cs"
  shows "\<exists>cs'. dirtyItems start end cs = (Inr (), cs') \<and> cok n cs' \<and> cview cs' = cview cs \<and> ascending (sortedCache cs')
    \<and> parent cs' = parent cs \<and> cache cs' = cache cs
    \<and> (\<forall>k. IsKeyInDomain k start end \<longrightarrow> map_of (sortedCache cs') k = dirtyVal (cache cs) k)"
proof -
  let ?d = "dirtyVal (cache cs)" and ?us = "inDomain start end (unsortedCache cs)"
  let ?new = "map (\<lambda>k. (k, the (?d k))) (map fst ?us)"
  let ?cs = "cs\<lparr>unsortedCache := filter (\<lambda>e. \<not> IsKeyInDomain (fst e) start end) (unsortedCache cs),
    sortedCache := mergeSorted ?new (sortedCache cs)\<rparr>"
  have inv: "ascending (unsortedCache cs)" "ascending (sortedCache cs)" "fst ` set (unsortedCache cs) \<subseteq> dom ?d"
      "fst ` set (sortedCache cs) \<subseteq> dom ?d"
      "\<forall>k\<in>dom ?d. k \<notin> fst ` set (unsortedCache cs) \<longrightarrow> map_of (sortedCache cs) k = ?d k"
    using assms by (simp_all add: cacheInv_def)
  have new: "ascending ?new" "sort_key fst ?new = ?new" "fst ` set ?new = fst ` set ?us"
    using ascending_filter[OF inv(1)]
    by (auto simp: inDomain_def comp_def image_image strict_sorted_iff intro!: sort_key_id_if_sorted)
  have upd: "map_of ?new k = (if k \<in> fst ` set ?us then Some (the (?d k)) else None)" for k
    unfolding map_of_map_restrict by simp
  note spec = mergeSorted_spec[OF new(1) inv(2)]
  have sorted: "map_of (mergeSorted ?new (sortedCache cs)) k = ?d k"
    if "IsKeyInDomain k start end \<or> k \<notin> fst ` set (unsortedCache cs)" for k
  proof (cases "k \<in> fst ` set ?us")
    case True
    then have "k \<in> dom ?d"
      using inv(3) by (auto simp: inDomain_def)
    then show ?thesis
      using True spec[of k] upd[of k] by auto
  next
    case False
    then have "k \<notin> fst ` set (unsortedCache cs)"
      using that by (auto simp: inDomain_def)
    then have "map_of (sortedCache cs) k = ?d k"
      using inv(4,5) by (cases "k \<in> dom ?d") (auto simp: map_of_eq_None_iff domIff)
    then show ?thesis
      using False spec[of k] upd[of k] by simp
  qed
  have "fst ` set ?us \<subseteq> fst ` set (unsortedCache cs)"
    by (auto simp: inDomain_def)
  then have us: "fst ` set ?us \<subseteq> dom ?d"
    using inv(3) by (rule subset_trans)
  then have keys: "fst ` set (mergeSorted ?new (sortedCache cs)) \<subseteq> dom ?d"
    by (intro subset_trans[OF mergeSorted_fst] Un_least) (use new(3) inv(4) in simp_all)
  have "map_of (mergeSorted ?new (sortedCache cs)) k = ?d k"
    if "k \<notin> fst ` set (filter (\<lambda>e. \<not> IsKeyInDomain (fst e) start end) (unsortedCache cs))" for k
    using that by (intro sorted) auto
  moreover have "fst ` set (filter (\<lambda>e. \<not> IsKeyInDomain (fst e) start end) (unsortedCache cs)) \<subseteq> dom ?d"
    using inv(3) by auto
  ultimately have "cok n ?cs"
    using assms spec keys ascending_filter[OF inv(1)] unfolding cacheInv_def by simp
  moreover have "dirtyItems start end cs = (Inr (), ?cs)"
    using collectDirty_ok[of "map fst ?us" "cache cs"] us new(2) by (simp add: dirtyItems_def Let_def)
  ultimately show ?thesis
    using sorted spec by (auto simp: cacheAbs_def)
qed

lemma cache_iterator:
  assumes "cok n cs" "cacheIterator ops asc start end cs = (it, cs')"
  shows "it = Inr \<lparr>itStart = start, itEnd = end, itItems = someItems (ordered asc (inDomain start end (cview cs)))\<rparr>
    \<and> cok n cs' \<and> cview cs' = cview cs"
proof -
  obtain r p where g: "opIterator ops asc start end (parent cs) = (r, p)"
    by fastforce
  let ?ps = "someItems (inDomain start end (view (parent cs)))"
  have law: "r = Inr \<lparr>itStart = start, itEnd = end, itItems = ordered asc ?ps\<rparr>"
      "ok (n + card (dom (dirtyVal (cache cs)))) p" "view p = view (parent cs)"
    using iterator_law[OF cok_simps(4)[OF assms(1)] g] by (simp_all add: someItems_ordered)
  let ?c = "cs\<lparr>parent := p\<rparr>"
  have c: "cok n ?c" "cview ?c = cview cs"
    using cacheInv_parent[OF assms(1) law(3,2)] cacheAbs_parent[OF law(3)] by simp_all
  obtain d where d: "dirtyItems start end ?c = (Inr (), d)" "cok n d" "cview d = cview ?c" "ascending (sortedCache d)"
      "\<And>k. IsKeyInDomain k start end \<Longrightarrow> map_of (sortedCache d) k = dirtyVal (cache cs) k"
    using dirtyItems_ok[OF c(1), of start "end"] by auto
  let ?cs = "inDomain start end (sortedCache d)" and ?es = "inDomain start end (cview cs)"
  let ?iter = "\<lparr>cparent = \<lparr>itStart = start, itEnd = end, itItems = ordered asc ?ps\<rparr>,
    ccache = newMemIterator start end (sortedCache d) asc, cascending = asc\<rparr>"
  have "overlay asc (ordered asc ?ps) (ordered asc ?cs) = ordered asc (someItems ?es)"
  proof (rule overlay_items)
    show "ascending ?ps" "ascending ?cs" "ascending (someItems ?es)"
      using cok_simps[OF assms(1)] d(4) by (simp_all add: inDomain_def ascending_filter)
    show "map_of (someItems ?es) k = override (map_of ?cs k) (map_of ?ps k)" for k
      using d(5)[of k] map_of_cacheAbs[OF cok_simps(1)[OF assms(1)], of view k]
      by (cases "dirtyVal (cache cs) k" rule: option.exhaust; cases "the (dirtyVal (cache cs) k)")
        (auto simp: map_of_someItems map_of_inDomain)
  qed
  then have "produced ?iter = someItems (ordered asc ?es)"
    by (simp add: produced_def newMemIterator_def memItems_def itemsInDomain_eq[OF d(4)] someItems_ordered)
  moreover have "mergeDomain ?iter = (start, end)"
    by (simp add: mergeDomain_def newMemIterator_def compareI_def)
  ultimately show ?thesis
    using assms(2) g law(1) d(1-3) c(2) drain_produced[of ?iter]
    by (auto simp: cacheIterator_def bindA_def onParent_def Let_def)
qed

text \<open>The cache-wrap of a store is a store.\<close>

lemma cacheOps_simps:
  "opGet (cacheOps ops) = cacheGet ops" "opHas (cacheOps ops) = cacheHas ops" "opSet (cacheOps ops) = cacheSet ops"
  "opDelete (cacheOps ops) = cacheDelete ops" "opIterator (cacheOps ops) = cacheIterator ops"
  by (simp_all add: cacheOps_def)

lemma cache_store: "kv_store (cacheOps ops) cview cok"
proof (unfold_locales, unfold cacheOps_simps)
  show "cok n cs \<Longrightarrow> m \<le> n \<Longrightarrow> cok m cs" for n m cs
    using ok_mono[of "n + card (dom (dirtyVal (cache cs)))" "parent cs" "m + card (dom (dirtyVal (cache cs)))"]
    by (simp add: cacheInv_def)
qed (fact cok_simps(3) cache_get cache_has cache_set cache_delete cache_iterator)+

text \<open>\<open>Write\<close> carries the pending writes to the parent and empties the cache.\<close>

lemma writeKeys_ok:
  assumes "ok (n + length keys) (parent cs)" "set keys \<subseteq> dom (dirtyVal (cache cs))"
    "\<And>k cv. map_of (cache cs) k = Some cv \<Longrightarrow> dirty cv \<Longrightarrow> deleted cv = (cvalue cv = None)"
  shows "\<exists>p. writeKeys ops keys cs = (Inr (), cs\<lparr>parent := p\<rparr>) \<and> ok n p
    \<and> map_of (view p) = (\<lambda>k. if k \<in> set keys then the (dirtyVal (cache cs) k) else map_of (view (parent cs)) k)"
  using assms
proof (induction keys arbitrary: cs)
  case Nil
  then show ?case by (intro exI[of _ "parent cs"]) simp
next
  case (Cons k keys)
  obtain cv where cv: "map_of (cache cs) k = Some cv" "dirty cv" "deleted cv = (cvalue cv = None)"
    using Cons.prems(2,3) by (auto simp: dirtyVal_def split: option.splits if_splits)
  let ?op = "if deleted cv then opDelete ops (Some k) else opSet ops (Some k) (cvalue cv)"
  obtain u p where op: "?op (parent cs) = (u, p)"
    by fastforce
  have p: "u = Inr ()" "ok (n + length keys) p" "map_of (view p) = (map_of (view (parent cs)))(k := cvalue cv)"
    using op cv(3) Cons.prems(1) delete_law[of "n + length keys" "parent cs" k u p]
      set_law[of "n + length keys" "parent cs" k "the (cvalue cv)" u p]
    by (auto simp: map_of_kdel map_of_kput split: if_splits)
  from Cons.IH[of "cs\<lparr>parent := p\<rparr>"] p(2) Cons.prems(2,3)
  obtain q where q: "writeKeys ops keys (cs\<lparr>parent := p\<rparr>) = (Inr (), cs\<lparr>parent := q\<rparr>)" "ok n q"
      "map_of (view q) = (\<lambda>k. if k \<in> set keys then the (dirtyVal (cache cs) k) else map_of (view p) k)"
    by (auto cong: if_cong)
  have "writeKeys ops (k # keys) cs = (Inr (), cs\<lparr>parent := q\<rparr>)"
    using q(1) op p(1) cv by (auto simp: bindA_def onParent_def)
  moreover have "map_of (view q) = (\<lambda>i. if i \<in> set (k # keys) then the (dirtyVal (cache cs) i) else map_of (view (parent cs)) i)"
    unfolding q(3) p(3) using cv by (auto simp: dirtyVal_def)
  ultimately show ?case
    using q(2) by blast
qed

lemma cache_write:
  assumes "cok n cs" "cacheWrite ops cs = (u, cs')"
  shows "u = Inr () \<and> cs' = newCache (parent cs') \<and> ok n (parent cs') \<and> view (parent cs') = cview cs"
proof -
  let ?d = "dirtyVal (cache cs)"
  let ?keys = "sort (map fst (filter (\<lambda>(key, dbValue). dirty dbValue) (cache cs)))"
  have dist: "distinct (map fst (cache cs))"
    using ascending_distinct cok_simps(1)[OF assms(1)] by blast
  have keys: "set ?keys = dom ?d"
    using map_of_eq_Some_iff[OF dist] by (force simp: dirtyVal_def split: option.splits if_splits)
  have "distinct ?keys"
    using dist by (simp add: distinct_map_filter)
  then have "length ?keys = card (dom ?d)"
    using distinct_card[of ?keys] keys by simp
  then obtain p where p: "writeKeys ops ?keys cs = (Inr (), cs\<lparr>parent := p\<rparr>)" "ok n p"
      "map_of (view p) = (\<lambda>k. if k \<in> set ?keys then the (?d k) else map_of (view (parent cs)) k)"
    using writeKeys_ok[of n ?keys cs] assms(1) keys by (auto simp: cacheInv_def)
  have "view p = cview cs"
  proof (rule ascending_eqI)
    show "map_of (view p) = map_of (cview cs)"
      unfolding p(3) keys
      by (intro ext) (auto simp: map_of_cacheAbs[OF cok_simps(1)[OF assms(1)]] domIff)
  qed (use view_ascending[OF p(2)] cok_simps(3)[OF assms(1)] in simp_all)
  then show ?thesis
    using assms(2) p(1,2) by (auto simp: cacheWrite_def bindA_def newCache_def Let_def)
qed

lemma cache_new: "ok n p \<Longrightarrow> cok n (newCache p) \<and> cview (newCache p) = view p"
  by (simp add: newCache_def cacheInv_def cacheAbs_def dirtyVal_def dom_def)

end

end
