(* ===== verification/Prefix_Store.thy ===== *)
theory Prefix_Store
  imports Kv_Store
begin

text \<open>
  The view of a store under a key prefix (\<^verbatim>\<open>pkgs/store/prefix\<close>). Its state is the parent's; the
  iterator asks the parent for the range of the prefix and strips it from the keys.
\<close>

definition cloneAppend :: "bytes \<Rightarrow> bytes \<Rightarrow> bytes" where
  "cloneAppend bz tail = bz @ tail"

definition prefixKey :: "bytes \<Rightarrow> bytes option \<Rightarrow> bytes option result" where
  "prefixKey prefix key = (case key of None \<Rightarrow> Inl (Panic ''nil key on Store'') | Some k \<Rightarrow> Inr (Some (cloneAppend prefix k)))"

definition prefixGet :: "'s kvOps \<Rightarrow> bytes \<Rightarrow> bytes option \<Rightarrow> ('s, bytes option) act" where
  "prefixGet ops prefix key = bindA (liftA (prefixKey prefix key)) (opGet ops)"

definition prefixHas :: "'s kvOps \<Rightarrow> bytes \<Rightarrow> bytes option \<Rightarrow> ('s, bool) act" where
  "prefixHas ops prefix key = bindA (liftA (prefixKey prefix key)) (opHas ops)"

definition prefixSet :: "'s kvOps \<Rightarrow> bytes \<Rightarrow> bytes option \<Rightarrow> bytes option \<Rightarrow> ('s, unit) act" where
  "prefixSet ops prefix key v = bindA (liftA (AssertValidKey key)) (\<lambda>u.
     bindA (liftA (AssertValidValue v)) (\<lambda>u.
     bindA (liftA (prefixKey prefix key)) (\<lambda>k. opSet ops k v)))"

definition prefixDelete :: "'s kvOps \<Rightarrow> bytes \<Rightarrow> bytes option \<Rightarrow> ('s, unit) act" where
  "prefixDelete ops prefix key = bindA (liftA (prefixKey prefix key)) (opDelete ops)"

definition prefixWrite :: "('s, unit) act" where
  "prefixWrite = failA (Panic ''unexpected .Write() on prefix.Store'')"

definition HasPrefix :: "bytes \<Rightarrow> bytes \<Rightarrow> bool" where
  "HasPrefix key prefix \<longleftrightarrow> length key \<ge> length prefix \<and> take (length prefix) key = prefix"

definition stripPrefix :: "bytes \<Rightarrow> bytes \<Rightarrow> bytes result" where
  "stripPrefix key prefix =
     (if length key < length prefix \<or> take (length prefix) key \<noteq> prefix then Inl (Panic ''should not happen'')
      else Inr (drop (length prefix) key))"

text \<open>The iterator is valid until the parent's key leaves the prefix.\<close>

record prefixIterator =
  piParent :: "(bytes \<times> bytes option) list"
  piValid :: bool

definition newPrefixIterator :: "bytes \<Rightarrow> (bytes \<times> bytes option) list \<Rightarrow> prefixIterator" where
  "newPrefixIterator prefix its = \<lparr>piParent = its, piValid = (its \<noteq> [] \<and> HasPrefix (fst (hd its)) prefix)\<rparr>"

definition prefixIterValid :: "prefixIterator \<Rightarrow> bool" where
  "prefixIterValid iter \<longleftrightarrow> piValid iter \<and> piParent iter \<noteq> []"

definition prefixIterNext :: "bytes \<Rightarrow> prefixIterator \<Rightarrow> prefixIterator result" where
  "prefixIterNext prefix iter =
     (if \<not> piValid iter then Inl (Panic ''prefixIterator invalid, cannot call Next()'')
      else if piParent iter = [] then Inl (Panic ''invalid iterator'')
      else let its = tl (piParent iter)
        in Inr \<lparr>piParent = its,
             piValid = (if its = [] \<or> \<not> HasPrefix (fst (hd its)) prefix then False else piValid iter)\<rparr>)"

definition prefixIterKey :: "bytes \<Rightarrow> prefixIterator \<Rightarrow> bytes result" where
  "prefixIterKey prefix iter =
     (if \<not> piValid iter then Inl (Panic ''prefixIterator invalid, cannot call Key()'')
      else if piParent iter = [] then Inl (Panic ''invalid iterator'')
      else stripPrefix (fst (hd (piParent iter))) prefix)"

definition prefixIterValue :: "prefixIterator \<Rightarrow> bytes option result" where
  "prefixIterValue iter =
     (if \<not> piValid iter then Inl (Panic ''prefixIterator invalid, cannot call Value()'')
      else if piParent iter = [] then Inl (Panic ''invalid iterator'')
      else Inr (snd (hd (piParent iter))))"

lemma prefixIterNext_shorter:
  "prefixIterNext prefix iter = Inr iter' \<Longrightarrow> length (piParent iter') < length (piParent iter)"
  by (cases "piParent iter") (auto simp: prefixIterNext_def Let_def split: if_splits)

function prefixDrain :: "bytes \<Rightarrow> prefixIterator \<Rightarrow> (bytes \<times> bytes option) list result" where
  "prefixDrain prefix iter =
     (if \<not> prefixIterValid iter then Inr []
      else bindR (prefixIterKey prefix iter) (\<lambda>k.
        bindR (prefixIterValue iter) (\<lambda>x.
        bindR (prefixIterNext prefix iter) (\<lambda>iter2.
        bindR (prefixDrain prefix iter2) (\<lambda>rest. Inr ((k, x) # rest))))))"
  by auto
termination
  by (relation "measure (\<lambda>(prefix, iter). length (piParent iter))") (auto dest: prefixIterNext_shorter)
declare prefixDrain.simps [simp del]

definition prefixIter :: "'s kvOps \<Rightarrow> bytes \<Rightarrow> bool \<Rightarrow> bytes option \<Rightarrow> bytes option \<Rightarrow> ('s, kvIter) act" where
  "prefixIter ops prefix asc start end =
     (let newstart = cloneAppend prefix (bytesOf start);
          newend = (case end of None \<Rightarrow> PrefixEndBytes prefix | Some e \<Rightarrow> Some (cloneAppend prefix e))
      in bindA (opIterator ops asc (Some newstart) newend) (\<lambda>p s.
           (bindR (prefixDrain prefix (newPrefixIterator prefix (itItems p))) (\<lambda>its.
              Inr \<lparr>itStart = start, itEnd = end, itItems = its\<rparr>), s)))"

definition prefixOps :: "'s kvOps \<Rightarrow> bytes \<Rightarrow> 's kvOps" where
  "prefixOps ops prefix = \<lparr>opGet = prefixGet ops prefix, opHas = prefixHas ops prefix, opSet = prefixSet ops prefix,
     opDelete = prefixDelete ops prefix, opIterator = prefixIter ops prefix, opWrite = prefixWrite\<rparr>"

end
