(* ===== verification/Prefix_Correct.thy ===== *)
theory Prefix_Correct
  imports Prefix_Store
begin

text \<open>
  The keys with a prefix are exactly the range \<open>[prefix, PrefixEndBytes prefix)\<close>, so the prefix store
  shows the parent's entries under the prefix, without it, and is a store itself. Writes under one
  prefix leave every key outside of it alone.
\<close>

subsection \<open>The range of a prefix\<close>

lemma le_append: "q @ x \<le> q @ y \<longleftrightarrow> x \<le> (y :: bytes)" "q @ x < q @ y \<longleftrightarrow> x < (y :: bytes)"
  by (induction q) simp_all

lemma between_prefix: "q @ x \<le> k \<Longrightarrow> k < q @ y \<Longrightarrow> \<exists>t. k = q @ (t :: bytes)"
proof (induction q arbitrary: k)
  case (Cons a q)
  then show ?case by (cases k) (auto dest: order.asym)
qed simp

lemma append_ge: "q @ x \<le> k \<Longrightarrow> q \<le> (k :: bytes)"
proof (induction q arbitrary: k)
  case (Cons a q)
  then show ?case by (cases k) auto
qed simp

lemma HasPrefix_iff: "HasPrefix k p \<longleftrightarrow> (\<exists>t. k = p @ t)"
  by (auto simp: HasPrefix_def) (metis append_take_drop_id)

lemma PrefixEndBytes_simps:
  "PrefixEndBytes [] = None"
  "PrefixEndBytes (q @ [b]) = (if b \<noteq> 255 then Some (q @ [b + 1]) else PrefixEndBytes q)"
  by (simp_all add: PrefixEndBytes_def)

lemma byte_max: "(255 :: byte) \<le> c \<longleftrightarrow> c = 255" "\<not> (255 :: byte) < c"
  by (uint_arith, auto)+

lemma byte_between: "b \<noteq> (255 :: byte) \<Longrightarrow> b \<le> c \<and> c < b + 1 \<longleftrightarrow> c = b"
  by (uint_arith, auto)

lemma prefix_range:
  "p \<le> k \<and> (case PrefixEndBytes p of None \<Rightarrow> True | Some e \<Rightarrow> k < e) \<longleftrightarrow> HasPrefix k p"
proof (induction p rule: rev_induct)
  case Nil
  then show ?case by (simp add: PrefixEndBytes_simps HasPrefix_iff)
next
  case (snoc b q)
  show ?case
  proof (cases "b = 255")
    case True
    have "q @ [255] \<le> k \<and> HasPrefix k q \<longleftrightarrow> HasPrefix k (q @ [255])"
    proof -
      have "[255] \<le> t \<longleftrightarrow> (\<exists>r. t = 255 # r)" for t :: bytes
        by (cases t) (auto simp: byte_max)
      then show ?thesis
        by (auto simp: HasPrefix_iff le_append)
    qed
    then show ?thesis
      using True snoc append_ge[of q "[255]" k] by (auto simp: PrefixEndBytes_simps)
  next
    case False
    have between: "[b] \<le> t \<and> t < [b + 1] \<longleftrightarrow> (\<exists>r. t = b # r)" for t :: bytes
      using byte_between[OF False] by (cases t) (auto dest: less_imp_le)
    have "q @ [b] \<le> k \<and> k < q @ [b + 1] \<longleftrightarrow> (\<exists>t. k = q @ t \<and> [b] \<le> t \<and> t < [b + 1])"
      using between_prefix[of q "[b]" k "[b + 1]"] by (auto simp: le_append simp del: Cons_le_Cons Cons_less_Cons)
    then show ?thesis
      using False by (auto simp: PrefixEndBytes_simps HasPrefix_iff between)
  qed
qed

lemma IsKeyInDomain_iff:
  "IsKeyInDomain k start end \<longleftrightarrow> bytesOf start \<le> k \<and> (case end of None \<Rightarrow> True | Some e \<Rightarrow> k < e)"
  by (auto simp: IsKeyInDomain_def not_le not_less split: option.splits)

lemma prefix_domain:
  "IsKeyInDomain k (Some (cloneAppend p (bytesOf start)))
      (case end of None \<Rightarrow> PrefixEndBytes p | Some e \<Rightarrow> Some (cloneAppend p e))
   \<longleftrightarrow> HasPrefix k p \<and> IsKeyInDomain (drop (length p) k) start end"
proof (cases "end")
  case None
  have "p @ s \<le> k \<and> (case PrefixEndBytes p of None \<Rightarrow> True | Some e \<Rightarrow> k < e) \<longleftrightarrow> p @ s \<le> k \<and> HasPrefix k p" for s
    using prefix_range[of p k] append_ge[of p s k] by blast
  note this[of "bytesOf start"]
  then show ?thesis
    by (auto simp: None IsKeyInDomain_iff cloneAppend_def bytesOf_def[of "Some x" for x] HasPrefix_iff le_append)
next
  case (Some e)
  have "p @ s \<le> k \<and> k < p @ e \<longleftrightarrow> (\<exists>t. k = p @ t \<and> s \<le> t \<and> t < e)" for s
    using between_prefix[of p s k e] by (auto simp: le_append)
  note this[of "bytesOf start"]
  then show ?thesis
    by (auto simp: Some IsKeyInDomain_iff cloneAppend_def bytesOf_def[of "Some x" for x] HasPrefix_iff)
qed

subsection \<open>The entries under a prefix\<close>

definition underPrefix :: "bytes \<Rightarrow> (bytes \<times> 'v) list \<Rightarrow> (bytes \<times> 'v) list" where
  "underPrefix p es = map (\<lambda>(k, v). (drop (length p) k, v)) (filter (\<lambda>e. HasPrefix (fst e) p) es)"

lemma map_of_underPrefix: "map_of (underPrefix p es) k = map_of es (p @ k)"
proof (induction es)
  case (Cons e es)
  then show ?case
    by (cases e; cases "HasPrefix (fst e) p") (auto simp: underPrefix_def HasPrefix_iff)
qed (simp add: underPrefix_def)

lemma ascending_underPrefix: "ascending es \<Longrightarrow> ascending (underPrefix p es)"
  by (induction es) (auto simp: underPrefix_def HasPrefix_iff le_append)

lemma underPrefix_kput: "ascending es \<Longrightarrow> underPrefix p (kput (p @ k) v es) = kput k v (underPrefix p es)"
  by (rule ascending_eqI)
    (auto simp: ascending_underPrefix ascending_kput map_of_underPrefix map_of_kput)

lemma underPrefix_kdel: "ascending es \<Longrightarrow> underPrefix p (kdel (p @ k) es) = kdel k (underPrefix p es)"
  by (rule ascending_eqI)
    (auto simp: ascending_underPrefix ascending_kdel map_of_underPrefix map_of_kdel)

lemma prefixDrain_ok:
  "\<forall>e\<in>set its. HasPrefix (fst e) p \<Longrightarrow>
     prefixDrain p (newPrefixIterator p its) = Inr (map (\<lambda>(k, v). (drop (length p) k, v)) its)"
proof (induction its)
  case Nil
  then show ?case by (subst prefixDrain.simps) (simp add: newPrefixIterator_def prefixIterValid_def)
next
  case (Cons e its)
  let ?i = "newPrefixIterator p (e # its)"
  have "prefixIterNext p ?i = Inr (newPrefixIterator p its)"
    using Cons.prems by (auto simp: newPrefixIterator_def prefixIterNext_def Let_def)
  moreover have "prefixIterValid ?i" "prefixIterKey p ?i = Inr (drop (length p) (fst e))" "prefixIterValue ?i = Inr (snd e)"
    using Cons.prems
    by (auto simp: newPrefixIterator_def prefixIterValid_def prefixIterKey_def prefixIterValue_def stripPrefix_def HasPrefix_def)
  ultimately show ?case
    using Cons by (subst prefixDrain.simps) (auto split: prod.split)
qed

lemma underPrefix_domain:
  "map (\<lambda>(k, v). (drop (length p) k, v)) (inDomain (Some (cloneAppend p (bytesOf start)))
      (case end of None \<Rightarrow> PrefixEndBytes p | Some e \<Rightarrow> Some (cloneAppend p e)) es)
   = inDomain start end (underPrefix p es)"
  by (induction es) (auto simp: inDomain_def underPrefix_def prefix_domain)

context kv_store
begin

lemma prefixOps_simps:
  "opGet (prefixOps ops p) (Some k) = opGet ops (Some (p @ k))"
  "opHas (prefixOps ops p) (Some k) = opHas ops (Some (p @ k))"
  "opSet (prefixOps ops p) (Some k) (Some v) = opSet ops (Some (p @ k)) (Some v)"
  "opDelete (prefixOps ops p) (Some k) = opDelete ops (Some (p @ k))"
  "opIterator (prefixOps ops p) = prefixIter ops p"
  by (auto simp: prefixOps_def prefixGet_def prefixHas_def prefixSet_def prefixDelete_def prefixKey_def cloneAppend_def
      AssertValidKey_def AssertValidValue_def bindA_def)

lemma prefix_iterator:
  assumes "ok n s" "prefixIter ops p asc start end s = (it, s')"
  shows "it = Inr \<lparr>itStart = start, itEnd = end, itItems = someItems (ordered asc (inDomain start end (underPrefix p (view s))))\<rparr>
    \<and> ok n s' \<and> view s' = view s"
proof -
  let ?s = "Some (cloneAppend p (bytesOf start))"
    and ?e = "case end of None \<Rightarrow> PrefixEndBytes p | Some e \<Rightarrow> Some (cloneAppend p e)"
  let ?items = "someItems (ordered asc (inDomain ?s ?e (view s)))"
  obtain r s1 where g: "opIterator ops asc ?s ?e s = (r, s1)"
    by fastforce
  note law = iterator_law[OF assms(1) g]
  have "\<forall>e\<in>set ?items. HasPrefix (fst e) p"
    by (auto simp: someItems_def ordered_def inDomain_def prefix_domain)
  moreover have "map (\<lambda>(k, v). (drop (length p) k, v)) ?items = someItems (ordered asc (inDomain start end (underPrefix p (view s))))"
    unfolding underPrefix_domain[symmetric] by (simp add: someItems_def ordered_def rev_map case_prod_beta comp_def)
  ultimately show ?thesis
    using assms(2) g law by (auto simp: prefixIter_def bindA_def prefixDrain_ok Let_def)
qed

lemma prefix_store: "kv_store (prefixOps ops p) (\<lambda>s. underPrefix p (view s)) ok"
proof (unfold_locales, unfold prefixOps_simps)
  show "ok n s \<Longrightarrow> ascending (underPrefix p (view s))" for n s
    by (simp add: view_ascending ascending_underPrefix)
  show "ok n s \<Longrightarrow> opGet ops (Some (p @ k)) s = (r, s') \<Longrightarrow>
      r = Inr (map_of (underPrefix p (view s)) k) \<and> ok n s' \<and> underPrefix p (view s') = underPrefix p (view s)" for n s k r s'
    using get_law by (simp add: map_of_underPrefix)
  show "ok n s \<Longrightarrow> opHas ops (Some (p @ k)) s = (b, s') \<Longrightarrow>
      b = Inr (map_of (underPrefix p (view s)) k \<noteq> None) \<and> ok n s' \<and> underPrefix p (view s') = underPrefix p (view s)" for n s k b s'
    using has_law by (simp add: map_of_underPrefix)
  show "ok (Suc n) s \<Longrightarrow> opSet ops (Some (p @ k)) (Some v) s = (u, s') \<Longrightarrow>
      u = Inr () \<and> ok n s' \<and> underPrefix p (view s') = kput k v (underPrefix p (view s))" for n s k v u s'
    using set_law view_ascending by (simp add: underPrefix_kput)
  show "ok (Suc n) s \<Longrightarrow> opDelete ops (Some (p @ k)) s = (u, s') \<Longrightarrow>
      u = Inr () \<and> ok n s' \<and> underPrefix p (view s') = kdel k (underPrefix p (view s))" for n s k u s'
    using delete_law view_ascending by (simp add: underPrefix_kdel)
  show "ok n s \<Longrightarrow> prefixIter ops p asc start end s = (it, s') \<Longrightarrow>
      it = Inr \<lparr>itStart = start, itEnd = end, itItems = someItems (ordered asc (inDomain start end (underPrefix p (view s))))\<rparr>
      \<and> ok n s' \<and> underPrefix p (view s') = underPrefix p (view s)" for n s asc start "end" it s'
    using prefix_iterator by simp
qed (rule ok_mono)

text \<open>Writes under a prefix leave the other keys alone.\<close>

lemma prefix_isolated:
  assumes "ok (Suc n) s" "opSet (prefixOps ops p) (Some k) (Some v) s = (u, s')" "\<not> HasPrefix q p"
  shows "map_of (view s') q = map_of (view s) q"
  using set_law[OF assms(1), of "p @ k" v u s'] assms(2,3) by (auto simp: prefixOps_simps map_of_kput HasPrefix_iff)

end

end
