(* ===== verification/Coins.thy ===== *)
theory Coins
  imports Prelude
begin

text \<open>
  Coin sets (\<^verbatim>\<open>pkgs/std/coin.go\<close>): amounts of denominations, added and subtracted by merging two sorted
  lists, looked up by binary search, printed and parsed. Amounts are \<open>int64\<close>; the checked additions
  are those of the package gnolang/overflow, a parameter (\<open>ovf\<close>) with its documented behaviour as
  the predicate \<open>ovf_spec\<close>. Strings are byte strings; \<open>strings.ToLower\<close> on a string with a byte
  beyond ASCII is a parameter. \<open>sort.Sort\<close> is the insertion sort Go uses up to twelve elements;
  coins of distinct denominations have one sorted order, so that any other sort gives the same list.
  Functions return new lists: that \<open>removeZeroCoins\<close> compacts the slice of its caller in place, which
  \<open>AddUnsafe\<close> passes on when an operand has zero coins, is not part of the values modelled.
\<close>

subsection \<open>Coin\<close>

record Coin =
  Denom :: string
  Amount :: int

record ovf =
  Add64 :: "int \<Rightarrow> int \<Rightarrow> int \<times> bool"
  Sub64 :: "int \<Rightarrow> int \<Rightarrow> int \<times> bool"

definition int64 :: "int \<Rightarrow> bool" where
  "int64 x \<longleftrightarrow> - (2 ^ 63) \<le> x \<and> x < 2 ^ 63"

definition ovf_spec :: "ovf \<Rightarrow> bool" where
  "ovf_spec ov \<longleftrightarrow> (\<forall>a b. int64 a \<longrightarrow> int64 b \<longrightarrow>
     Add64 ov a b = (swrap 64 (a + b), int64 (a + b)) \<and> Sub64 ov a b = (swrap 64 (a - b), int64 (a - b)))"

definition isDigit :: "char \<Rightarrow> bool" where
  "isDigit c \<longleftrightarrow> CHR ''0'' \<le> c \<and> c \<le> CHR ''9''"

definition isLower :: "char \<Rightarrow> bool" where
  "isLower c \<longleftrightarrow> CHR ''a'' \<le> c \<and> c \<le> CHR ''z''"

text \<open>The regular expression \<^verbatim>\<open>^[a-z][a-z0-9]{2,15}$\<close>.\<close>

fun reDnm :: "string \<Rightarrow> bool" where
  "reDnm [] = False"
| "reDnm (c # cs) = (isLower c \<and> 2 \<le> length cs \<and> length cs \<le> 15 \<and> list_all (\<lambda>d. isLower d \<or> isDigit d) cs)"

definition validateDenom :: "string \<Rightarrow> string + unit" where
  "validateDenom denom = (if \<not> reDnm denom then Inl ''invalid denom'' else Inr ())"

definition mustValidateDenom :: "string \<Rightarrow> unit result" where
  "mustValidateDenom denom = (case validateDenom denom of Inl e \<Rightarrow> Inl (Panic e) | Inr u \<Rightarrow> Inr u)"

definition validate :: "string \<Rightarrow> int \<Rightarrow> string + unit" where
  "validate denom amount = bindR (validateDenom denom) (\<lambda>u.
     if amount < 0 then Inl ''negative coin amount'' else Inr ())"

definition NewCoin :: "string \<Rightarrow> int \<Rightarrow> Coin result" where
  "NewCoin denom amount = (case validate denom amount of
     Inl e \<Rightarrow> Inl (Panic e) | Inr u \<Rightarrow> Inr \<lparr>Denom = denom, Amount = amount\<rparr>)"

definition CoinIsValid :: "Coin \<Rightarrow> bool" where
  "CoinIsValid coin = (case validate (Denom coin) (Amount coin) of Inl e \<Rightarrow> False | Inr u \<Rightarrow> True)"

definition CoinIsZero :: "Coin \<Rightarrow> bool" where
  "CoinIsZero coin \<longleftrightarrow> Amount coin = 0"

definition CoinIsPositive :: "Coin \<Rightarrow> bool" where
  "CoinIsPositive coin \<longleftrightarrow> Amount coin > 0"

definition CoinIsNegative :: "Coin \<Rightarrow> bool" where
  "CoinIsNegative coin \<longleftrightarrow> Amount coin < 0"

definition CoinIsGTE :: "Coin \<Rightarrow> Coin \<Rightarrow> bool result" where
  "CoinIsGTE coin other =
     (if Denom coin \<noteq> Denom other then Inl (Panic ''invalid coin denominations'')
      else Inr (Amount coin \<ge> Amount other))"

definition CoinIsLT :: "Coin \<Rightarrow> Coin \<Rightarrow> bool result" where
  "CoinIsLT coin other =
     (if Denom coin \<noteq> Denom other then Inl (Panic ''invalid coin denominations'')
      else Inr (Amount coin < Amount other))"

definition CoinIsEqual :: "Coin \<Rightarrow> Coin \<Rightarrow> bool result" where
  "CoinIsEqual coin other =
     (if Denom coin \<noteq> Denom other then Inl (Panic ''invalid coin denominations'')
      else Inr (Amount coin = Amount other))"

definition CoinAddUnsafe :: "ovf \<Rightarrow> Coin \<Rightarrow> Coin \<Rightarrow> Coin result" where
  "CoinAddUnsafe ov coin coinB =
     (if Denom coin \<noteq> Denom coinB then Inl (Panic ''invalid coin denominations'')
      else case Add64 ov (Amount coin) (Amount coinB) of (sm, ok) \<Rightarrow>
        if \<not> ok then Inl (Panic ''coin add overflow/underflow'')
        else Inr \<lparr>Denom = Denom coin, Amount = sm\<rparr>)"

definition CoinAdd :: "ovf \<Rightarrow> Coin \<Rightarrow> Coin \<Rightarrow> Coin result" where
  "CoinAdd ov coin coinB = bindR (CoinAddUnsafe ov coin coinB) (\<lambda>res.
     if \<not> CoinIsValid res then Inl (Panic ''invalid result'') else Inr res)"

definition CoinSubUnsafe :: "ovf \<Rightarrow> Coin \<Rightarrow> Coin \<Rightarrow> Coin result" where
  "CoinSubUnsafe ov coin coinB =
     (if Denom coin \<noteq> Denom coinB then Inl (Panic ''invalid coin denominations'')
      else case Sub64 ov (Amount coin) (Amount coinB) of (dff, ok) \<Rightarrow>
        if \<not> ok then Inl (Panic ''coin subtract overflow/underflow'')
        else Inr \<lparr>Denom = Denom coin, Amount = dff\<rparr>)"

definition CoinSub :: "ovf \<Rightarrow> Coin \<Rightarrow> Coin \<Rightarrow> Coin result" where
  "CoinSub ov coin coinB = bindR (CoinSubUnsafe ov coin coinB) (\<lambda>res.
     if \<not> CoinIsValid res then Inl (Panic ''invalid result'') else Inr res)"

text \<open>\<open>%d\<close>\<close>

function digits :: "nat \<Rightarrow> string" where
  "digits n = (if n < 10 then [char_of (48 + n)] else digits (n div 10) @ [char_of (48 + n mod 10)])"
  by auto
termination by (relation "measure id") auto
declare digits.simps [simp del]

definition showInt :: "int \<Rightarrow> string" where
  "showInt i = (if i < 0 then CHR ''-'' # digits (nat (- i)) else digits (nat i))"

definition CoinString :: "Coin \<Rightarrow> string" where
  "CoinString coin = (if CoinIsZero coin then '''' else showInt (Amount coin) @ Denom coin)"

subsection \<open>Coins\<close>

type_synonym Coins = "Coin list"

text \<open>
  \<open>removeZeroCoins\<close> compacts its argument in place: \<open>append(coins[:i], coins[i+1:]...)\<close> moves the
  following elements one position down in the caller's array and leaves the last one where it
  was. The loop returns the array as it is afterwards and the length of the result in it.
\<close>

definition shiftDown :: "nat \<Rightarrow> nat \<Rightarrow> 'a list \<Rightarrow> 'a list" where
  "shiftDown i l arr = take i arr @ take (l - Suc i) (drop (Suc i) arr) @ drop (l - 1) arr"

function removeZero_loop :: "nat \<Rightarrow> nat \<Rightarrow> Coins \<Rightarrow> Coins \<times> nat" where
  "removeZero_loop i l arr =
     (if i < l then
        if CoinIsZero (arr ! i) then removeZero_loop i (l - 1) (shiftDown i l arr)
        else removeZero_loop (Suc i) l arr
      else (arr, i))"
  by auto
termination by (relation "measure (\<lambda>(i, l, arr). l - i)") auto
declare removeZero_loop.simps [simp del]

definition removeZeroCoins :: "Coins \<Rightarrow> Coins" where
  "removeZeroCoins coins = (case removeZero_loop 0 (length coins) coins of (arr, i) \<Rightarrow> take i arr)"

definition Sort :: "Coins \<Rightarrow> Coins" where
  "Sort coins = sort_key Denom coins"

fun findDup_loop :: "string \<Rightarrow> int \<Rightarrow> Coins \<Rightarrow> int" where
  "findDup_loop prevDenom i [] = -1"
| "findDup_loop prevDenom i (c # cs) =
     (if Denom c = prevDenom then i else findDup_loop (Denom c) (i + 1) cs)"

fun findDup :: "Coins \<Rightarrow> int" where
  "findDup [] = -1"
| "findDup (c # cs) = findDup_loop (Denom c) 1 cs"

definition asciiLower :: "char \<Rightarrow> char" where
  "asciiLower c = (if CHR ''A'' \<le> c \<and> c \<le> CHR ''Z'' then char_of (of_char c + 32 :: nat) else c)"

definition ToLower :: "(string \<Rightarrow> string) \<Rightarrow> string \<Rightarrow> string" where
  "ToLower uni s = (if list_all (\<lambda>c. (of_char c :: nat) < 128) s then map asciiLower s else uni s)"

fun validTail :: "(string \<Rightarrow> string) \<Rightarrow> string \<Rightarrow> Coins \<Rightarrow> bool" where
  "validTail uni lowDenom [] = True"
| "validTail uni lowDenom (coin # cs) =
     (if ToLower uni (Denom coin) \<noteq> Denom coin then False
      else if Denom coin \<le> lowDenom then False
      else if \<not> CoinIsPositive coin then False
      else validTail uni (Denom coin) cs)"

fun IsValid :: "(string \<Rightarrow> string) \<Rightarrow> Coins \<Rightarrow> bool" where
  "IsValid uni [] = True"
| "IsValid uni [c] = (case validateDenom (Denom c) of Inl e \<Rightarrow> False | Inr u \<Rightarrow> CoinIsPositive c)"
| "IsValid uni (c # d # cs) = (if \<not> IsValid uni [c] then False else validTail uni (Denom c) (d # cs))"

definition NewCoins :: "(string \<Rightarrow> string) \<Rightarrow> Coins \<Rightarrow> Coins result" where
  "NewCoins uni coins =
     (let newCoins = removeZeroCoins coins
      in if newCoins = [] then Inr []
         else let newCoins = Sort newCoins
           in if findDup newCoins \<noteq> -1 then Inl (Panic ''find duplicate denom'')
              else if \<not> IsValid uni newCoins then Inl (Panic ''invalid coin set'')
              else Inr newCoins)"

definition CoinsString :: "Coins \<Rightarrow> string" where
  "CoinsString coins =
     (if coins = [] then ''''
      else let out = concat (map (\<lambda>coin. CoinString coin @ '','') coins)
        in take (length out - 1) out)"

function AddUnsafe :: "ovf \<Rightarrow> Coins \<Rightarrow> Coins \<Rightarrow> Coins result" where
  "AddUnsafe ov [] [] = Inr []"
| "AddUnsafe ov [] (coinB # bs) = Inr (removeZeroCoins (coinB # bs))"
| "AddUnsafe ov (coinA # as) [] = Inr (removeZeroCoins (coinA # as))"
| "AddUnsafe ov (coinA # as) (coinB # bs) =
     (if Denom coinA < Denom coinB then
        bindR (AddUnsafe ov as (coinB # bs)) (\<lambda>rest.
        Inr (if CoinIsZero coinA then rest else coinA # rest))
      else if Denom coinA = Denom coinB then
        bindR (CoinAddUnsafe ov coinA coinB) (\<lambda>res.
        bindR (AddUnsafe ov as bs) (\<lambda>rest.
        Inr (if CoinIsZero res then rest else res # rest)))
      else
        bindR (AddUnsafe ov (coinA # as) bs) (\<lambda>rest.
        Inr (if CoinIsZero coinB then rest else coinB # rest)))"
  by pat_completeness auto
termination by (relation "measure (\<lambda>(ov, as, bs). length as + length bs)") auto

definition Add :: "ovf \<Rightarrow> (string \<Rightarrow> string) \<Rightarrow> Coins \<Rightarrow> Coins \<Rightarrow> Coins result" where
  "Add ov uni coins coinsB = bindR (AddUnsafe ov coins coinsB) (\<lambda>res.
     if \<not> IsValid uni res then Inl (Panic ''invalid result'') else Inr res)"

definition negative :: "Coins \<Rightarrow> Coins" where
  "negative coins = map (\<lambda>coin. \<lparr>Denom = Denom coin, Amount = swrap 64 (- 1 * Amount coin)\<rparr>) coins"

definition SubUnsafe :: "ovf \<Rightarrow> Coins \<Rightarrow> Coins \<Rightarrow> Coins result" where
  "SubUnsafe ov coins coinsB = AddUnsafe ov coins (negative coinsB)"

definition Sub :: "ovf \<Rightarrow> (string \<Rightarrow> string) \<Rightarrow> Coins \<Rightarrow> Coins \<Rightarrow> Coins result" where
  "Sub ov uni coins coinsB = bindR (SubUnsafe ov coins coinsB) (\<lambda>res.
     if \<not> IsValid uni res then Inl (Panic ''invalid result'') else Inr res)"

function AmountOf :: "Coins \<Rightarrow> string \<Rightarrow> int result" where
  "AmountOf coins denom = bindR (mustValidateDenom denom) (\<lambda>u.
     if coins = [] then Inr 0
     else if length coins = 1 then
       Inr (if Denom (coins ! 0) = denom then Amount (coins ! 0) else 0)
     else let midIdx = length coins div 2; coin = coins ! midIdx
       in if denom < Denom coin then AmountOf (take midIdx coins) denom
          else if denom = Denom coin then Inr (Amount coin)
          else AmountOf (drop (midIdx + 1) coins) denom)"
  by auto
termination by (relation "measure (\<lambda>(coins, d). length coins)") auto
declare AmountOf.simps [simp del]

text \<open>The loops over a coin set, which stop at the first coin that decides.\<close>

fun anyCoin :: "(Coin \<Rightarrow> bool result) \<Rightarrow> Coins \<Rightarrow> bool result" where
  "anyCoin p [] = Inr False"
| "anyCoin p (c # cs) = bindR (p c) (\<lambda>b. if b then Inr True else anyCoin p cs)"

definition DenomsSubsetOf :: "Coins \<Rightarrow> Coins \<Rightarrow> bool result" where
  "DenomsSubsetOf coins coinsB =
     (if length coins > length coinsB then Inr False
      else bindR (anyCoin (\<lambda>coin. bindR (AmountOf coinsB (Denom coin)) (\<lambda>a. Inr (a = 0))) coins)
        (\<lambda>missing. Inr (\<not> missing)))"

definition IsAllGT :: "Coins \<Rightarrow> Coins \<Rightarrow> bool result" where
  "IsAllGT coins coinsB =
     (if coins = [] then Inr False
      else if coinsB = [] then Inr True
      else bindR (DenomsSubsetOf coinsB coins) (\<lambda>sub.
        if \<not> sub then Inr False
        else bindR (anyCoin (\<lambda>coinB. bindR (AmountOf coins (Denom coinB)) (\<lambda>amountA.
            Inr (amountA \<le> Amount coinB))) coinsB) (\<lambda>fails. Inr (\<not> fails))))"

definition IsAllGTE :: "Coins \<Rightarrow> Coins \<Rightarrow> bool result" where
  "IsAllGTE coins coinsB =
     (if coinsB = [] then Inr True
      else if coins = [] then Inr False
      else bindR (anyCoin (\<lambda>coinB. bindR (AmountOf coins (Denom coinB)) (\<lambda>amountA.
          Inr (Amount coinB > amountA))) coinsB) (\<lambda>fails. Inr (\<not> fails)))"

definition IsAllLT :: "Coins \<Rightarrow> Coins \<Rightarrow> bool result" where
  "IsAllLT coins coinsB = IsAllGT coinsB coins"

definition IsAllLTE :: "Coins \<Rightarrow> Coins \<Rightarrow> bool result" where
  "IsAllLTE coins coinsB = IsAllGTE coinsB coins"

definition IsAnyGT :: "Coins \<Rightarrow> Coins \<Rightarrow> bool result" where
  "IsAnyGT coins coinsB =
     (if coinsB = [] then Inr False
      else anyCoin (\<lambda>coin. bindR (AmountOf coinsB (Denom coin)) (\<lambda>amt.
        Inr (Amount coin > amt \<and> amt \<noteq> 0))) coins)"

definition IsAnyGTE :: "Coins \<Rightarrow> Coins \<Rightarrow> bool result" where
  "IsAnyGTE coins coinsB =
     (if coinsB = [] then Inr False
      else anyCoin (\<lambda>coin. bindR (AmountOf coinsB (Denom coin)) (\<lambda>amt.
        Inr (Amount coin \<ge> amt \<and> amt \<noteq> 0))) coins)"

definition CoinsIsZero :: "Coins \<Rightarrow> bool" where
  "CoinsIsZero coins = list_all CoinIsZero coins"

fun equalLoop :: "Coins \<Rightarrow> Coins \<Rightarrow> bool result" where
  "equalLoop (a # as) (b # bs) = bindR (CoinIsEqual a b) (\<lambda>e. if \<not> e then Inr False else equalLoop as bs)"
| "equalLoop _ _ = Inr True"

definition CoinsIsEqual :: "Coins \<Rightarrow> Coins \<Rightarrow> bool result" where
  "CoinsIsEqual coins coinsB =
     (if length coins \<noteq> length coinsB then Inr False else equalLoop (Sort coins) (Sort coinsB))"

definition CoinsEmpty :: "Coins \<Rightarrow> bool" where
  "CoinsEmpty coins \<longleftrightarrow> length coins = 0"

definition IsAllPositive :: "Coins \<Rightarrow> bool" where
  "IsAllPositive coins \<longleftrightarrow> coins \<noteq> [] \<and> list_all CoinIsPositive coins"

definition IsAnyNegative :: "Coins \<Rightarrow> bool" where
  "IsAnyNegative coins \<longleftrightarrow> list_ex CoinIsNegative coins"

subsection \<open>Parsing\<close>

text \<open>
  \<open>strings.TrimSpace\<close> removes Unicode white space at both ends: the UTF-8 encodings of the code
  points for which \<open>unicode.IsSpace\<close> holds.
\<close>

definition spaces :: "string list" where
  "spaces = map (map char_of) ([[9], [10], [11], [12], [13], [32], [0xC2, 0x85], [0xC2, 0xA0],
     [0xE1, 0x9A, 0x80], [0xE2, 0x80, 0xA8], [0xE2, 0x80, 0xA9], [0xE2, 0x80, 0xAF],
     [0xE2, 0x81, 0x9F], [0xE3, 0x80, 0x80]] @ map (\<lambda>i. [0xE2, 0x80, 0x80 + i]) [0..<11] :: nat list list)"

definition isPrefixOf :: "'a list \<Rightarrow> 'a list \<Rightarrow> bool" where
  "isPrefixOf p s \<longleftrightarrow> take (length p) s = p"

lemma prefix_shortens: "p \<noteq> [] \<Longrightarrow> isPrefixOf p s \<Longrightarrow> length s - length p < length s"
  by (cases s) (auto simp: isPrefixOf_def)

function trimLeft :: "string list \<Rightarrow> string \<Rightarrow> string" where
  "trimLeft ps s = (case find (\<lambda>p. p \<noteq> [] \<and> isPrefixOf p s) ps of
     None \<Rightarrow> s | Some p \<Rightarrow> trimLeft ps (drop (length p) s))"
  by auto
termination
  by (relation "measure (\<lambda>(ps, s). length s)") (auto simp: find_Some_iff prefix_shortens)
declare trimLeft.simps [simp del]

definition TrimSpace :: "string \<Rightarrow> string" where
  "TrimSpace s = rev (trimLeft (map rev spaces) (rev (trimLeft spaces s)))"

definition reSpace :: "char \<Rightarrow> bool" where
  "reSpace c \<longleftrightarrow> (of_char c :: nat) \<in> {9, 10, 11, 12, 13, 32}"

text \<open>
  The regular expression \<^verbatim>\<open>^([[:digit:]]+)[[:space:]]*([a-z][a-z0-9]{2,15})$\<close>: the amount and the
  denomination. A denomination starts with a letter, so the decomposition is unique.
\<close>

definition reCoin :: "string \<Rightarrow> (string \<times> string) option" where
  "reCoin s =
     (let amt = takeWhile isDigit s; dnm = dropWhile reSpace (dropWhile isDigit s)
      in if amt \<noteq> [] \<and> reDnm dnm then Some (amt, dnm) else None)"

definition digitsVal :: "string \<Rightarrow> int" where
  "digitsVal s = foldl (\<lambda>n c. 10 * n + (int (of_char c) - 48)) 0 s"

text \<open>\<open>strconv.ParseInt(s, 10, 64)\<close> on a string of digits.\<close>

definition ParseInt :: "string \<Rightarrow> string + int" where
  "ParseInt s = (if digitsVal s \<ge> 2 ^ 63 then Inl ''value out of range'' else Inr (digitsVal s))"

definition ParseCoin :: "string \<Rightarrow> (string + Coin) result" where
  "ParseCoin coinStr = (case reCoin (TrimSpace coinStr) of
     None \<Rightarrow> Inr (Inl ''invalid coin expression'')
   | Some (amountStr, denomStr) \<Rightarrow> (case ParseInt amountStr of
       Inl e \<Rightarrow> Inr (Inl ''failed to parse coin amount'')
     | Inr amount \<Rightarrow> (case validateDenom denomStr of
         Inl e \<Rightarrow> Inr (Inl ''invalid denom cannot contain upper case characters or spaces'')
       | Inr u \<Rightarrow> bindR (NewCoin denomStr amount) (\<lambda>coin. Inr (Inr coin)))))"

text \<open>\<open>strings.Split(s, ",")\<close>\<close>

fun splitComma :: "string \<Rightarrow> string list" where
  "splitComma [] = [[]]"
| "splitComma (c # cs) =
     (if c = CHR '','' then [] # splitComma cs
      else case splitComma cs of [] \<Rightarrow> [[c]] | p # ps \<Rightarrow> (c # p) # ps)"

fun parseEach :: "string list \<Rightarrow> (string + Coins) result" where
  "parseEach [] = Inr (Inr [])"
| "parseEach (s # ss) = bindR (ParseCoin s) (\<lambda>r. case r of
     Inl e \<Rightarrow> Inr (Inl e)
   | Inr coin \<Rightarrow> bindR (parseEach ss) (\<lambda>r. case r of
       Inl e \<Rightarrow> Inr (Inl e) | Inr coins \<Rightarrow> Inr (Inr (coin # coins))))"

definition ParseCoins :: "(string \<Rightarrow> string) \<Rightarrow> string \<Rightarrow> (string + Coins) result" where
  "ParseCoins uni coinsStr =
     (let coinsStr = TrimSpace coinsStr
      in if coinsStr = [] then Inr (Inr [])
         else bindR (parseEach (splitComma coinsStr)) (\<lambda>r. case r of
           Inl e \<Rightarrow> Inr (Inl e)
         | Inr coins \<Rightarrow>
             (let coins = Sort coins
              in if \<not> IsValid uni coins then Inr (Inl ''parseCoins invalid'') else Inr (Inr coins))))"

definition MustParseCoin :: "string \<Rightarrow> Coin result" where
  "MustParseCoin coinStr = bindR (ParseCoin coinStr) (\<lambda>r. case r of Inl e \<Rightarrow> Inl (Panic e) | Inr coin \<Rightarrow> Inr coin)"

definition MustParseCoins :: "(string \<Rightarrow> string) \<Rightarrow> string \<Rightarrow> Coins result" where
  "MustParseCoins uni coinsStr = bindR (ParseCoins uni coinsStr) (\<lambda>r. case r of Inl e \<Rightarrow> Inl (Panic e) | Inr coins \<Rightarrow> Inr coins)"

text \<open>The Amino encodings; decoding takes the coin or coins it overwrites and returns them as they are afterwards.\<close>

definition MarshalAminoCoin :: "Coin \<Rightarrow> string + string" where
  "MarshalAminoCoin coin = Inr (CoinString coin)"

definition UnmarshalAminoCoin :: "Coin \<Rightarrow> string \<Rightarrow> (string + Coin) result" where
  "UnmarshalAminoCoin coin coinstr = (if coinstr = [] then Inr (Inr coin) else ParseCoin coinstr)"

definition MarshalAminoCoins :: "Coins \<Rightarrow> string + string" where
  "MarshalAminoCoins coins = Inr (CoinsString coins)"

definition UnmarshalAminoCoins :: "(string \<Rightarrow> string) \<Rightarrow> Coins \<Rightarrow> string \<Rightarrow> (string + Coins) result" where
  "UnmarshalAminoCoins uni coins coinsstr = ParseCoins uni coinsstr"

text \<open>A checked addition and subtraction with the documented behaviour.\<close>

definition goOvf :: ovf where
  "goOvf = \<lparr>Add64 = \<lambda>a b. (swrap 64 (a + b), int64 (a + b)), Sub64 = \<lambda>a b. (swrap 64 (a - b), int64 (a - b))\<rparr>"

lemma goOvf_spec: "ovf_spec goOvf"
  by (simp add: ovf_spec_def goOvf_def)

end
