(* ===== verification/Gas_Store.thy ===== *)
theory Gas_Store
  imports Kv_Store Coins
begin

text \<open>
  Gas meters (\<^verbatim>\<open>pkgs/store/types/gas.go\<close>) and the store that charges them (\<^verbatim>\<open>pkgs/store/gas\<close>). A meter
  is a basic one, an infinite one, or one that passes its consumption on to a base meter first.
  The checked addition is that of gnolang/overflow.
\<close>

record basicGasMeter =
  gasLimit :: int
  consumed :: int

datatype GasMeter =
    Basic basicGasMeter
  | Infinite int
  | Passthrough GasMeter basicGasMeter

definition NewGasMeter :: "int \<Rightarrow> basicGasMeter result" where
  "NewGasMeter limit = (if limit < 0 then Inl (Panic ''gas must not be negative'')
     else Inr \<lparr>gasLimit = limit, consumed = 0\<rparr>)"

definition NewInfiniteGasMeter :: GasMeter where
  "NewInfiniteGasMeter = Infinite 0"

definition NewPassthroughGasMeter :: "GasMeter \<Rightarrow> int \<Rightarrow> GasMeter result" where
  "NewPassthroughGasMeter base limit =
     (if limit < 0 then Inl (Panic ''gas must not be negative'')
      else bindR (NewGasMeter limit) (\<lambda>h. Inr (Passthrough base h)))"

definition basicIsPastLimit :: "basicGasMeter \<Rightarrow> bool" where
  "basicIsPastLimit g \<longleftrightarrow> consumed g > gasLimit g"

definition basicIsOutOfGas :: "basicGasMeter \<Rightarrow> bool" where
  "basicIsOutOfGas g \<longleftrightarrow> consumed g \<ge> gasLimit g"

definition basicGasConsumedToLimit :: "basicGasMeter \<Rightarrow> int" where
  "basicGasConsumedToLimit g = (if basicIsPastLimit g then gasLimit g else consumed g)"

definition basicRemaining :: "basicGasMeter \<Rightarrow> int" where
  "basicRemaining g = swrap 64 (gasLimit g - basicGasConsumedToLimit g)"

definition basicConsumeGas :: "ovf \<Rightarrow> int \<Rightarrow> string \<Rightarrow> (basicGasMeter, unit) act" where
  "basicConsumeGas ov amount descriptor g =
     (if amount < 0 then (Inl (Panic ''gas must not be negative''), g)
      else case Add64 ov (consumed g) amount of (c, k) \<Rightarrow>
        if \<not> k then (Inl (GasOverflowException descriptor), g)
        else let g = g\<lparr>consumed := c\<rparr>
          in if c > gasLimit g then (Inl (OutOfGasException descriptor), g) else (Inr (), g))"

definition infiniteConsumeGas :: "ovf \<Rightarrow> int \<Rightarrow> string \<Rightarrow> (int, unit) act" where
  "infiniteConsumeGas ov amount descriptor used =
     (case Add64 ov used amount of (c, k) \<Rightarrow>
        if \<not> k then (Inl (GasOverflowException descriptor), used) else (Inr (), c))"

fun ConsumeGas :: "ovf \<Rightarrow> int \<Rightarrow> string \<Rightarrow> (GasMeter, unit) act" where
  "ConsumeGas ov amount descriptor (Basic g) =
     (case basicConsumeGas ov amount descriptor g of (r, g') \<Rightarrow> (r, Basic g'))"
| "ConsumeGas ov amount descriptor (Infinite used) =
     (case infiniteConsumeGas ov amount descriptor used of (r, u) \<Rightarrow> (r, Infinite u))"
| "ConsumeGas ov amount descriptor (Passthrough base h) =
     (case ConsumeGas ov amount descriptor base of
        (Inl e, base') \<Rightarrow> (Inl e, Passthrough base' h)
      | (Inr u, base') \<Rightarrow> (case basicConsumeGas ov amount descriptor h of (r, h') \<Rightarrow> (r, Passthrough base' h')))"

fun GasConsumed :: "GasMeter \<Rightarrow> int" where
  "GasConsumed (Basic g) = consumed g"
| "GasConsumed (Infinite used) = used"
| "GasConsumed (Passthrough base h) = consumed h"

fun GasConsumedToLimit :: "GasMeter \<Rightarrow> int" where
  "GasConsumedToLimit (Basic g) = basicGasConsumedToLimit g"
| "GasConsumedToLimit (Infinite used) = used"
| "GasConsumedToLimit (Passthrough base h) = basicGasConsumedToLimit h"

fun Limit :: "GasMeter \<Rightarrow> int" where
  "Limit (Basic g) = gasLimit g"
| "Limit (Infinite used) = 0"
| "Limit (Passthrough base h) = gasLimit h"

fun Remaining :: "GasMeter \<Rightarrow> int" where
  "Remaining (Basic g) = basicRemaining g"
| "Remaining (Infinite used) = 2 ^ 63 - 1"
| "Remaining (Passthrough base h) = basicRemaining h"

fun IsPastLimit :: "GasMeter \<Rightarrow> bool" where
  "IsPastLimit (Basic g) = basicIsPastLimit g"
| "IsPastLimit (Infinite used) = False"
| "IsPastLimit (Passthrough base h) = basicIsPastLimit h"

fun IsOutOfGas :: "GasMeter \<Rightarrow> bool" where
  "IsOutOfGas (Basic g) = basicIsOutOfGas g"
| "IsOutOfGas (Infinite used) = False"
| "IsOutOfGas (Passthrough base h) = basicIsOutOfGas h"

subsection \<open>The gas store\<close>

record GasConfig =
  HasCost :: int
  DeleteCost :: int
  ReadCostFlat :: int
  ReadCostPerByte :: int
  WriteCostFlat :: int
  WriteCostPerByte :: int
  IterNextCostFlat :: int

definition DefaultGasConfig :: GasConfig where
  "DefaultGasConfig = \<lparr>HasCost = 1000, DeleteCost = 1000, ReadCostFlat = 1000, ReadCostPerByte = 3,
     WriteCostFlat = 2000, WriteCostPerByte = 30, IterNextCostFlat = 30\<rparr>"

record 's gasStore =
  gasMeter :: GasMeter
  gparent :: 's

definition charge :: "ovf \<Rightarrow> int \<Rightarrow> string \<Rightarrow> ('s gasStore, unit) act" where
  "charge ov amount descriptor gs =
     (case ConsumeGas ov amount descriptor (gasMeter gs) of (r, m) \<Rightarrow> (r, gs\<lparr>gasMeter := m\<rparr>))"

definition onGParent :: "('s, 'a) act \<Rightarrow> ('s gasStore, 'a) act" where
  "onGParent m gs = (case m (gparent gs) of (r, p) \<Rightarrow> (r, gs\<lparr>gparent := p\<rparr>))"

definition gasLen :: "bytes option \<Rightarrow> int" where
  "gasLen v = int (length (bytesOf v))"

definition gasGet :: "ovf \<Rightarrow> GasConfig \<Rightarrow> 's kvOps \<Rightarrow> bytes option \<Rightarrow> ('s gasStore, bytes option) act" where
  "gasGet ov cfg ops key = bindA (charge ov (ReadCostFlat cfg) ''ReadFlat'') (\<lambda>u.
     bindA (onGParent (opGet ops key)) (\<lambda>v.
     bindA (charge ov (swrap 64 (ReadCostPerByte cfg * gasLen v)) ''ReadPerByte'') (\<lambda>u. returnA v)))"

definition gasSet :: "ovf \<Rightarrow> GasConfig \<Rightarrow> 's kvOps \<Rightarrow> bytes option \<Rightarrow> bytes option \<Rightarrow> ('s gasStore, unit) act" where
  "gasSet ov cfg ops key v = bindA (liftA (AssertValidValue v)) (\<lambda>u.
     bindA (charge ov (WriteCostFlat cfg) ''WriteFlat'') (\<lambda>u.
     bindA (charge ov (swrap 64 (WriteCostPerByte cfg * gasLen v)) ''WritePerByte'') (\<lambda>u.
     onGParent (opSet ops key v))))"

definition gasHas :: "ovf \<Rightarrow> GasConfig \<Rightarrow> 's kvOps \<Rightarrow> bytes option \<Rightarrow> ('s gasStore, bool) act" where
  "gasHas ov cfg ops key = bindA (charge ov (HasCost cfg) ''Has'') (\<lambda>u. onGParent (opHas ops key))"

definition gasDelete :: "ovf \<Rightarrow> GasConfig \<Rightarrow> 's kvOps \<Rightarrow> bytes option \<Rightarrow> ('s gasStore, unit) act" where
  "gasDelete ov cfg ops key = bindA (charge ov (DeleteCost cfg) ''Delete'') (\<lambda>u. onGParent (opDelete ops key))"

definition gasWrite :: "'s kvOps \<Rightarrow> ('s gasStore, unit) act" where
  "gasWrite ops = onGParent (opWrite ops)"

definition consumeSeekGas :: "ovf \<Rightarrow> GasConfig \<Rightarrow> bytes option \<Rightarrow> ('s gasStore, unit) act" where
  "consumeSeekGas ov cfg v = bindA (charge ov (swrap 64 (ReadCostPerByte cfg * gasLen v)) ''ValuePerByte'') (\<lambda>u.
     charge ov (IterNextCostFlat cfg) ''IterNextFlat'')"

text \<open>The iterator holds the parent's remaining pairs; \<open>Next\<close> charges for the pair it leaves.\<close>

definition gasIterator :: "ovf \<Rightarrow> GasConfig \<Rightarrow> 's kvOps \<Rightarrow> bool \<Rightarrow> bytes option \<Rightarrow> bytes option \<Rightarrow> ('s gasStore, kvIter) act" where
  "gasIterator ov cfg ops asc start end = bindA (onGParent (opIterator ops asc start end)) (\<lambda>it.
     if itItems it \<noteq> [] then bindA (consumeSeekGas ov cfg (snd (hd (itItems it)))) (\<lambda>u. returnA it)
     else returnA it)"

definition gasIterNext :: "ovf \<Rightarrow> GasConfig \<Rightarrow> kvIter \<Rightarrow> ('s gasStore, kvIter) act" where
  "gasIterNext ov cfg it =
     (if itItems it \<noteq> [] then bindA (consumeSeekGas ov cfg (snd (hd (itItems it)))) (\<lambda>u.
        returnA (it\<lparr>itItems := tl (itItems it)\<rparr>))
      else failA (Panic ''invalid iterator''))"

end
