(* ===== verification/Store_Correct.thy ===== *)
theory Store_Correct
  imports Iavl_Store Cache_Correct Prefix_Correct Gas_Store
begin

text \<open>
  The store stack of the application: IAVL tree, cache-wraps over it (also nested), prefix views and
  gas charging. The contracts compose by interpretation; a client's calls are given as a sequence, so
  that running them through a cache and then writing it can be compared with running them directly.
\<close>

subsection \<open>Sequences of calls\<close>

datatype kvCall =
    CallGet bytes
  | CallHas bytes
  | CallSet bytes bytes
  | CallDelete bytes
  | CallIterate bool "bytes option" "bytes option"

datatype kvAnswer =
    Value "bytes option"
  | Flag bool
  | Done
  | Pairs "(bytes \<times> bytes option) list"

definition call :: "'s kvOps \<Rightarrow> kvCall \<Rightarrow> ('s, kvAnswer) act" where
  "call ops c = (case c of
     CallGet k \<Rightarrow> bindA (opGet ops (Some k)) (\<lambda>v. returnA (Value v))
   | CallHas k \<Rightarrow> bindA (opHas ops (Some k)) (\<lambda>b. returnA (Flag b))
   | CallSet k v \<Rightarrow> bindA (opSet ops (Some k) (Some v)) (\<lambda>u. returnA Done)
   | CallDelete k \<Rightarrow> bindA (opDelete ops (Some k)) (\<lambda>u. returnA Done)
   | CallIterate asc start end \<Rightarrow> bindA (opIterator ops asc start end) (\<lambda>it. returnA (Pairs (itItems it))))"

fun runCalls :: "'s kvOps \<Rightarrow> kvCall list \<Rightarrow> ('s, kvAnswer list) act" where
  "runCalls ops [] = returnA []"
| "runCalls ops (c # cs) = bindA (call ops c) (\<lambda>a. bindA (runCalls ops cs) (\<lambda>as. returnA (a # as)))"

text \<open>What the calls mean on a sorted list of entries.\<close>

fun answerOf :: "kvCall \<Rightarrow> (bytes \<times> bytes) list \<Rightarrow> kvAnswer" where
  "answerOf (CallGet k) es = Value (map_of es k)"
| "answerOf (CallHas k) es = Flag (map_of es k \<noteq> None)"
| "answerOf (CallIterate asc start end) es = Pairs (someItems (ordered asc (inDomain start end es)))"
| "answerOf _ es = Done"

fun effectOf :: "kvCall \<Rightarrow> (bytes \<times> bytes) list \<Rightarrow> (bytes \<times> bytes) list" where
  "effectOf (CallSet k v) es = kput k v es"
| "effectOf (CallDelete k) es = kdel k es"
| "effectOf _ es = es"

fun answersOf :: "kvCall list \<Rightarrow> (bytes \<times> bytes) list \<Rightarrow> kvAnswer list" where
  "answersOf [] es = []"
| "answersOf (c # cs) es = answerOf c es # answersOf cs (effectOf c es)"

context kv_store
begin

lemma call_law:
  assumes "ok (Suc n) s" "call ops c s = (a, s')"
  shows "a = Inr (answerOf c (view s)) \<and> ok n s' \<and> view s' = effectOf c (view s)"
proof (cases c)
  case (CallGet k)
  then show ?thesis
    using assms(2) get_law[OF assms(1), of k] ok_mono[of "Suc n" _ n]
    by (auto simp: call_def bindA_def split: prod.splits sum.splits)
next
  case (CallHas k)
  then show ?thesis
    using assms(2) has_law[OF assms(1), of k] ok_mono[of "Suc n" _ n]
    by (auto simp: call_def bindA_def split: prod.splits sum.splits)
next
  case (CallSet k v)
  then show ?thesis
    using assms(2) set_law[OF assms(1), of k v] by (auto simp: call_def bindA_def split: prod.splits sum.splits)
next
  case (CallDelete k)
  then show ?thesis
    using assms(2) delete_law[OF assms(1), of k] by (auto simp: call_def bindA_def split: prod.splits sum.splits)
next
  case (CallIterate asc start "end")
  then show ?thesis
    using assms(2) iterator_law[OF assms(1), of asc start "end"] ok_mono[of "Suc n" _ n]
    by (auto simp: call_def bindA_def split: prod.splits sum.splits)
qed

lemma run_law:
  "ok (n + length cs) s \<Longrightarrow> runCalls ops cs s = (r, s') \<Longrightarrow>
     r = Inr (answersOf cs (view s)) \<and> ok n s' \<and> view s' = fold effectOf cs (view s)"
proof (induction cs arbitrary: s r s')
  case (Cons c cs)
  obtain a s1 where c: "call ops c s = (a, s1)"
    by fastforce
  note one = call_law[of "n + length cs" s c a s1]
  obtain r1 s2 where rest: "runCalls ops cs s1 = (r1, s2)"
    by fastforce
  show ?case
    using Cons.prems Cons.IH[of s1 r1 s2] one c rest by (auto simp: bindA_def)
qed simp

text \<open>Nothing reaches the parent before \<open>Write\<close>.\<close>

lemma call_isolated:
  assumes "cok (Suc n) cs" "call (cacheOps ops) c cs = (a, cs')"
  shows "view (parent cs') = view (parent cs)"
proof -
  note parent_ok = cok_simps(4)[OF assms(1)]
  have get: "view (parent cs1) = view (parent cs)" if "cacheGet ops (Some k) cs = (r, cs1)" for k r cs1
    using that get_law[OF parent_ok, of k]
    by (auto simp: cacheGet_def AssertValidKey_def bindA_def onParent_def setCacheValue_def bytesOf_def
        split: option.splits prod.splits sum.splits)
  have iter: "view (parent cs1) = view (parent cs)" if "cacheIterator ops asc start end cs = (r, cs1)" for asc start "end" r cs1
    using that iterator_law[OF parent_ok, of asc start "end"]
    by (auto simp: cacheIterator_def dirtyItems_def bindA_def onParent_def Let_def split: prod.splits sum.splits)
  show ?thesis
    using assms(2) get iter
    by (cases c)
      (auto simp: call_def cacheOps_simps cacheHas_def cacheSet_def cacheDelete_def AssertValidKey_def AssertValidValue_def
        setCacheValue_def bindA_def Let_def split: prod.splits sum.splits)
qed

lemma run_isolated:
  "cok (n + length calls) cs \<Longrightarrow> runCalls (cacheOps ops) calls cs = (r, cs') \<Longrightarrow> view (parent cs') = view (parent cs)"
proof (induction calls arbitrary: cs r cs')
  case (Cons c calls)
  obtain a cs1 where c: "call (cacheOps ops) c cs = (a, cs1)"
    by fastforce
  have "cok (n + length calls) cs1" "view (parent cs1) = view (parent cs)"
    using kv_store.call_law[OF cache_store, of "n + length calls" cs c a cs1] call_isolated[of "n + length calls" cs c a cs1]
      Cons.prems(1) c by auto
  then show ?case
    using Cons.prems(2) Cons.IH[of cs1] c by (auto simp: bindA_def split: prod.splits sum.splits)
qed simp

lemma transaction:
  assumes "ok (n + length calls) s" "runCalls ops calls s = (r, s1)"
    "runCalls (cacheOps ops) calls (newCache s) = (r', cs)" "cacheWrite ops cs = (u, cs')"
  shows "r' = r \<and> view (parent cs) = view s \<and> u = Inr () \<and> view (parent cs') = view s1 \<and> cs' = newCache (parent cs')"
proof -
  have new: "cok (n + length calls) (newCache s)" "cview (newCache s) = view s" "parent (newCache s) = s"
    using cache_new[OF assms(1)] by (simp_all add: newCache_def)
  have run: "r' = Inr (answersOf calls (view s))" "cok n cs" "cview cs = fold effectOf calls (view s)"
    using kv_store.run_law[OF cache_store new(1) assms(3)] new(2) by simp_all
  show ?thesis
    using run run_law[OF assms(1,2)] cache_write[OF run(2) assms(4)] run_isolated[OF new(1) assms(3)] new(3) by simp
qed

end

subsection \<open>The stack\<close>

interpretation cached: kv_store "cacheOps iavlOps" "cacheAbs entries" "cacheInv entries iavlInv"
  by (rule kv_store.cache_store) unfold_locales

interpretation nested: kv_store "cacheOps (cacheOps iavlOps)" "cacheAbs (cacheAbs entries)"
    "cacheInv (cacheAbs entries) (cacheInv entries iavlInv)"
  by (rule cached.cache_store)

interpretation prefixed: kv_store "prefixOps (cacheOps iavlOps) p" "\<lambda>s. underPrefix p (cacheAbs entries s)"
    "cacheInv entries iavlInv" for p
  by (rule cached.prefix_store)

subsection \<open>Gas\<close>

text \<open>A meter, with the meters it passes its consumption on to, takes \<open>n\<close> more gas; and has then taken it.\<close>

fun roomFor :: "GasMeter \<Rightarrow> int \<Rightarrow> bool" where
  "roomFor (Basic g) n \<longleftrightarrow> consumed g + n \<le> gasLimit g \<and> int64 (consumed g + n)"
| "roomFor (Infinite used) n \<longleftrightarrow> int64 (used + n)"
| "roomFor (Passthrough base h) n \<longleftrightarrow> roomFor base n \<and> roomFor (Basic h) n"

fun spend :: "GasMeter \<Rightarrow> int \<Rightarrow> GasMeter" where
  "spend (Basic g) n = Basic (g\<lparr>consumed := consumed g + n\<rparr>)"
| "spend (Infinite used) n = Infinite (used + n)"
| "spend (Passthrough base h) n = Passthrough (spend base n) (h\<lparr>consumed := consumed h + n\<rparr>)"

fun meterOk :: "GasMeter \<Rightarrow> bool" where
  "meterOk (Basic g) \<longleftrightarrow> 0 \<le> consumed g \<and> int64 (consumed g)"
| "meterOk (Infinite used) \<longleftrightarrow> 0 \<le> used \<and> int64 used"
| "meterOk (Passthrough base h) \<longleftrightarrow> meterOk base \<and> meterOk (Basic h)"

definition gasFailure :: "panic \<Rightarrow> bool" where
  "gasFailure e \<longleftrightarrow> (\<exists>d. e = OutOfGasException d \<or> e = GasOverflowException d)"

lemma basicConsumeGas_room:
  assumes "ovf_spec ov" "meterOk (Basic g)" "0 \<le> n" "int64 n"
  shows "if roomFor (Basic g) n then basicConsumeGas ov n d g = (Inr (), g\<lparr>consumed := consumed g + n\<rparr>)
    else \<exists>e g'. basicConsumeGas ov n d g = (Inl e, g') \<and> gasFailure e"
proof -
  have "Add64 ov (consumed g) n = (swrap 64 (consumed g + n), int64 (consumed g + n))"
    using assms by (simp add: ovf_spec_def)
  then show ?thesis
    using assms(3) by (auto simp: basicConsumeGas_def gasFailure_def swrap64_id int64_def Let_def)
qed

lemma ConsumeGas_room:
  "ovf_spec ov \<Longrightarrow> meterOk m \<Longrightarrow> 0 \<le> n \<Longrightarrow> int64 n \<Longrightarrow>
   if roomFor m n then ConsumeGas ov n d m = (Inr (), spend m n) else \<exists>e m'. ConsumeGas ov n d m = (Inl e, m') \<and> gasFailure e"
proof (induction m)
  case (Basic g)
  then show ?case
    using basicConsumeGas_room[OF Basic.prems(1,2,3,4), of d] by (auto split: if_splits)
next
  case (Infinite used)
  then have "Add64 ov used n = (swrap 64 (used + n), int64 (used + n))"
    by (simp add: ovf_spec_def)
  then show ?case
    by (auto simp: infiniteConsumeGas_def gasFailure_def swrap64_id int64_def)
next
  case (Passthrough base h)
  have base: "if roomFor base n then ConsumeGas ov n d base = (Inr (), spend base n)
      else \<exists>e m'. ConsumeGas ov n d base = (Inl e, m') \<and> gasFailure e"
    using Passthrough by simp
  show ?case
    using base basicConsumeGas_room[of ov h n d] Passthrough.prems by (auto split: if_splits)
qed

lemma roomFor_split:
  "meterOk m \<Longrightarrow> 0 \<le> a \<Longrightarrow> 0 \<le> b \<Longrightarrow> roomFor m (a + b) \<longleftrightarrow> roomFor m a \<and> roomFor (spend m a) b"
  by (induction m) (auto simp: int64_def)

lemma spend_ok: "meterOk m \<Longrightarrow> 0 \<le> a \<Longrightarrow> roomFor m a \<Longrightarrow> meterOk (spend m a) \<and> spend (spend m a) b = spend m (a + b)"
  by (induction m) (auto simp: int64_def)

lemma charge_room:
  assumes "ovf_spec ov" "meterOk (gasMeter gs)" "0 \<le> n" "int64 n"
  shows "if roomFor (gasMeter gs) n then charge ov n d gs = (Inr (), gs\<lparr>gasMeter := spend (gasMeter gs) n\<rparr>)
    else \<exists>e gs'. charge ov n d gs = (Inl e, gs') \<and> gasFailure e \<and> gparent gs' = gparent gs"
  using ConsumeGas_room[OF assms, of d] by (auto simp: charge_def split: if_splits)

lemma gasSet_outcome:
  assumes "ovf_spec ov" "meterOk (gasMeter gs)" "0 \<le> WriteCostFlat cfg" "0 \<le> WriteCostPerByte cfg"
    "cost = WriteCostFlat cfg + WriteCostPerByte cfg * int (length v)" "int64 cost"
  shows "if roomFor (gasMeter gs) cost
    then gasSet ov cfg ops k (Some v) gs = onGParent (opSet ops k (Some v)) (gs\<lparr>gasMeter := spend (gasMeter gs) cost\<rparr>)
    else \<exists>e gs'. gasSet ov cfg ops k (Some v) gs = (Inl e, gs') \<and> gasFailure e \<and> gparent gs' = gparent gs"
proof -
  let ?flat = "WriteCostFlat cfg" and ?per = "WriteCostPerByte cfg * int (length v)" and ?m = "gasMeter gs"
  let ?gs = "gs\<lparr>gasMeter := spend ?m ?flat\<rparr>"
  have per: "0 \<le> ?per"
    using assms(4) by simp
  then have int: "int64 ?flat" "int64 ?per" "swrap 64 ?per = ?per"
    using assms(3,5,6) by (auto simp: int64_def swrap64_id)
  have set: "gasSet ov cfg ops k (Some v) gs = bindA (charge ov ?flat ''WriteFlat'')
      (\<lambda>u. bindA (charge ov ?per ''WritePerByte'') (\<lambda>u. onGParent (opSet ops k (Some v)))) gs"
    by (simp add: gasSet_def AssertValidValue_def gasLen_def bytesOf_def int(3))
  show ?thesis
  proof (cases "roomFor ?m ?flat")
    case True
    have sp: "meterOk (gasMeter ?gs)" "spend (spend ?m ?flat) ?per = spend ?m cost" "roomFor ?m cost \<longleftrightarrow> roomFor (spend ?m ?flat) ?per"
      using spend_ok[OF assms(2,3) True] roomFor_split[OF assms(2,3) per] True assms(5) by simp_all
    have "charge ov ?flat ''WriteFlat'' gs = (Inr (), ?gs)"
      using charge_room[OF assms(1-3) int(1), of "''WriteFlat''"] True by simp
    then show ?thesis
      using charge_room[OF assms(1) sp(1) per int(2), of "''WritePerByte''"] sp(2,3) set
      by (auto simp: bindA_def split: if_splits)
  next
    case False
    have no: "\<not> roomFor ?m cost"
      using roomFor_split[OF assms(2,3) per] False assms(5) by simp
    show ?thesis
      using charge_room[OF assms(1-3) int(1), of "''WriteFlat''"] False no set by (auto simp: bindA_def)
  qed
qed

lemma gasDelete_outcome:
  assumes "ovf_spec ov" "meterOk (gasMeter gs)" "0 \<le> DeleteCost cfg" "int64 (DeleteCost cfg)"
  shows "if roomFor (gasMeter gs) (DeleteCost cfg)
    then gasDelete ov cfg ops k gs = onGParent (opDelete ops k) (gs\<lparr>gasMeter := spend (gasMeter gs) (DeleteCost cfg)\<rparr>)
    else \<exists>e gs'. gasDelete ov cfg ops k gs = (Inl e, gs') \<and> gasFailure e \<and> gparent gs' = gparent gs"
  using charge_room[OF assms, of "''Delete''"] by (auto simp: gasDelete_def bindA_def split: if_splits)

text \<open>
  The infinite meter does not reject a negative amount, as the basic meter does: its count can go
  down, below zero.
\<close>

lemma infinite_accepts_negative:
  "ConsumeGas goOvf (-5) d (Infinite 3) = (Inr (), Infinite (-2))
   \<and> ConsumeGas goOvf (-5) d (Basic \<lparr>gasLimit = 100, consumed = 3\<rparr>)
       = (Inl (Panic ''gas must not be negative''), Basic \<lparr>gasLimit = 100, consumed = 3\<rparr>)"
  by (simp add: infiniteConsumeGas_def basicConsumeGas_def goOvf_def int64_def swrap64_id)

subsection \<open>Properties\<close>

lemma sample_tree_room: "iavlInv 10 sample_tree"
  by (simp add: iavlInv_def)

lemma sample_cache_ok: "cacheInv entries iavlInv 10 (newCache sample_tree)"
  using kv_store.cache_new[OF iavl.kv_store_axioms sample_tree_room] by simp

text \<open>
  C22: Running any sequence of calls through a cache-wrap of an IAVL store gives the answers the
  calls get on the store itself, reads and iterations included; the store's entries do not change
  until \<open>Write\<close>, which leaves it with the entries the direct run leaves, and the cache empty.
\<close>

theorem cache_transaction:
  assumes "iavlInv (n + length calls) t" "runCalls iavlOps calls t = (r, t1)"
    "runCalls (cacheOps iavlOps) calls (newCache t) = (r', cs)" "cacheWrite iavlOps cs = (u, cs')"
  shows "r' = r \<and> entries (parent cs) = entries t \<and> u = Inr () \<and> entries (parent cs') = entries t1
    \<and> cs' = newCache (parent cs')"
  using iavl.transaction[OF assms] .

theorem cache_transaction_witness:
  "\<exists>r t1 cs u cs'. runCalls iavlOps [CallSet [4] [40], CallDelete [3], CallIterate True None None] sample_tree = (r, t1)
     \<and> runCalls (cacheOps iavlOps) [CallSet [4] [40], CallDelete [3], CallIterate True None None] (newCache sample_tree) = (r, cs)
     \<and> cacheWrite iavlOps cs = (u, cs') \<and> entries (parent cs') = entries t1"
proof -
  let ?c = "[CallSet [4] [40], CallDelete [3], CallIterate True None None]"
  obtain r t1 r' cs u cs' where run: "runCalls iavlOps ?c sample_tree = (r, t1)"
      "runCalls (cacheOps iavlOps) ?c (newCache sample_tree) = (r', cs)" "cacheWrite iavlOps cs = (u, cs')"
    by (metis surj_pair)
  have "iavlInv (7 + length ?c) sample_tree"
    using sample_tree_room by (simp add: iavlInv_def)
  from cache_transaction[OF this run] run show ?thesis
    by blast
qed

text \<open>
  C23: The range \<open>[prefix, PrefixEndBytes prefix)\<close> holds exactly the keys with the prefix, whatever its
  bytes (an open end when they are all \<open>0xFF\<close>), so a prefix iteration over the IAVL store yields
  exactly the entries under the prefix, in order.
\<close>

theorem PrefixIterator_entries:
  assumes "iavlInv n t"
  shows "PrefixIterator iavlOps p t = (Inr \<lparr>itStart = Some p, itEnd = PrefixEndBytes p,
    itItems = someItems (filter (\<lambda>e. HasPrefix (fst e) p) (entries t))\<rparr>, t)"
proof -
  obtain it t' where it: "PrefixIterator iavlOps p t = (it, t')"
    by fastforce
  have "t' = t"
    using it by (simp add: PrefixIterator_def iavlOps_def iavlIterator_def)
  moreover have "inDomain (Some p) (PrefixEndBytes p) es = filter (\<lambda>e. HasPrefix (fst e) p) es" for es :: "(bytes \<times> bytes) list"
    using prefix_range[of p] by (simp add: inDomain_def IsKeyInDomain_iff bytesOf_def)
  ultimately show ?thesis
    using iavl.iterator_law[OF assms, of True "Some p" "PrefixEndBytes p" it t'] it
    by (simp add: PrefixIterator_def ordered_def)
qed

theorem PrefixIterator_entries_witness:
  "PrefixIterator iavlOps [5] sample_tree = (Inr \<lparr>itStart = Some [5], itEnd = Some [6], itItems = [([5], Some [50])]\<rparr>, sample_tree)"
  using PrefixIterator_entries[OF sample_tree_room, of "[5]"]
  by (simp add: PrefixEndBytes_def HasPrefix_def someItems_def)

text \<open>
  C24: A write through a prefix view of a cached IAVL store updates the view as a map is updated and
  changes no key outside the prefix.
\<close>

theorem prefix_write_isolated:
  assumes "cacheInv entries iavlInv (Suc n) s" "opSet (prefixOps (cacheOps iavlOps) p) (Some k) (Some v) s = (u, s')"
  shows "u = Inr () \<and> underPrefix p (cacheAbs entries s') = kput k v (underPrefix p (cacheAbs entries s))
    \<and> (\<forall>q. \<not> HasPrefix q p \<longrightarrow> map_of (cacheAbs entries s') q = map_of (cacheAbs entries s) q)"
  using prefixed.set_law[OF assms] cached.prefix_isolated[OF assms] by blast

theorem prefix_write_isolated_witness:
  "\<exists>u s'. opSet (prefixOps (cacheOps iavlOps) [5]) (Some [1]) (Some [9]) (newCache sample_tree) = (u, s')
     \<and> map_of (cacheAbs entries s') [3] = Some [30]"
proof -
  obtain u s' where s': "opSet (prefixOps (cacheOps iavlOps) [5]) (Some [1]) (Some [9]) (newCache sample_tree) = (u, s')"
    by fastforce
  have "cacheInv entries iavlInv (Suc 9) (newCache sample_tree)"
    using sample_cache_ok by simp
  from prefix_write_isolated[OF this s'] have "map_of (cacheAbs entries s') [3] = map_of (cacheAbs entries (newCache sample_tree)) [3]"
    by (simp add: HasPrefix_def)
  then show ?thesis
    using s' by (simp add: cacheAbs_def newCache_def)
qed



end
