(* ===== verification/Sdk_Prog.thy ===== *)
theory Sdk_Prog
  imports Store_Correct
begin

text \<open>
  What application code does with its context (\<^verbatim>\<open>pkgs/sdk/context.go\<close>): it calls the substores of the
  multi-store, which \<open>Context.Store\<close> wraps for gas, consumes gas itself, and may put another gas meter
  in its context. Keepers, handlers and the ante handler are programs over these calls, so that the
  same code runs on the committed stores, on a cache-wrap of them and on a cache-wrap of that.
\<close>

subsection \<open>Programs\<close>

datatype 'a prog =
    Ret 'a
  | Throw panic
  | Call string kvCall "kvAnswer \<Rightarrow> 'a prog"
  | Consume int string "'a prog"
  | WithGasMeter GasMeter "'a prog"
  | MeterConsumed "int \<Rightarrow> 'a prog"

primrec progBind :: "'a prog \<Rightarrow> ('a \<Rightarrow> 'b prog) \<Rightarrow> 'b prog" where
  "progBind (Ret x) f = f x"
| "progBind (Throw e) f = Throw e"
| "progBind (Call sk c k) f = Call sk c (\<lambda>a. progBind (k a) f)"
| "progBind (Consume n d p) f = Consume n d (progBind p f)"
| "progBind (WithGasMeter m p) f = WithGasMeter m (progBind p f)"
| "progBind (MeterConsumed k) f = MeterConsumed (\<lambda>n. progBind (k n) f)"

definition liftP :: "'a result \<Rightarrow> 'a prog" where
  "liftP r = (case r of Inl e \<Rightarrow> Throw e | Inr x \<Rightarrow> Ret x)"

text \<open>The calls on one substore; the answers have the form of their calls.\<close>

definition storeGet :: "string \<Rightarrow> bytes \<Rightarrow> bytes option prog" where
  "storeGet sk k = Call sk (CallGet k) (\<lambda>a. case a of Value v \<Rightarrow> Ret v | _ \<Rightarrow> Throw TypeAssertion)"

definition storeSet :: "string \<Rightarrow> bytes \<Rightarrow> bytes \<Rightarrow> unit prog" where
  "storeSet sk k v = Call sk (CallSet k v) (\<lambda>a. Ret ())"

definition storeDelete :: "string \<Rightarrow> bytes \<Rightarrow> unit prog" where
  "storeDelete sk k = Call sk (CallDelete k) (\<lambda>a. Ret ())"

definition storePrefix :: "string \<Rightarrow> bytes \<Rightarrow> (bytes \<times> bytes option) list prog" where
  "storePrefix sk p = Call sk (CallIterate True (Some p) (PrefixEndBytes p)) (\<lambda>a.
     case a of Pairs its \<Rightarrow> Ret its | _ \<Rightarrow> Throw TypeAssertion)"

subsection \<open>The context\<close>

type_synonym 's multi = "(string \<times> 's) list"

text \<open>
  A context holds the multi-store and its gas meter. A meter put in by the program replaces the
  current one; the meter the program started with stays as it was then.
\<close>

record 's Context =
  ms :: "'s multi"
  ctxMeter :: GasMeter
  newMeter :: "GasMeter option"

definition curMeter :: "'s Context \<Rightarrow> GasMeter" where
  "curMeter c = (case newMeter c of None \<Rightarrow> ctxMeter c | Some m \<Rightarrow> m)"

definition setCurMeter :: "GasMeter \<Rightarrow> 's Context \<Rightarrow> 's Context" where
  "setCurMeter m c = (case newMeter c of None \<Rightarrow> c\<lparr>ctxMeter := m\<rparr> | Some _ \<Rightarrow> c\<lparr>newMeter := Some m\<rparr>)"

fun setStore :: "string \<Rightarrow> 's \<Rightarrow> 's multi \<Rightarrow> 's multi" where
  "setStore sk s [] = []"
| "setStore sk s ((k, x) # m) = (if k = sk then (k, s) # m else (k, x) # setStore sk s m)"

definition gasOps :: "ovf \<Rightarrow> GasConfig \<Rightarrow> 's kvOps \<Rightarrow> 's gasStore kvOps" where
  "gasOps ov cfg ops = \<lparr>opGet = gasGet ov cfg ops, opHas = gasHas ov cfg ops, opSet = gasSet ov cfg ops,
     opDelete = gasDelete ov cfg ops, opIterator = gasIterator ov cfg ops, opWrite = gasWrite ops\<rparr>"

text \<open>\<open>Context.Store\<close>: the substore of the key, wrapped for gas.\<close>

definition ctxCall :: "ovf \<Rightarrow> 's kvOps \<Rightarrow> string \<Rightarrow> kvCall \<Rightarrow> ('s Context, kvAnswer) act" where
  "ctxCall ov ops sk c ctx = (case map_of (ms ctx) sk of
     None \<Rightarrow> (Inl TypeAssertion, ctx)
   | Some s \<Rightarrow> (case call (gasOps ov DefaultGasConfig ops) c \<lparr>gasMeter = curMeter ctx, gparent = s\<rparr> of
       (r, gs) \<Rightarrow> (r, setCurMeter (gasMeter gs) (ctx\<lparr>ms := setStore sk (gparent gs) (ms ctx)\<rparr>))))"

definition ctxConsume :: "ovf \<Rightarrow> int \<Rightarrow> string \<Rightarrow> ('s Context, unit) act" where
  "ctxConsume ov n d ctx = (case ConsumeGas ov n d (curMeter ctx) of (r, m) \<Rightarrow> (r, setCurMeter m ctx))"

primrec runProg :: "ovf \<Rightarrow> 's kvOps \<Rightarrow> 'a prog \<Rightarrow> ('s Context, 'a) act" where
  "runProg ov ops (Ret x) = returnA x"
| "runProg ov ops (Throw e) = failA e"
| "runProg ov ops (Call sk c k) = bindA (ctxCall ov ops sk c) (\<lambda>a. runProg ov ops (k a))"
| "runProg ov ops (Consume n d p) = bindA (ctxConsume ov n d) (\<lambda>u. runProg ov ops p)"
| "runProg ov ops (WithGasMeter m p) = (\<lambda>ctx. runProg ov ops p (ctx\<lparr>newMeter := Some m\<rparr>))"
| "runProg ov ops (MeterConsumed k) = (\<lambda>ctx. runProg ov ops (k (GasConsumed (curMeter ctx))) ctx)"

text \<open>At most \<open>n\<close> calls on every path.\<close>

primrec callBound :: "'a prog \<Rightarrow> nat \<Rightarrow> bool" where
  "callBound (Ret x) n = True"
| "callBound (Throw e) n = True"
| "callBound (Call sk c k) n = (\<exists>m. n = Suc m \<and> (\<forall>a. callBound (k a) m))"
| "callBound (Consume g d p) n = callBound p n"
| "callBound (WithGasMeter m p) n = callBound p n"
| "callBound (MeterConsumed k) n = (\<forall>g. callBound (k g) n)"

subsection \<open>The abstract stores\<close>

text \<open>
  A store whose state is the list of its entries. Running a program on it is the meaning of the
  program; running it on a store that keeps the contract has the same outcome.
\<close>

definition absOps :: "(bytes \<times> bytes) list kvOps" where
  "absOps = \<lparr>
     opGet = \<lambda>k es. (Inr (map_of es (bytesOf k)), es),
     opHas = \<lambda>k es. (Inr (map_of es (bytesOf k) \<noteq> None), es),
     opSet = \<lambda>k v es. (Inr (), kput (bytesOf k) (bytesOf v) es),
     opDelete = \<lambda>k es. (Inr (), kdel (bytesOf k) es),
     opIterator = \<lambda>asc start end es. (Inr \<lparr>itStart = start, itEnd = end,
        itItems = someItems (ordered asc (inDomain start end es))\<rparr>, es),
     opWrite = \<lambda>es. (Inr (), es)\<rparr>"

definition absContext :: "('s \<Rightarrow> (bytes \<times> bytes) list) \<Rightarrow> 's Context \<Rightarrow> (bytes \<times> bytes) list Context" where
  "absContext view ctx = \<lparr>ms = map (\<lambda>(k, s). (k, view s)) (ms ctx), ctxMeter = ctxMeter ctx, newMeter = newMeter ctx\<rparr>"

definition ctxOk :: "(nat \<Rightarrow> 's \<Rightarrow> bool) \<Rightarrow> nat \<Rightarrow> 's Context \<Rightarrow> bool" where
  "ctxOk ok n ctx = list_all (\<lambda>(k, s). ok n s) (ms ctx)"

end
