(* ===== verification/Base_App.thy ===== *)
theory Base_App
  imports Sdk_Prog
begin

text \<open>
  The transaction machinery of the application (\<^verbatim>\<open>pkgs/sdk/baseapp.go\<close>) over multi-stores
  (\<^verbatim>\<open>pkgs/store/cachemulti\<close>). The ante handler and the routed message handlers are fields of the
  application, as in the code; they are programs over the context. Only the ante handler puts a new
  gas meter in its context. Error values carry their type, logs and events are left out.
\<close>

subsection \<open>Multi-stores\<close>

definition MultiCacheWrap :: "'s multi \<Rightarrow> 's cacheStore multi" where
  "MultiCacheWrap m = map (\<lambda>(k, s). (k, newCache s)) m"

definition parents :: "'s cacheStore multi \<Rightarrow> 's multi" where
  "parents m = map (\<lambda>(k, cs). (k, parent cs)) m"

fun MultiWrite :: "'s kvOps \<Rightarrow> ('s cacheStore multi, unit) act" where
  "MultiWrite ops [] = (Inr (), [])"
| "MultiWrite ops ((k, cs) # rest) = (case cacheWrite ops cs of
     (Inl e, cs') \<Rightarrow> (Inl e, (k, cs') # rest)
   | (Inr u, cs') \<Rightarrow> (case MultiWrite ops rest of (r, rest') \<Rightarrow> (r, (k, cs') # rest')))"

subsection \<open>Types\<close>

datatype abciError =
    InternalError | TxDecodeError | InvalidSequenceError | UnauthorizedError | InsufficientFundsError
  | UnknownRequestError | InvalidAddressError | UnknownAddressError | InvalidPubKeyError
  | InsufficientCoinsError | InvalidCoinsError | InvalidGasWantedError | OutOfGasError
  | MemoTooLargeError | InsufficientFeeError | TooManySignaturesError | NoSignaturesError | GasOverflowError
  | NoInputsError | NoOutputsError | InputOutputMismatchError

datatype RunTxMode = RunTxModeCheck | RunTxModeSimulate | RunTxModeDeliver

record Result =
  resError :: "abciError option"
  resData :: bytes
  resGasWanted :: int
  resGasUsed :: int

abbreviation emptyResult :: Result where
  "emptyResult \<equiv> \<lparr>resError = None, resData = [], resGasWanted = 0, resGasUsed = 0\<rparr>"

abbreviation errorResult :: "abciError \<Rightarrow> Result" where
  "errorResult e \<equiv> emptyResult\<lparr>resError := Some e\<rparr>"

definition IsOK :: "Result \<Rightarrow> bool" where
  "IsOK r \<longleftrightarrow> resError r = None"

text \<open>What the ante handler returns: whether its context is zero, its result, and whether to abort.\<close>

record AnteOut =
  newCtxZero :: bool
  anteResult :: Result
  abort :: bool

text \<open>The values of the context that do not change while a transaction runs.\<close>

record ctxInfo =
  ciMode :: RunTxMode
  ciChainID :: string
  ciHeight :: int
  ciMaxGas :: "int option"
  ciMinGasPrices :: "(int \<times> Coin) list"
  ciTxBytes :: bytes

text \<open>
  The fields of the application that \<open>runTx\<close> reads. \<open>anteRecover\<close> is the ante handler's own deferred
  recovery, where it has one.
\<close>

record ('tx, 'msg) BaseApp =
  getMsgs :: "'tx \<Rightarrow> 'msg list"
  msgValidateBasic :: "'msg \<Rightarrow> abciError option result"
  msgRoute :: "'msg \<Rightarrow> string"
  router :: "string \<Rightarrow> (ctxInfo \<Rightarrow> 'msg \<Rightarrow> Result prog) option"
  anteHandler :: "(ctxInfo \<Rightarrow> 'tx \<Rightarrow> bool \<Rightarrow> AnteOut prog) option"
  anteRecover :: "'tx \<Rightarrow> panic \<Rightarrow> AnteOut prog option"

text \<open>The check or deliver state: its multi-store, its context's gas meter and block gas meter.\<close>

record 's state =
  stMs :: "'s multi"
  stMeter :: GasMeter
  stBlockMeter :: "GasMeter option"

subsection \<open>Messages\<close>

fun validateMsgs :: "('tx, 'msg) BaseApp \<Rightarrow> 'msg list \<Rightarrow> abciError option result" where
  "validateMsgs app [] = Inr None"
| "validateMsgs app (msg # rest) = bindR (msgValidateBasic app msg) (\<lambda>err.
     case err of Some e \<Rightarrow> Inr (Some e) | None \<Rightarrow> validateMsgs app rest)"

definition validateBasicTxMsgs :: "('tx, 'msg) BaseApp \<Rightarrow> 'msg list \<Rightarrow> abciError option result" where
  "validateBasicTxMsgs app msgs = (if msgs = [] then Inr (Some UnknownRequestError) else validateMsgs app msgs)"

fun runMsgs_loop :: "('tx, 'msg) BaseApp \<Rightarrow> ctxInfo \<Rightarrow> RunTxMode \<Rightarrow> bytes \<Rightarrow> 'msg list \<Rightarrow> Result prog" where
  "runMsgs_loop app info mode bz [] =
     MeterConsumed (\<lambda>g. Ret (emptyResult\<lparr>resData := bz, resGasUsed := g\<rparr>))"
| "runMsgs_loop app info mode bz (msg # rest) = (case router app (msgRoute app msg) of
     None \<Rightarrow> Ret (errorResult UnknownRequestError)
   | Some handler \<Rightarrow>
       progBind (if mode \<noteq> RunTxModeCheck then handler info msg else Ret emptyResult) (\<lambda>msgResult.
         if \<not> IsOK msgResult
         then MeterConsumed (\<lambda>g. Ret (emptyResult\<lparr>resError := resError msgResult,
                resData := bz @ resData msgResult, resGasUsed := g\<rparr>))
         else runMsgs_loop app info mode (bz @ resData msgResult) rest))"

definition runMsgs :: "('tx, 'msg) BaseApp \<Rightarrow> ctxInfo \<Rightarrow> RunTxMode \<Rightarrow> 'msg list \<Rightarrow> Result prog" where
  "runMsgs app info mode msgs = runMsgs_loop app info mode [] msgs"

subsection \<open>Running a transaction\<close>

definition cacheTxContext :: "'s Context \<Rightarrow> 's cacheStore Context" where
  "cacheTxContext c = \<lparr>ms = MultiCacheWrap (ms c), ctxMeter = ctxMeter c, newMeter = newMeter c\<rparr>"

text \<open>The context the cached one was made of, with the stores and meters as the calls left them.\<close>

definition dropCache :: "'s cacheStore Context \<Rightarrow> 's Context" where
  "dropCache c = \<lparr>ms = parents (ms c), ctxMeter = ctxMeter c, newMeter = newMeter c\<rparr>"

definition runAnte :: "ovf \<Rightarrow> 'c kvOps \<Rightarrow> ('tx, 'msg) BaseApp \<Rightarrow> 'tx \<Rightarrow> AnteOut prog \<Rightarrow> ('c Context, AnteOut) act" where
  "runAnte ov ops app tx p ctx = (case runProg ov ops p ctx of
     (Inl e, ctx') \<Rightarrow> (case anteRecover app tx e of None \<Rightarrow> (Inl e, ctx') | Some q \<Rightarrow> runProg ov ops q ctx')
   | (Inr out, ctx') \<Rightarrow> (Inr out, ctx'))"

text \<open>
  The part of \<open>runTx\<close> that calls the ante handler. The state is the context and \<open>gasWanted\<close>; the
  answer is the result to return, when the ante handler aborts.
\<close>

definition anteStep :: "ovf \<Rightarrow> 's kvOps \<Rightarrow> ('tx, 'msg) BaseApp \<Rightarrow> ctxInfo \<Rightarrow> RunTxMode \<Rightarrow> 'tx \<Rightarrow>
    ('s Context \<times> int, Result option) act" where
  "anteStep ov ops app info mode tx st = (case st of (ctx, gasWanted) \<Rightarrow>
     (case anteHandler app of
       None \<Rightarrow> (Inr None, (ctx, gasWanted))
     | Some h \<Rightarrow>
         (case runAnte ov (cacheOps ops) app tx (h info tx (mode = RunTxModeSimulate)) (cacheTxContext ctx) of
           (r, anteCtx) \<Rightarrow>
             let old = (dropCache anteCtx)\<lparr>newMeter := newMeter ctx\<rparr>
             in (case r of
               Inl e \<Rightarrow> (Inl e, (old, gasWanted))
             | Inr out \<Rightarrow>
                 if newCtxZero out then (Inl (Panic ''newCtx must not be zero''), (old, gasWanted))
                 else if abort out \<and> resError (anteResult out) = None
                 then (Inl (Panic ''result.Error should be set for abort''), (old, gasWanted))
                 else if abort out then (Inr (Some (anteResult out)), (old, gasWanted))
                 else (case MultiWrite ops (ms anteCtx) of
                     (Inl e, m) \<Rightarrow> (Inl e, (dropCache (anteCtx\<lparr>ms := m\<rparr>), gasWanted))
                   | (Inr u, m) \<Rightarrow> (Inr None, (dropCache (anteCtx\<lparr>ms := m\<rparr>), resGasWanted (anteResult out))))))))"

definition msgStep :: "ovf \<Rightarrow> 's kvOps \<Rightarrow> ('tx, 'msg) BaseApp \<Rightarrow> ctxInfo \<Rightarrow> RunTxMode \<Rightarrow> 'tx \<Rightarrow>
    ('s Context \<times> int, Result) act" where
  "msgStep ov ops app info mode tx st = (case st of (ctx, gasWanted) \<Rightarrow>
     (case runProg ov (cacheOps ops) (runMsgs app info mode (getMsgs app tx)) (cacheTxContext ctx) of
       (Inl e, msgCtx) \<Rightarrow> (Inl e, (dropCache msgCtx, gasWanted))
     | (Inr res, msgCtx) \<Rightarrow>
         let result = res\<lparr>resGasWanted := gasWanted\<rparr>
         in if mode \<noteq> RunTxModeDeliver then (Inr result, (dropCache msgCtx, gasWanted))
            else if IsOK result then
              (case MultiWrite ops (ms msgCtx) of (r, m) \<Rightarrow>
                 (bindR r (\<lambda>u. Inr result), (dropCache (msgCtx\<lparr>ms := m\<rparr>), gasWanted)))
            else (Inr result, (dropCache msgCtx, gasWanted))))"

definition txBody :: "ovf \<Rightarrow> 's kvOps \<Rightarrow> ('tx, 'msg) BaseApp \<Rightarrow> ctxInfo \<Rightarrow> RunTxMode \<Rightarrow> 'tx \<Rightarrow>
    ('s Context \<times> int, Result) act" where
  "txBody ov ops app info mode tx = (case validateBasicTxMsgs app (getMsgs app tx) of
     Inl e \<Rightarrow> failA e
   | Inr (Some e) \<Rightarrow> returnA (errorResult e)
   | Inr None \<Rightarrow> bindA (anteStep ov ops app info mode tx) (\<lambda>r.
       case r of Some result \<Rightarrow> returnA result | None \<Rightarrow> msgStep ov ops app info mode tx))"

text \<open>The deferred function that charges the block gas meter; it runs before the recovery.\<close>

definition deferBlockGas :: "ovf \<Rightarrow> int \<Rightarrow> GasMeter \<Rightarrow> (GasMeter, unit) act" where
  "deferBlockGas ov startingGas meter = bindA (ConsumeGas ov (GasConsumedToLimit meter) ''block gas meter'')
     (\<lambda>u b. if GasConsumed b < startingGas then (Inl (Panic ''tx gas summation''), b) else (Inr (), b))"

text \<open>The deferred recovery: a panic becomes an error, and the gas is set whether there was one or not.\<close>

definition deferRecover :: "Result result \<Rightarrow> unit result \<Rightarrow> int \<Rightarrow> GasMeter \<Rightarrow> Result" where
  "deferRecover body blockGas gasWanted meter =
     (let result = (case body of Inl e \<Rightarrow> emptyResult | Inr r \<Rightarrow> r);
          r = (case blockGas of Inl e \<Rightarrow> Some e | Inr u \<Rightarrow> (case body of Inl e \<Rightarrow> Some e | Inr r \<Rightarrow> None));
          err = (case r of None \<Rightarrow> resError result | Some (OutOfGasException d) \<Rightarrow> Some OutOfGasError
                 | Some e \<Rightarrow> Some InternalError)
      in result\<lparr>resError := err, resGasWanted := gasWanted, resGasUsed := GasConsumed meter\<rparr>)"

definition passthroughBase :: "GasMeter \<Rightarrow> GasMeter" where
  "passthroughBase m = (case m of Passthrough b h \<Rightarrow> b | _ \<Rightarrow> m)"

text \<open>
  \<open>runTx\<close> outside delivery: no block gas. The meter is the state's own.
\<close>

definition runTxUncharged :: "ovf \<Rightarrow> 's kvOps \<Rightarrow> ('tx, 'msg) BaseApp \<Rightarrow> ctxInfo \<Rightarrow> RunTxMode \<Rightarrow> 'tx \<Rightarrow> ('s state, Result) act" where
  "runTxUncharged ov ops app info mode tx st =
     (case txBody ov ops app info mode tx (\<lparr>ms = stMs st, ctxMeter = stMeter st, newMeter = None\<rparr>, 0) of
       (r, (ctx, gasWanted)) \<Rightarrow>
         (Inr (deferRecover r (Inr ()) gasWanted (curMeter ctx)), st\<lparr>stMs := ms ctx, stMeter := ctxMeter ctx\<rparr>))"

definition runTxDeliver :: "ovf \<Rightarrow> 's kvOps \<Rightarrow> ('tx, 'msg) BaseApp \<Rightarrow> ctxInfo \<Rightarrow> 'tx \<Rightarrow> ('s state, Result) act" where
  "runTxDeliver ov ops app info tx st = (case stBlockMeter st of
     None \<Rightarrow> (Inl NilDereference, st)
   | Some block \<Rightarrow> (case NewPassthroughGasMeter (stMeter st) (Remaining block) of
       Inl e \<Rightarrow> (Inl e, st)
     | Inr meter \<Rightarrow>
         if IsOutOfGas block then (Inr (errorResult OutOfGasError), st)
         else (case txBody ov ops app info RunTxModeDeliver tx
                  (\<lparr>ms = stMs st, ctxMeter = meter, newMeter = None\<rparr>, 0) of
           (r, (ctx, gasWanted)) \<Rightarrow>
             (case deferBlockGas ov (GasConsumed block) (curMeter ctx) block of (g, block') \<Rightarrow>
               (Inr (deferRecover r g gasWanted (curMeter ctx)),
                st\<lparr>stMs := ms ctx, stMeter := passthroughBase (ctxMeter ctx), stBlockMeter := Some block'\<rparr>)))))"

text \<open>A simulation runs on a cache-wrap of the check state, which is dropped.\<close>

definition runTx :: "ovf \<Rightarrow> 's kvOps \<Rightarrow> ('tx, 'msg) BaseApp \<Rightarrow> ctxInfo \<Rightarrow> RunTxMode \<Rightarrow> 'tx \<Rightarrow> ('s state, Result) act" where
  "runTx ov ops app info mode tx st = (case mode of
     RunTxModeDeliver \<Rightarrow> runTxDeliver ov ops app info tx st
   | RunTxModeCheck \<Rightarrow> runTxUncharged ov ops app info mode tx st
   | RunTxModeSimulate \<Rightarrow>
       (case runTxUncharged ov (cacheOps ops) app info mode tx
               \<lparr>stMs = MultiCacheWrap (stMs st), stMeter = stMeter st, stBlockMeter = stBlockMeter st\<rparr> of
         (r, st') \<Rightarrow> (r, st\<lparr>stMs := parents (stMs st'), stMeter := stMeter st'\<rparr>)))"

end
