(* ===== verification/Sdk_Correct.thy ===== *)
theory Sdk_Correct
  imports Base_App
begin

text \<open>
  Running a transaction through cache-wraps is the same as running its programs on plain lists of
  entries and going back to the old lists when a program does not succeed.
\<close>

subsection \<open>The reference semantics\<close>

text \<open>
  The ante handler and the messages, run directly on the entries. What \<open>runTx\<close> gets by dropping a
  cache, the reference gets by taking the entries the context had before.
\<close>

definition specAnte :: "ovf \<Rightarrow> ('tx, 'msg) BaseApp \<Rightarrow> ctxInfo \<Rightarrow> RunTxMode \<Rightarrow> 'tx \<Rightarrow>
    ((bytes \<times> bytes) list Context \<times> int, Result option) act" where
  "specAnte ov app info mode tx st = (case st of (ctx, gasWanted) \<Rightarrow>
     (case anteHandler app of
       None \<Rightarrow> (Inr None, (ctx, gasWanted))
     | Some h \<Rightarrow>
         (case runAnte ov absOps app tx (h info tx (mode = RunTxModeSimulate)) ctx of
           (r, ctx') \<Rightarrow>
             let undone = (ctx\<lparr>ctxMeter := ctxMeter ctx'\<rparr>, gasWanted)
             in (case r of
               Inl e \<Rightarrow> (Inl e, undone)
             | Inr out \<Rightarrow>
                 if newCtxZero out then (Inl (Panic ''newCtx must not be zero''), undone)
                 else if abort out \<and> resError (anteResult out) = None
                 then (Inl (Panic ''result.Error should be set for abort''), undone)
                 else if abort out then (Inr (Some (anteResult out)), undone)
                 else (Inr None, (ctx', resGasWanted (anteResult out)))))))"

definition specMsgs :: "ovf \<Rightarrow> ('tx, 'msg) BaseApp \<Rightarrow> ctxInfo \<Rightarrow> RunTxMode \<Rightarrow> 'tx \<Rightarrow>
    ((bytes \<times> bytes) list Context \<times> int, Result) act" where
  "specMsgs ov app info mode tx st = (case st of (ctx, gasWanted) \<Rightarrow>
     (case runProg ov absOps (runMsgs app info mode (getMsgs app tx)) ctx of
       (r, ctx') \<Rightarrow> (bindR r (\<lambda>res. Inr (res\<lparr>resGasWanted := gasWanted\<rparr>)),
         (if mode = RunTxModeDeliver \<and> (\<exists>res. r = Inr res \<and> IsOK res) then ctx' else ctx'\<lparr>ms := ms ctx\<rparr>, gasWanted))))"

definition specTx :: "ovf \<Rightarrow> ('tx, 'msg) BaseApp \<Rightarrow> ctxInfo \<Rightarrow> RunTxMode \<Rightarrow> 'tx \<Rightarrow>
    ((bytes \<times> bytes) list Context \<times> int, Result) act" where
  "specTx ov app info mode tx = (case validateBasicTxMsgs app (getMsgs app tx) of
     Inl e \<Rightarrow> failA e
   | Inr (Some e) \<Rightarrow> returnA (errorResult e)
   | Inr None \<Rightarrow> bindA (specAnte ov app info mode tx) (\<lambda>r.
       case r of Some result \<Rightarrow> returnA result | None \<Rightarrow> specMsgs ov app info mode tx))"

text \<open>A bound on the calls a transaction makes: by the ante handler, its recovery, and the messages.\<close>

definition txBound :: "('tx, 'msg) BaseApp \<Rightarrow> ctxInfo \<Rightarrow> RunTxMode \<Rightarrow> 'tx \<Rightarrow> nat \<Rightarrow> nat \<Rightarrow> nat \<Rightarrow> bool" where
  "txBound app info mode tx i j k \<longleftrightarrow>
     (\<forall>h. anteHandler app = Some h \<longrightarrow> callBound (h info tx (mode = RunTxModeSimulate)) i) \<and>
     (\<forall>e q. anteRecover app tx e = Some q \<longrightarrow> callBound q j) \<and>
     callBound (runMsgs app info mode (getMsgs app tx)) k"

subsection \<open>Contexts\<close>

lemma absContext_simps [simp]:
  "ctxMeter (absContext view ctx) = ctxMeter ctx" "newMeter (absContext view ctx) = newMeter ctx"
  "curMeter (absContext view ctx) = curMeter ctx"
  "ms (absContext view ctx) = map (\<lambda>(k, s). (k, view s)) (ms ctx)"
  by (simp_all add: absContext_def curMeter_def split: option.split)

lemma setCurMeter_simps [simp]:
  "ms (setCurMeter m ctx) = ms ctx" "absContext view (setCurMeter m ctx) = setCurMeter m (absContext view ctx)"
  by (auto simp: setCurMeter_def absContext_def split: option.split)

lemma ctxOk_setCurMeter [simp]: "ctxOk ok n (setCurMeter m ctx) = ctxOk ok n ctx"
  by (simp add: ctxOk_def)

lemma absContext_update [simp]:
  "absContext view (ctx\<lparr>newMeter := m\<rparr>) = (absContext view ctx)\<lparr>newMeter := m\<rparr>"
  "absContext view (ctx\<lparr>ctxMeter := m'\<rparr>) = (absContext view ctx)\<lparr>ctxMeter := m'\<rparr>"
  by (simp_all add: absContext_def)

lemma map_setStore: "map (\<lambda>(k, x). (k, f x)) (setStore sk s m) = setStore sk (f s) (map (\<lambda>(k, x). (k, f x)) m)"
  by (induction sk s m rule: setStore.induct) auto

lemma set_setStore: "(k, x) \<in> set (setStore sk s m) \<Longrightarrow> x = s \<or> (k, x) \<in> set m"
  by (induction sk s m rule: setStore.induct) (auto split: if_splits)

lemma absContext_setStore:
  "absContext view (ctx\<lparr>ms := setStore sk s (ms ctx)\<rparr>) = (absContext view ctx)\<lparr>ms := setStore sk (view s) (ms (absContext view ctx))\<rparr>"
  by (simp add: absContext_def map_setStore)

lemma map_of_multi: "map_of (map (\<lambda>(k, s). (k, f s)) m) sk = map_option f (map_of m sk)"
  by (induction m) auto

lemma setStore_id [simp]: "map_of m sk = Some s \<Longrightarrow> setStore sk s m = m"
  by (induction sk s m rule: setStore.induct) (auto split: if_splits)

lemma map_of_setStore: "map_of (setStore sk s m) k = (if k = sk \<and> map_of m sk \<noteq> None then Some s else map_of m k)"
  by (induction sk s m rule: setStore.induct) auto

lemma setStore_same: "map_of m sk = Some s \<Longrightarrow> f s' = f s \<Longrightarrow>
    map (\<lambda>(k, x). (k, f x)) (setStore sk s' m) = map (\<lambda>(k, x). (k, f x)) m"
  by (simp add: map_setStore map_of_multi)

lemma keys_setStore [simp]: "map fst (setStore sk s m) = map fst m"
  by (induction sk s m rule: setStore.induct) auto

lemma keys_parents [simp]: "map fst (parents m) = map fst m"
  by (simp add: parents_def case_prod_unfold)

subsection \<open>What a program that returns has done\<close>

text \<open>
  Gas aside, a program that returns has a value and an effect on the entries of the substores.
\<close>

primrec steps :: "'a prog \<Rightarrow> (bytes \<times> bytes) list multi \<Rightarrow> 'a \<Rightarrow> (bytes \<times> bytes) list multi \<Rightarrow> bool" where
  "steps (Ret x) m y m' \<longleftrightarrow> y = x \<and> m' = m"
| "steps (Throw e) m y m' \<longleftrightarrow> False"
| "steps (Call sk c k) m y m' \<longleftrightarrow> (\<exists>es. map_of m sk = Some es \<and> steps (k (answerOf c es)) (setStore sk (effectOf c es) m) y m')"
| "steps (Consume n d p) m y m' \<longleftrightarrow> steps p m y m'"
| "steps (WithGasMeter g p) m y m' \<longleftrightarrow> steps p m y m'"
| "steps (MeterConsumed k) m y m' \<longleftrightarrow> (\<exists>g. steps (k g) m y m')"

lemma steps_bind [simp]:
  "steps (progBind p f) m y m' \<longleftrightarrow> (\<exists>x m1. steps p m x m1 \<and> steps (f x) m1 y m')"
  by (induction p arbitrary: m) auto

lemma steps_lift [simp]: "steps (liftP r) m y m' \<longleftrightarrow> r = Inr y \<and> m' = m"
  by (auto simp: liftP_def split: sum.split)

lemma steps_store [simp]:
  "steps (storeGet sk k) m y m' \<longleftrightarrow> m' = m \<and> (\<exists>es. map_of m sk = Some es \<and> y = map_of es k)"
  "steps (storeSet sk k v) m u m' \<longleftrightarrow> (\<exists>es. map_of m sk = Some es \<and> m' = setStore sk (kput k v es) m)"
  "steps (storeDelete sk k) m u m' \<longleftrightarrow> (\<exists>es. map_of m sk = Some es \<and> m' = setStore sk (kdel k es) m)"
  by (auto simp: storeGet_def storeSet_def storeDelete_def)

lemma bindA_InrE:
  assumes "bindA m f s = (Inr y, s')"
  obtains x s1 where "m s = (Inr x, s1)" "f x s1 = (Inr y, s')"
  using assms by (auto simp: bindA_def split: prod.splits sum.splits)

lemma charge_parent: "charge ov n d gs = (r, gs') \<Longrightarrow> gparent gs' = gparent gs"
  by (auto simp: charge_def split: prod.splits)

lemma gasOps_simps:
  "opGet (gasOps ov cfg ops) = gasGet ov cfg ops" "opHas (gasOps ov cfg ops) = gasHas ov cfg ops"
  "opSet (gasOps ov cfg ops) = gasSet ov cfg ops" "opDelete (gasOps ov cfg ops) = gasDelete ov cfg ops"
  "opIterator (gasOps ov cfg ops) = gasIterator ov cfg ops"
  by (simp_all add: gasOps_def)

lemma onGParent_abs [simp]:
  "onGParent (opGet absOps (Some k)) gs = (Inr (map_of (gparent gs) k), gs)"
  "onGParent (opHas absOps (Some k)) gs = (Inr (map_of (gparent gs) k \<noteq> None), gs)"
  "onGParent (opSet absOps (Some k) (Some v)) gs = (Inr (), gs\<lparr>gparent := kput k v (gparent gs)\<rparr>)"
  "onGParent (opDelete absOps (Some k)) gs = (Inr (), gs\<lparr>gparent := kdel k (gparent gs)\<rparr>)"
  "onGParent (opIterator absOps asc start end) gs = (Inr \<lparr>itStart = start, itEnd = end,
     itItems = someItems (ordered asc (inDomain start end (gparent gs)))\<rparr>, gs)"
  by (simp_all add: onGParent_def absOps_def bytesOf_def)

lemma gas_call_abs:
  assumes "call (gasOps ov cfg absOps) c \<lparr>gasMeter = g, gparent = es\<rparr> = (Inr a, gs)"
  shows "a = answerOf c es \<and> gparent gs = effectOf c es"
  using assms
  by (cases c) (auto simp: call_def gasOps_simps gasGet_def gasSet_def gasHas_def gasDelete_def gasIterator_def consumeSeekGas_def
      split: if_splits elim!: bindA_InrE dest!: charge_parent)

lemma runProg_steps: "runProg ov absOps p ctx = (Inr y, ctx') \<Longrightarrow> steps p (ms ctx) y (ms ctx')"
proof (induction p arbitrary: ctx)
  case (Call sk c k)
  obtain a ctx1 where c: "ctxCall ov absOps sk c ctx = (Inr a, ctx1)" "runProg ov absOps (k a) ctx1 = (Inr y, ctx')"
    using Call.prems by (auto simp: bindA_def split: prod.splits sum.splits)
  obtain es gs where es: "map_of (ms ctx) sk = Some es"
      "call (gasOps ov DefaultGasConfig absOps) c \<lparr>gasMeter = curMeter ctx, gparent = es\<rparr> = (Inr a, gs)"
      "ms ctx1 = setStore sk (gparent gs) (ms ctx)"
    using c(1) by (auto simp: ctxCall_def split: option.splits prod.splits)
  show ?case
    using Call.IH[OF rangeI c(2)] es gas_call_abs[OF es(2)] by auto
next
  case (Consume n d p)
  obtain g where "runProg ov absOps p (setCurMeter g ctx) = (Inr y, ctx')"
    using Consume.prems by (auto simp: bindA_def ctxConsume_def split: prod.splits sum.splits)
  from Consume.IH[OF this] show ?case
    by simp
next
  case (WithGasMeter g p)
  from WithGasMeter.prems WithGasMeter.IH[of "ctx\<lparr>newMeter := Some g\<rparr>"] show ?case
    by simp
next
  case (MeterConsumed k)
  from MeterConsumed.prems MeterConsumed.IH[OF rangeI] show ?case
    by auto
qed auto

subsection \<open>Programs\<close>

context kv_store
begin

lemma gas_call:
  assumes "ok (Suc n) s" "call (gasOps ov cfg ops) c \<lparr>gasMeter = m, gparent = s\<rparr> = (r, gs)"
  shows "call (gasOps ov cfg absOps) c \<lparr>gasMeter = m, gparent = view s\<rparr> = (r, \<lparr>gasMeter = gasMeter gs, gparent = view (gparent gs)\<rparr>)
    \<and> ok n (gparent gs)"
proof (cases c)
  case (CallGet k)
  obtain r0 s0 where g: "opGet ops (Some k) s = (r0, s0)"
    by fastforce
  show ?thesis
    using assms CallGet g get_law[OF assms(1) g] ok_mono[of "Suc n" _ n]
    by (auto simp: call_def gasOps_def gasGet_def bindA_def charge_def onGParent_def absOps_def bytesOf_def returnA_def
        split: prod.splits sum.splits)
next
  case (CallHas k)
  obtain r0 s0 where g: "opHas ops (Some k) s = (r0, s0)"
    by fastforce
  show ?thesis
    using assms CallHas g has_law[OF assms(1) g] ok_mono[of "Suc n" _ n]
    by (auto simp: call_def gasOps_def gasHas_def bindA_def charge_def onGParent_def absOps_def bytesOf_def returnA_def
        split: prod.splits sum.splits)
next
  case (CallSet k v)
  obtain r0 s0 where g: "opSet ops (Some k) (Some v) s = (r0, s0)"
    by fastforce
  show ?thesis
    using assms CallSet g set_law[OF assms(1) g] ok_mono[of "Suc n" _ n]
    by (auto simp: call_def gasOps_def gasSet_def bindA_def charge_def onGParent_def absOps_def bytesOf_def returnA_def
        AssertValidValue_def split: prod.splits sum.splits)
next
  case (CallDelete k)
  obtain r0 s0 where g: "opDelete ops (Some k) s = (r0, s0)"
    by fastforce
  show ?thesis
    using assms CallDelete g delete_law[OF assms(1) g] ok_mono[of "Suc n" _ n]
    by (auto simp: call_def gasOps_def gasDelete_def bindA_def charge_def onGParent_def absOps_def bytesOf_def returnA_def
        split: prod.splits sum.splits)
next
  case (CallIterate asc start "end")
  obtain r0 s0 where g: "opIterator ops asc start end s = (r0, s0)"
    by fastforce
  show ?thesis
    using assms CallIterate g iterator_law[OF assms(1) g] ok_mono[of "Suc n" _ n]
    by (auto simp: call_def gasOps_def gasIterator_def consumeSeekGas_def bindA_def charge_def onGParent_def absOps_def returnA_def
        split: prod.splits sum.splits if_splits)
qed

lemma ctxOk_mono: "ctxOk ok n ctx \<Longrightarrow> m \<le> n \<Longrightarrow> ctxOk ok m ctx"
  by (auto simp: ctxOk_def list_all_iff intro: ok_mono)

lemma ctxCall_sim:
  assumes "ctxOk ok (Suc n) ctx" "ctxCall ov ops sk c ctx = (r, ctx')"
  shows "ctxCall ov absOps sk c (absContext view ctx) = (r, absContext view ctx') \<and> ctxOk ok n ctx'"
proof (cases "map_of (ms ctx) sk")
  case None
  then show ?thesis
    using assms ctxOk_mono[of "Suc n" ctx n] by (auto simp: ctxCall_def map_of_multi)
next
  case (Some s)
  then have s: "ok (Suc n) s"
    using assms(1) by (auto simp: ctxOk_def list_all_iff dest!: map_of_SomeD)
  obtain r0 gs where c: "call (gasOps ov DefaultGasConfig ops) c \<lparr>gasMeter = curMeter ctx, gparent = s\<rparr> = (r0, gs)"
    by fastforce
  have "\<forall>(k, x)\<in>set (setStore sk (gparent gs) (ms ctx)). ok n x"
    using assms(1) gas_call[OF s c] ok_mono[of "Suc n" _ n] by (auto simp: ctxOk_def list_all_iff dest!: set_setStore)
  then show ?thesis
    using assms(2) Some c gas_call[OF s c]
    by (auto simp: ctxCall_def map_of_multi absContext_setStore ctxOk_def list_all_iff)
qed

lemma runProg_sim:
  "callBound p m \<Longrightarrow> ctxOk ok (n + m) ctx \<Longrightarrow> runProg ov ops p ctx = (r, ctx') \<Longrightarrow>
    runProg ov absOps p (absContext view ctx) = (r, absContext view ctx') \<and> ctxOk ok n ctx'"
proof (induction p arbitrary: m ctx r ctx')
  case (Call sk c k)
  obtain m' where m: "m = Suc m'" "\<And>a. callBound (k a) m'"
    using Call.prems(1) by auto
  obtain a ctx1 where c: "ctxCall ov ops sk c ctx = (a, ctx1)"
    by fastforce
  have 1: "ctxCall ov absOps sk c (absContext view ctx) = (a, absContext view ctx1)" "ctxOk ok (n + m') ctx1"
    using ctxCall_sim[OF _ c, of "n + m'"] Call.prems(2) m(1) by auto
  show ?case
    using Call.prems(3) Call.IH[OF _ m(2) 1(2)] c 1 ctxOk_mono[OF 1(2), of n] by (cases a) auto
next
  case (Consume g d p)
  obtain a ctx1 where c: "ctxConsume ov g d ctx = (a, ctx1)"
    by fastforce
  then have 1: "ctxConsume ov g d (absContext view ctx) = (a, absContext view ctx1)" "ctxOk ok (n + m) ctx1"
    using Consume.prems(2) by (auto simp: ctxConsume_def split: prod.splits)
  show ?case
    using Consume.prems Consume.IH[OF _ 1(2)] c 1 ctxOk_mono[OF 1(2), of n] by (cases a) auto
next
  case (WithGasMeter g p)
  show ?case
    using WithGasMeter.prems WithGasMeter.IH[of m "ctx\<lparr>newMeter := Some g\<rparr>" r ctx'] by (simp add: ctxOk_def)
next
  case (MeterConsumed k)
  show ?case
    using MeterConsumed.prems MeterConsumed.IH[of "k (GasConsumed (curMeter ctx))" m ctx r ctx'] by simp
qed (auto intro: ctxOk_mono)

text \<open>A program run on cache-wraps leaves the entries below them as they were.\<close>

abbreviation "cacheBase ctx \<equiv> map (\<lambda>(k, cs). (k, view (parent cs))) (ms ctx)"

lemma gas_call_isolated:
  assumes "cok (Suc n) cs" "call (gasOps ov cfg (cacheOps ops)) c \<lparr>gasMeter = m, gparent = cs\<rparr> = (r, gs)"
  shows "view (parent (gparent gs)) = view (parent cs)"
proof -
  obtain a cs1 where c: "call (cacheOps ops) c cs = (a, cs1)"
    by fastforce
  have "gparent gs = cs \<or> gparent gs = cs1"
    using assms(2) c
    by (cases c) (auto simp: call_def gasOps_def gasGet_def gasSet_def gasHas_def gasDelete_def gasIterator_def consumeSeekGas_def
        bindA_def charge_def onGParent_def returnA_def liftA_def AssertValidValue_def split: prod.splits sum.splits if_splits)
  then show ?thesis
    using call_isolated[OF assms(1) c] by auto
qed

lemma ctxCall_isolated:
  assumes "ctxOk cok (Suc n) ctx" "ctxCall ov (cacheOps ops) sk c ctx = (a, ctx1)"
  shows "cacheBase ctx1 = cacheBase ctx \<and> map fst (ms ctx1) = map fst (ms ctx)"
proof (cases "map_of (ms ctx) sk")
  case (Some cs)
  have cs: "cok (Suc n) cs"
    using Some assms(1) by (auto simp: ctxOk_def list_all_iff dest!: map_of_SomeD)
  obtain r0 gs where g: "call (gasOps ov DefaultGasConfig (cacheOps ops)) c \<lparr>gasMeter = curMeter ctx, gparent = cs\<rparr> = (r0, gs)"
    by fastforce
  have "ctx1 = setCurMeter (gasMeter gs) (ctx\<lparr>ms := setStore sk (gparent gs) (ms ctx)\<rparr>)"
    using assms(2) Some g by (simp add: ctxCall_def)
  then have "ms ctx1 = setStore sk (gparent gs) (ms ctx)"
    by simp
  moreover have "map (\<lambda>(k, cs). (k, view (parent cs))) (setStore sk (gparent gs) (ms ctx)) = cacheBase ctx"
    using gas_call_isolated[OF cs g] by (intro setStore_same[OF Some])
  ultimately show ?thesis
    by (simp only: keys_setStore)
qed (use assms(2) in \<open>simp add: ctxCall_def\<close>)

lemma runProg_isolated:
  "callBound p m \<Longrightarrow> ctxOk cok (n + m) ctx \<Longrightarrow> runProg ov (cacheOps ops) p ctx = (r, ctx') \<Longrightarrow>
    cacheBase ctx' = cacheBase ctx \<and> map fst (ms ctx') = map fst (ms ctx)"
proof (induction p arbitrary: m ctx r ctx')
  case (Call sk c k)
  obtain m' where m: "m = Suc m'" "\<And>a. callBound (k a) m'"
    using Call.prems(1) by auto
  obtain a ctx1 where c: "ctxCall ov (cacheOps ops) sk c ctx = (a, ctx1)"
    by fastforce
  have ok: "ctxOk cok (Suc (n + m')) ctx"
    using Call.prems(2) m(1) by simp
  have ok1: "ctxOk cok (n + m') ctx1"
    using kv_store.ctxCall_sim[OF cache_store ok c] by blast
  note one = ctxCall_isolated[OF ok c]
  show ?case
  proof (cases a)
    case (Inl e)
    then show ?thesis
      using Call.prems(3) c one by simp
  next
    case (Inr x)
    then have run: "runProg ov (cacheOps ops) (k x) ctx1 = (r, ctx')"
      using Call.prems(3) c by simp
    show ?thesis
      using Call.IH[OF rangeI m(2) ok1 run] one by (simp only:)
  qed
next
  case (Consume g d p)
  obtain a ctx1 where c: "ctxConsume ov g d ctx = (a, ctx1)"
    by fastforce
  then have ms: "ms ctx1 = ms ctx"
    by (auto simp: ctxConsume_def split: prod.splits)
  show ?case
  proof (cases a)
    case (Inl e)
    then show ?thesis
      using Consume.prems(3) c ms by simp
  next
    case (Inr x)
    then have "runProg ov (cacheOps ops) p ctx1 = (r, ctx')"
      using Consume.prems(3) c by simp
    then show ?thesis
      using Consume.IH[of m ctx1 r ctx'] Consume.prems(1,2) ms by (simp add: ctxOk_def)
  qed
next
  case (WithGasMeter g p)
  show ?case
    using WithGasMeter.prems WithGasMeter.IH[of m "ctx\<lparr>newMeter := Some g\<rparr>" r ctx'] by (simp add: ctxOk_def)
next
  case (MeterConsumed k)
  show ?case
    using MeterConsumed.prems MeterConsumed.IH[of "k (GasConsumed (curMeter ctx))" m ctx r ctx'] by simp
qed simp_all

lemma MultiWrite_ok:
  "list_all (\<lambda>(k, cs). cok n cs) m \<Longrightarrow> MultiWrite ops m = (r, m') \<Longrightarrow>
    r = Inr () \<and> map (\<lambda>(k, s). (k, view s)) (parents m') = map (\<lambda>(k, cs). (k, cview cs)) m
    \<and> list_all (\<lambda>(k, s). ok n s) (parents m') \<and> map fst m' = map fst m"
proof (induction m arbitrary: r m')
  case (Cons e m)
  obtain k cs where e: "e = (k, cs)"
    by fastforce
  obtain u cs' where w: "cacheWrite ops cs = (u, cs')"
    by fastforce
  obtain r2 m2 where rest: "MultiWrite ops m = (r2, m2)"
    by fastforce
  have one: "u = Inr ()" "ok n (parent cs')" "view (parent cs') = cview cs"
    using cache_write[OF _ w] Cons.prems(1) e by auto
  have "r = r2" "m' = (k, cs') # m2"
    using Cons.prems(2) e w rest one(1) by simp_all
  then show ?case
    using Cons.IH[OF _ rest] Cons.prems(1) e one by (simp add: parents_def)
qed (simp add: parents_def)

text \<open>A cached context, its commit and its discard.\<close>

lemma cacheTxContext_ok:
  assumes "ctxOk ok n ctx"
  shows "ctxOk cok n (cacheTxContext ctx)" "absContext cview (cacheTxContext ctx) = absContext view ctx"
    "cacheBase (cacheTxContext ctx) = ms (absContext view ctx)" "map fst (ms (cacheTxContext ctx)) = map fst (ms ctx)"
  using assms cache_new
  by (auto simp: ctxOk_def cacheTxContext_def MultiCacheWrap_def absContext_def list_all_iff newCache_def cacheAbs_def)

lemma commit_ok:
  assumes "ctxOk cok n c" "MultiWrite ops (ms c) = (u, m)"
  shows "u = Inr ()" "absContext view (dropCache (c\<lparr>ms := m\<rparr>)) = absContext cview c" "ctxOk ok n (dropCache (c\<lparr>ms := m\<rparr>))"
    "map fst m = map fst (ms c)"
  using MultiWrite_ok[OF _ assms(2), of n] assms(1) by (simp_all add: ctxOk_def dropCache_def absContext_def)

lemma discard_ok:
  assumes "ctxOk cok n c"
  shows "absContext view (dropCache c) = (absContext cview c)\<lparr>ms := cacheBase c\<rparr>" "ctxOk ok n (dropCache c)"
proof -
  have "ok n (parent cs)" if "(k, cs) \<in> set (ms c)" for k cs
    using cok_simps(4)[of n cs] ok_mono[of _ "parent cs" n] that assms by (auto simp: ctxOk_def list_all_iff)
  then show "ctxOk ok n (dropCache c)"
    by (auto simp: ctxOk_def dropCache_def parents_def list_all_iff)
qed (auto simp: absContext_def dropCache_def parents_def)

lemma cached_run:
  assumes "callBound p m" "ctxOk cok (n + m) c" "runProg ov (cacheOps ops) p c = (r, c')"
  shows "runProg ov absOps p (absContext cview c) = (r, absContext cview c')" "ctxOk cok n c'"
    "cacheBase c' = cacheBase c" "map fst (ms c') = map fst (ms c)"
  using kv_store.runProg_sim[OF cache_store assms] runProg_isolated[OF assms] by blast+

lemma cached_ante:
  assumes "callBound p i" "\<And>e q. anteRecover app tx e = Some q \<Longrightarrow> callBound q j" "ctxOk cok (n + i + j) c"
    "runAnte ov (cacheOps ops) app tx p c = (r, c')"
  shows "runAnte ov absOps app tx p (absContext cview c) = (r, absContext cview c') \<and> ctxOk cok n c'
    \<and> cacheBase c' = cacheBase c \<and> map fst (ms c') = map fst (ms c)"
proof -
  obtain r1 c1 where run: "runProg ov (cacheOps ops) p c = (r1, c1)"
    by fastforce
  have "ctxOk cok ((n + j) + i) c"
    using assms(3) by (simp add: ac_simps)
  note one = cached_run[OF assms(1) this run]
  have ok1: "ctxOk cok n c1"
    using kv_store.ctxOk_mono[OF cache_store one(2)] by simp
  show ?thesis
  proof (cases r1)
    case (Inl e)
    show ?thesis
    proof (cases "anteRecover app tx e")
      case (Some q)
      have "runProg ov (cacheOps ops) q c1 = (r, c')"
        using assms(4) run Inl Some by (simp add: runAnte_def)
      then have "runProg ov absOps q (absContext cview c1) = (r, absContext cview c')" "ctxOk cok n c'"
          "cacheBase c' = cacheBase c1" "map fst (ms c') = map fst (ms c1)"
        using cached_run[OF assms(2)[OF Some] one(2)] by blast+
      then show ?thesis
        using one Inl Some by (simp add: runAnte_def)
    qed (use assms(4) run Inl one ok1 in \<open>auto simp: runAnte_def\<close>)
  qed (use assms(4) run one ok1 in \<open>auto simp: runAnte_def\<close>)
qed

lemma anteStep_sim:
  assumes "txBound app info mode tx i j k" "ctxOk ok (n + i + j) ctx"
    "anteStep ov ops app info mode tx (ctx, gw) = (r, (ctx', gw'))"
  shows "specAnte ov app info mode tx (absContext view ctx, gw) = (r, (absContext view ctx', gw')) \<and> ctxOk ok n ctx'
    \<and> map fst (ms ctx') = map fst (ms ctx)"
proof (cases "anteHandler app")
  case None
  then show ?thesis
    using assms(2,3) ctxOk_mono[OF assms(2), of n] by (auto simp: anteStep_def specAnte_def)
next
  case (Some h)
  let ?p = "h info tx (mode = RunTxModeSimulate)"
  note c = cacheTxContext_ok[OF assms(2)]
  obtain a c1 where run: "runAnte ov (cacheOps ops) app tx ?p (cacheTxContext ctx) = (a, c1)"
    by fastforce
  have sim: "runAnte ov absOps app tx ?p (absContext view ctx) = (a, absContext cview c1)" "ctxOk cok n c1"
      "cacheBase c1 = ms (absContext view ctx)" "map fst (ms c1) = map fst (ms ctx)"
    using cached_ante[OF _ _ c(1) run] assms(1) Some c(2-4) by (auto simp: txBound_def)
  let ?old = "(dropCache c1)\<lparr>newMeter := newMeter ctx\<rparr>"
  have old: "absContext view ?old = (absContext view ctx)\<lparr>ctxMeter := ctxMeter c1\<rparr>" "ctxOk ok n ?old"
      "map fst (ms ?old) = map fst (ms ctx)"
    using discard_ok[OF sim(2)] sim(3,4) by (auto simp: absContext_def ctxOk_def dropCache_def)
  obtain u m where w: "MultiWrite ops (ms c1) = (u, m)"
    by fastforce
  note commit = commit_ok[OF sim(2) w]
  have keys: "map fst (ms (dropCache (c1\<lparr>ms := m\<rparr>))) = map fst (ms ctx)"
    using commit(4) sim(4) by (simp add: dropCache_def)
  show ?thesis
    using assms(3) Some run sim(1) old w commit(1-3) keys
    by (auto simp: anteStep_def specAnte_def Let_def split: sum.splits if_splits)
qed

lemma msgStep_sim:
  assumes "txBound app info mode tx i j k" "ctxOk ok (n + k) ctx"
    "msgStep ov ops app info mode tx (ctx, gw) = (r, (ctx', gw'))"
  shows "specMsgs ov app info mode tx (absContext view ctx, gw) = (r, (absContext view ctx', gw')) \<and> ctxOk ok n ctx'
    \<and> map fst (ms ctx') = map fst (ms ctx)"
proof -
  let ?p = "runMsgs app info mode (getMsgs app tx)"
  note c = cacheTxContext_ok[OF assms(2)]
  obtain a c1 where run: "runProg ov (cacheOps ops) ?p (cacheTxContext ctx) = (a, c1)"
    by fastforce
  have "callBound ?p k"
    using assms(1) by (simp add: txBound_def)
  then have sim: "runProg ov absOps ?p (absContext view ctx) = (a, absContext cview c1)" "ctxOk cok n c1"
      "cacheBase c1 = ms (absContext view ctx)" "map fst (ms c1) = map fst (ms ctx)"
    using cached_run[OF _ c(1) run] c(2-4) by simp_all
  have old: "absContext view (dropCache c1) = (absContext cview c1)\<lparr>ms := ms (absContext view ctx)\<rparr>" "ctxOk ok n (dropCache c1)"
      "map fst (ms (dropCache c1)) = map fst (ms ctx)"
    using discard_ok[OF sim(2)] sim(3,4) by (simp_all add: dropCache_def)
  obtain u m where w: "MultiWrite ops (ms c1) = (u, m)"
    by fastforce
  note commit = commit_ok[OF sim(2) w]
  have keys: "map fst (ms (dropCache (c1\<lparr>ms := m\<rparr>))) = map fst (ms ctx)"
    using commit(4) sim(4) by (simp add: dropCache_def)
  show ?thesis
  proof (cases a)
    case (Inl e)
    then show ?thesis
      using assms(3) run sim(1) old by (auto simp: msgStep_def specMsgs_def)
  next
    case (Inr res)
    show ?thesis
    proof (cases "mode = RunTxModeDeliver \<and> IsOK res")
      case True
      then show ?thesis
        using assms(3) run sim(1) Inr w commit(1-3) keys by (auto simp: msgStep_def specMsgs_def Let_def IsOK_def)
    next
      case False
      then show ?thesis
        using assms(3) run sim(1) Inr old by (auto simp: msgStep_def specMsgs_def Let_def IsOK_def split: if_splits)
    qed
  qed
qed

lemma txBody_sim:
  assumes "txBound app info mode tx i j k" "ctxOk ok (n + k + i + j) ctx"
    "txBody ov ops app info mode tx (ctx, gw) = (r, (ctx', gw'))"
  shows "specTx ov app info mode tx (absContext view ctx, gw) = (r, (absContext view ctx', gw')) \<and> ctxOk ok n ctx'
    \<and> map fst (ms ctx') = map fst (ms ctx)"
proof (cases "validateBasicTxMsgs app (getMsgs app tx) = Inr None")
  case False
  then show ?thesis
    using assms(3) ctxOk_mono[OF assms(2), of n] by (auto simp: txBody_def specTx_def split: sum.splits option.splits)
next
  case None: True
  obtain a ctx1 gw1 where ante: "anteStep ov ops app info mode tx (ctx, gw) = (a, (ctx1, gw1))"
    by (metis surj_pair)
  note one = anteStep_sim[OF assms(1,2) ante]
  then have ok1: "ctxOk ok n ctx1"
    using ctxOk_mono[of "n + k" ctx1 n] by simp
  show ?thesis
  proof (cases "a = Inr None")
    case True
    then have "msgStep ov ops app info mode tx (ctx1, gw1) = (r, (ctx', gw'))"
      using assms(3) None ante by (simp add: txBody_def)
    then have "specMsgs ov app info mode tx (absContext view ctx1, gw1) = (r, (absContext view ctx', gw')) \<and> ctxOk ok n ctx'
        \<and> map fst (ms ctx') = map fst (ms ctx1)"
      using one by (intro msgStep_sim[OF assms(1)]) simp_all
    then show ?thesis
      using one True None by (simp add: specTx_def)
  next
    case False
    then show ?thesis
      using assms(3) None ante one ok1 by (auto simp: txBody_def specTx_def bindA_def split: sum.splits option.splits)
  qed
qed

end

subsection \<open>Transactions on the application's stores\<close>

text \<open>
  The deliver and check states are cache-wraps of the IAVL stores.
\<close>

abbreviation views :: "(MutableTree cacheStore) multi \<Rightarrow> (bytes \<times> bytes) list multi" where
  "views m \<equiv> map (\<lambda>(k, s). (k, cacheAbs entries s)) m"

definition stateOk :: "nat \<Rightarrow> (MutableTree cacheStore) state \<Rightarrow> bool" where
  "stateOk n st \<longleftrightarrow> list_all (\<lambda>(k, s). cacheInv entries iavlInv n s) (stMs st)"

text \<open>The context in which a delivered transaction starts, over the entries of the state.\<close>

definition deliverStart :: "(MutableTree cacheStore) state \<Rightarrow> GasMeter \<Rightarrow> (bytes \<times> bytes) list Context" where
  "deliverStart st block = \<lparr>ms = views (stMs st),
     ctxMeter = Passthrough (stMeter st) \<lparr>gasLimit = Remaining block, consumed = 0\<rparr>, newMeter = None\<rparr>"

lemma deliver_sim:
  assumes "txBound app info RunTxModeDeliver tx i j k" "stateOk (n + k + i + j) st" "stBlockMeter st = Some block"
    "0 \<le> Remaining block" "\<not> IsOutOfGas block"
    "specTx ov app info RunTxModeDeliver tx (deliverStart st block, 0) = (r, (ctx, gasWanted))"
    "runTx ov (cacheOps iavlOps) app info RunTxModeDeliver tx st = (out, st')"
    "deferBlockGas ov (GasConsumed block) (curMeter ctx) block = (g, block')"
  shows "out = Inr (deferRecover r g gasWanted (curMeter ctx))
    \<and> views (stMs st') = ms ctx \<and> stBlockMeter st' = Some block' \<and> stateOk n st'"
proof -
  let ?m = "Passthrough (stMeter st) \<lparr>gasLimit = Remaining block, consumed = 0\<rparr>"
  let ?c = "\<lparr>ms = stMs st, ctxMeter = ?m, newMeter = None\<rparr>"
  have c: "ctxOk (cacheInv entries iavlInv) (n + k + i + j) ?c"
      "absContext (cacheAbs entries) ?c = deliverStart st block"
    using assms(2) by (simp_all add: stateOk_def ctxOk_def absContext_def deliverStart_def)
  obtain r1 c1 g1 where body: "txBody ov (cacheOps iavlOps) app info RunTxModeDeliver tx (?c, 0) = (r1, (c1, g1))"
    by (metis surj_pair)
  have sim: "r1 = r" "absContext (cacheAbs entries) c1 = ctx" "g1 = gasWanted" "ctxOk (cacheInv entries iavlInv) n c1"
      "map fst (ms c1) = map fst (stMs st)"
    using kv_store.txBody_sim[OF cached.kv_store_axioms assms(1) c(1) body] c(2) assms(6) by auto
  have "NewPassthroughGasMeter (stMeter st) (Remaining block) = Inr ?m"
    using assms(4) by (simp add: NewPassthroughGasMeter_def NewGasMeter_def)
  moreover have "curMeter c1 = curMeter ctx" "views (ms c1) = ms ctx"
    using sim(2) by auto
  ultimately show ?thesis
    using assms(2,3,5,7,8) body sim(1,3-5) by (auto simp: runTx_def runTxDeliver_def stateOk_def ctxOk_def)
qed

end
