(* ===== verification/Coins_Correct.thy ===== *)
theory Coins_Correct
  imports Coins
begin

text \<open>
  Correctness of the coin sets. A set \<open>holds\<close> an amount of each denomination (\<open>held\<close>, zero where
  it has none); a well-formed set has its denominations in strictly increasing order, each one
  accepted by the denomination's regular expression, and positive \<open>int64\<close> amounts.
\<close>

subsection \<open>The view of a coin set\<close>

definition held :: "Coins \<Rightarrow> string \<Rightarrow> int" where
  "held cs d = (\<Sum>c\<leftarrow>cs. if Denom c = d then Amount c else 0)"

definition strictDenoms :: "Coins \<Rightarrow> bool" where
  "strictDenoms cs = sorted_wrt (\<lambda>c c'. Denom c < Denom c') cs"

definition wfCoins :: "Coins \<Rightarrow> bool" where
  "wfCoins cs \<longleftrightarrow> strictDenoms cs \<and> list_all (\<lambda>c. reDnm (Denom c) \<and> 0 < Amount c \<and> Amount c < 2 ^ 63) cs"

lemma held_simps [simp]:
  "held [] d = 0"
  "held (c # cs) d = (if Denom c = d then Amount c else 0) + held cs d"
  "held (xs @ ys) d = held xs d + held ys d"
  by (simp_all add: held_def)

lemma strictDenoms_simps [simp]:
  "strictDenoms []"
  "strictDenoms (c # cs) \<longleftrightarrow> (\<forall>c'\<in>set cs. Denom c < Denom c') \<and> strictDenoms cs"
  by (simp_all add: strictDenoms_def)

lemma strictDenoms_append:
  "strictDenoms (xs @ ys) \<longleftrightarrow> strictDenoms xs \<and> strictDenoms ys \<and> (\<forall>x\<in>set xs. \<forall>y\<in>set ys. Denom x < Denom y)"
  by (simp add: strictDenoms_def sorted_wrt_append)

lemma held_absent: "(\<And>c. c \<in> set cs \<Longrightarrow> Denom c \<noteq> d) \<Longrightarrow> held cs d = 0"
  by (induction cs) auto

lemma held_before: "\<forall>c\<in>set cs. d < Denom c \<Longrightarrow> held cs d = 0"
  by (rule held_absent) auto

lemma held_after: "\<forall>c\<in>set cs. Denom c < d \<Longrightarrow> held cs d = 0"
  by (rule held_absent) auto

lemma held_member: "strictDenoms cs \<Longrightarrow> c \<in> set cs \<Longrightarrow> held cs (Denom c) = Amount c"
  by (induction cs) (auto simp: held_before)

lemma held_cases: "strictDenoms cs \<Longrightarrow> held cs d \<noteq> 0 \<Longrightarrow> \<exists>c\<in>set cs. Denom c = d \<and> Amount c = held cs d"
  using held_absent[of cs d] held_member[of cs] by metis

lemma held_filter: "held (filter (\<lambda>c. \<not> CoinIsZero c) cs) d = held cs d"
  by (induction cs) (auto simp: CoinIsZero_def)

lemma strictDenoms_filter: "strictDenoms cs \<Longrightarrow> strictDenoms (filter P cs)"
  by (induction cs) auto

subsection \<open>removeZeroCoins\<close>

lemma shiftDown_view:
  assumes "i < l" "l \<le> length arr"
  shows "take i (shiftDown i l arr) = take i arr"
    and "drop i (take (l - Suc 0) (shiftDown i l arr)) = drop (Suc i) (take l arr)"
    and "length (shiftDown i l arr) = length arr"
    and "drop (l - Suc 0) (shiftDown i l arr) = drop (l - Suc 0) arr"
  using assms by (simp_all add: shiftDown_def drop_take)

lemma removeZero_loop_view:
  "i \<le> l \<Longrightarrow> l \<le> length arr \<Longrightarrow> removeZero_loop i l arr = (arr', j) \<Longrightarrow>
     take j arr' = take i arr @ filter (\<lambda>c. \<not> CoinIsZero c) (drop i (take l arr))
     \<and> length arr' = length arr \<and> j \<le> l"
proof (induction i l arr rule: removeZero_loop.induct)
  case (1 i l arr)
  show ?case
  proof (cases "i < l")
    case True
    then have head: "drop i (take l arr) = arr ! i # drop (Suc i) (take l arr)"
      using "1.prems" by (simp add: Cons_nth_drop_Suc[symmetric])
    have snoc: "take (Suc i) arr = take i arr @ [arr ! i]"
      using True "1.prems" by (simp add: take_Suc_conv_app_nth)
    show ?thesis
    proof (cases "CoinIsZero (arr ! i)")
      case zero: True
      have "removeZero_loop i (l - 1) (shiftDown i l arr) = (arr', j)"
        using "1.prems" True zero by (simp add: removeZero_loop.simps[of i l])
      then have "take j arr' = take i arr @ filter (\<lambda>c. \<not> CoinIsZero c) (drop (Suc i) (take l arr))
          \<and> length arr' = length arr \<and> j \<le> l - 1"
        using "1.IH"(1)[OF True zero] "1.prems" True by (simp add: shiftDown_view)
      then show ?thesis
        using zero head by auto
    next
      case nonzero: False
      have "removeZero_loop (Suc i) l arr = (arr', j)"
        using "1.prems" True nonzero by (simp add: removeZero_loop.simps[of i l])
      then show ?thesis
        using "1.IH"(2)[OF True nonzero] "1.prems" True nonzero head snoc by auto
    qed
  next
    case False
    then show ?thesis
      using "1.prems" by (auto simp: removeZero_loop.simps[of l l])
  qed
qed

lemma removeZeroCoins_filter: "removeZeroCoins cs = filter (\<lambda>c. \<not> CoinIsZero c) cs"
  using removeZero_loop_view[of 0 "length cs" cs]
  by (simp add: removeZeroCoins_def split: prod.split)

text \<open>The caller's array is compacted as well: after the call it repeats the coins that moved.\<close>

lemma removeZero_overwrites:
  "removeZero_loop 0 2 [\<lparr>Denom = a, Amount = 0\<rparr>, \<lparr>Denom = b, Amount = 5\<rparr>]
     = ([\<lparr>Denom = b, Amount = 5\<rparr>, \<lparr>Denom = b, Amount = 5\<rparr>], 1)"
  by (simp add: removeZero_loop.simps shiftDown_def CoinIsZero_def)

subsection \<open>AddUnsafe\<close>

abbreviation overflows :: "Coins \<Rightarrow> Coins \<Rightarrow> bool" where
  "overflows A B \<equiv> \<exists>d. \<not> int64 (held A d + held B d)"

abbreviation int64s :: "Coins \<Rightarrow> bool" where
  "int64s cs \<equiv> \<forall>c\<in>set cs. int64 (Amount c)"

text \<open>What the sum of two sets is: the denominations of both, in order, without zero amounts.\<close>

definition isSum :: "Coins \<Rightarrow> Coins \<Rightarrow> Coins \<Rightarrow> bool" where
  "isSum A B C \<longleftrightarrow> strictDenoms C \<and> (\<forall>c\<in>set C. Amount c \<noteq> 0) \<and> Denom ` set C \<subseteq> Denom ` (set A \<union> set B)
     \<and> (\<forall>d. held C d = held A d + held B d)"

lemma int64_swrap: "int64 x \<Longrightarrow> swrap 64 x = x"
  by (simp add: int64_def swrap64_id)

lemma held_int64: "strictDenoms cs \<Longrightarrow> int64s cs \<Longrightarrow> int64 (held cs d)"
  using held_cases[of cs d] by (cases "held cs d = 0") (auto simp: int64_def)

lemma CoinAddUnsafe_eq:
  "ovf_spec ov \<Longrightarrow> int64 (Amount a) \<Longrightarrow> int64 (Amount b) \<Longrightarrow> Denom a = Denom b \<Longrightarrow>
     CoinAddUnsafe ov a b = (if int64 (Amount a + Amount b) then Inr \<lparr>Denom = Denom a, Amount = Amount a + Amount b\<rparr>
                             else Inl (Panic ''coin add overflow/underflow''))"
  by (auto simp: CoinAddUnsafe_def ovf_spec_def int64_swrap)

lemma isSum_filter: "strictDenoms A \<Longrightarrow> isSum A [] (filter (\<lambda>c. \<not> CoinIsZero c) A)"
  "strictDenoms B \<Longrightarrow> isSum [] B (filter (\<lambda>c. \<not> CoinIsZero c) B)"
  by (auto simp: isSum_def held_filter strictDenoms_filter) (simp_all add: CoinIsZero_def)

lemma isSum_Cons:
  assumes "isSum A' B' C" "\<forall>x\<in>set A' \<union> set B'. Denom c < Denom x"
    "\<And>d. held A d + held B d = held [c] d + held A' d + held B' d"
    "Denom ` (set A \<union> set B) = insert (Denom c) (Denom ` (set A' \<union> set B'))"
  shows "isSum A B (if CoinIsZero c then C else c # C)"
proof -
  have sub: "Denom ` set C \<subseteq> Denom ` (set A' \<union> set B')"
    using assms(1) by (simp add: isSum_def)
  have front: "Denom c < Denom x" if "x \<in> set C" for x
  proof -
    have "Denom x \<in> Denom ` (set A' \<union> set B')"
      using sub that by blast
    then obtain y where "y \<in> set A' \<union> set B'" "Denom x = Denom y"
      by (rule imageE)
    then show ?thesis
      using assms(2) by simp
  qed
  have C: "strictDenoms C" "\<forall>x\<in>set C. Amount x \<noteq> 0" "held C d = held A' d + held B' d" for d
    using assms(1) by (simp_all add: isSum_def)
  have "held (if CoinIsZero c then C else c # C) d = held A d + held B d" for d
    unfolding assms(3) using C(3)[of d] by (simp add: CoinIsZero_def)
  moreover have "strictDenoms (if CoinIsZero c then C else c # C)"
    using C(1) front by simp
  moreover have "\<forall>x\<in>set (if CoinIsZero c then C else c # C). Amount x \<noteq> 0"
    using C(2) by (simp add: CoinIsZero_def)
  moreover have "Denom ` set (if CoinIsZero c then C else c # C) \<subseteq> Denom ` (set A \<union> set B)"
    unfolding assms(4) using sub by auto
  ultimately show ?thesis
    unfolding isSum_def by blast
qed

lemma overflows_Cons:
  assumes "\<forall>x\<in>set A' \<union> set B'. Denom c < Denom x" "int64 (Amount c)"
    "\<And>d. held A d + held B d = held [c] d + held A' d + held B' d"
  shows "overflows A B \<longleftrightarrow> overflows A' B'"
proof -
  have 0: "held A' (Denom c) = 0" "held B' (Denom c) = 0"
    using assms(1) by (auto intro: held_before)
  have "int64 (held A d + held B d) \<longleftrightarrow> int64 (held A' d + held B' d)" for d
    using assms(2,3) 0 by (cases "d = Denom c") (auto simp: int64_def)
  then show ?thesis
    by simp
qed

definition addOutcome :: "ovf \<Rightarrow> Coins \<Rightarrow> Coins \<Rightarrow> bool" where
  "addOutcome ov A B \<longleftrightarrow> (if overflows A B then AddUnsafe ov A B = Inl (Panic ''coin add overflow/underflow'')
     else \<exists>C. AddUnsafe ov A B = Inr C \<and> isSum A B C)"

lemma addOutcome_sum:
  assumes "addOutcome ov A B" "\<not> overflows A B"
  obtains C where "AddUnsafe ov A B = Inr C" "isSum A B C"
  using assms unfolding addOutcome_def by (auto split: if_splits)

lemma addOutcome_Cons:
  assumes "addOutcome ov A' B'" "\<forall>x\<in>set A' \<union> set B'. Denom c < Denom x" "int64 (Amount c)"
    "\<And>d. held A d + held B d = held [c] d + held A' d + held B' d"
    "Denom ` (set A \<union> set B) = insert (Denom c) (Denom ` (set A' \<union> set B'))"
    "AddUnsafe ov A B = bindR (AddUnsafe ov A' B') (\<lambda>rest. Inr (if CoinIsZero c then rest else c # rest))"
  shows "addOutcome ov A B"
proof (cases "overflows A' B'")
  case True
  then show ?thesis
    using assms(1) unfolding addOutcome_def overflows_Cons[OF assms(2-4)] assms(6) by simp
next
  case False
  then obtain C where "AddUnsafe ov A' B' = Inr C" "isSum A' B' C"
    using assms(1) unfolding addOutcome_def by auto
  then show ?thesis
    using False isSum_Cons[OF _ assms(2,4,5)]
    unfolding addOutcome_def overflows_Cons[OF assms(2-4)] assms(6) by simp
qed

lemma addOutcome_same:
  assumes "ovf_spec ov" "addOutcome ov as bs" "Denom a = Denom b" "int64 (Amount a)" "int64 (Amount b)"
    "\<forall>x\<in>set as \<union> set bs. Denom a < Denom x"
  shows "addOutcome ov (a # as) (b # bs)"
proof (cases "int64 (Amount a + Amount b)")
  case True
  let ?c = "\<lparr>Denom = Denom a, Amount = Amount a + Amount b\<rparr>"
  show ?thesis
  proof (rule addOutcome_Cons[of ov as bs ?c])
    show "Denom ` (set (a # as) \<union> set (b # bs)) = insert (Denom ?c) (Denom ` (set as \<union> set bs))"
      using assms(3) by auto
  qed (use assms True in \<open>simp_all add: CoinAddUnsafe_eq cong: if_cong\<close>)
next
  case False
  then have "\<not> int64 (held (a # as) (Denom a) + held (b # bs) (Denom a))"
    using assms(3,6) by (simp add: held_before)
  then have "overflows (a # as) (b # bs)"
    by blast
  then show ?thesis
    using False assms by (simp add: addOutcome_def CoinAddUnsafe_eq)
qed

lemma AddUnsafe_outcome:
  "ovf_spec ov \<Longrightarrow> strictDenoms A \<Longrightarrow> strictDenoms B \<Longrightarrow> int64s A \<Longrightarrow> int64s B \<Longrightarrow> addOutcome ov A B"
proof (induction ov A B rule: AddUnsafe.induct)
  case (1 ov)
  then show ?case by (simp add: addOutcome_def isSum_def int64_def)
next
  case (2 ov b bs)
  then show ?case
    using held_int64[of "b # bs"] isSum_filter(2)[of "b # bs"]
    by (simp add: addOutcome_def removeZeroCoins_filter)
next
  case (3 ov a as)
  then show ?case
    using held_int64[of "a # as"] isSum_filter(1)[of "a # as"]
    by (simp add: addOutcome_def removeZeroCoins_filter)
next
  case (4 ov a as b bs)
  consider "Denom a < Denom b" | "Denom a = Denom b" | "Denom b < Denom a"
    by (meson linorder_neqE)
  then show ?case
  proof cases
    case 1
    then have "addOutcome ov as (b # bs)"
      using 4 by simp
    then show ?thesis
    proof (rule addOutcome_Cons[of ov as "b # bs" a])
      show "\<forall>x\<in>set as \<union> set (b # bs). Denom a < Denom x"
        using 1 "4.prems" by auto
    qed (use 1 "4.prems" in \<open>simp_all add: insert_commute\<close>)
  next
    case 2
    then show ?thesis
      using 4 by (intro addOutcome_same) auto
  next
    case 3
    then have "addOutcome ov (a # as) bs"
      using 4 by simp
    then show ?thesis
    proof (rule addOutcome_Cons[of ov "a # as" bs b])
      show "\<forall>x\<in>set (a # as) \<union> set bs. Denom b < Denom x"
        using 3 "4.prems" by auto
    qed (use 3 order.asym[OF 3] "4.prems" in \<open>auto simp: insert_commute\<close>)
  qed
qed

subsection \<open>Validity\<close>

lemma denomChar_lower: "isLower c \<or> isDigit c \<Longrightarrow> asciiLower c = c \<and> (of_char c :: nat) < 128"
  by (auto simp: isLower_def isDigit_def asciiLower_def less_eq_char_def)

lemma ToLower_denom:
  assumes "reDnm d"
  shows "ToLower uni d = d"
proof -
  have "\<forall>c\<in>set d. isLower c \<or> isDigit c"
    using assms by (cases d) (auto simp: list_all_iff)
  then show ?thesis
    using denomChar_lower by (auto simp: ToLower_def list_all_iff intro: map_idI)
qed

lemma validTail_wf:
  "wfCoins cs \<Longrightarrow> \<forall>c\<in>set cs. low < Denom c \<Longrightarrow> validTail uni low cs"
  by (induction cs arbitrary: low) (auto simp: wfCoins_def ToLower_denom CoinIsPositive_def)

lemma wfCoins_Cons:
  "wfCoins (c # cs) \<longleftrightarrow> reDnm (Denom c) \<and> 0 < Amount c \<and> Amount c < 2 ^ 63 \<and> (\<forall>c'\<in>set cs. Denom c < Denom c') \<and> wfCoins cs"
  by (auto simp: wfCoins_def)

lemma IsValid_wf: "wfCoins cs \<Longrightarrow> IsValid uni cs"
  by (cases "(uni, cs)" rule: IsValid.cases)
    (auto simp: wfCoins_Cons validateDenom_def CoinIsPositive_def ToLower_denom validTail_wf)

lemma validTail_positive: "validTail uni low cs \<Longrightarrow> c \<in> set cs \<Longrightarrow> 0 < Amount c"
  by (induction cs arbitrary: low) (auto simp: CoinIsPositive_def split: if_splits)

lemma IsValid_positive: "IsValid uni cs \<Longrightarrow> c \<in> set cs \<Longrightarrow> 0 < Amount c"
  by (cases "(uni, cs)" rule: IsValid.cases)
    (auto simp: validateDenom_def CoinIsPositive_def dest: validTail_positive split: if_splits)

lemma wfCoinsD:
  assumes "wfCoins cs"
  shows "strictDenoms cs" "int64s cs" "c \<in> set cs \<Longrightarrow> reDnm (Denom c) \<and> 0 < Amount c \<and> Amount c < 2 ^ 63"
    "0 \<le> held cs d" "held cs d < 2 ^ 63"
proof -
  show *: "strictDenoms cs" "int64s cs" "c \<in> set cs \<Longrightarrow> reDnm (Denom c) \<and> 0 < Amount c \<and> Amount c < 2 ^ 63" for c
    using assms by (auto simp: wfCoins_def list_all_iff int64_def)
  show "0 \<le> held cs d" "held cs d < 2 ^ 63"
    using held_cases[OF *(1), of d] *(3) by (cases "held cs d = 0"; force)+
qed

lemma isSum_wf:
  assumes "isSum A B C" "\<forall>c\<in>set A \<union> set B. reDnm (Denom c)" "\<And>d. 0 \<le> held A d + held B d"
    "\<And>d. held A d + held B d < 2 ^ 63"
  shows "wfCoins C"
proof -
  have C: "strictDenoms C" "\<forall>c\<in>set C. Amount c \<noteq> 0" "Denom ` set C \<subseteq> Denom ` (set A \<union> set B)"
    "\<And>d. held C d = held A d + held B d"
    using assms(1) by (simp_all add: isSum_def)
  have "reDnm (Denom c) \<and> 0 < Amount c \<and> Amount c < 2 ^ 63" if c: "c \<in> set C" for c
  proof -
    have "Denom c \<in> Denom ` (set A \<union> set B)"
      using C(3) c by blast
    then have "reDnm (Denom c)"
      using assms(2) by (metis imageE)
    moreover have "Amount c = held A (Denom c) + held B (Denom c)"
      using held_member[OF C(1) c] C(4) by simp
    ultimately show ?thesis
      using C(2) c assms(3,4)[of "Denom c"] by fastforce
  qed
  then show ?thesis
    using C(1) by (simp add: wfCoins_def list_all_iff)
qed

lemma negative_view:
  assumes "wfCoins B"
  shows "strictDenoms (negative B)" "int64s (negative B)" "held (negative B) d = - held B d"
    "Denom ` set (negative B) = Denom ` set B"
proof -
  have "strictDenoms (negative B) \<and> int64s (negative B) \<and> held (negative B) d = - held B d
      \<and> Denom ` set (negative B) = Denom ` set B"
    using assms by (induction B) (auto simp: negative_def wfCoins_Cons int64_def swrap64_id)
  then show "strictDenoms (negative B)" "int64s (negative B)" "held (negative B) d = - held B d"
    "Denom ` set (negative B) = Denom ` set B"
    by simp_all
qed

lemma coins_unique:
  assumes "strictDenoms C" "strictDenoms C'" "\<forall>c\<in>set C \<union> set C'. Amount c \<noteq> 0" "\<And>d. held C d = held C' d"
  shows "C = C'"
proof -
  have dn: "set (map Denom X) = {d. held X d \<noteq> 0}" if "strictDenoms X" "\<forall>c\<in>set X. Amount c \<noteq> 0" for X
    using that held_member[of X] held_cases[of X] by fastforce
  have "map Denom C = map Denom C'"
  proof (rule strict_sorted_equal)
    show "sorted_wrt (<) (map Denom C')" "sorted_wrt (<) (map Denom C)"
      using assms(1,2) by (simp_all add: strictDenoms_def sorted_wrt_map)
    show "set (map Denom C) = set (map Denom C')"
      using dn[of C] dn[of C'] assms by simp
  qed
  moreover have "X = map (\<lambda>d. \<lparr>Denom = d, Amount = held X d\<rparr>) (map Denom X)" if "strictDenoms X" for X
    using held_member[OF that] by (simp add: map_idI)
  moreover have "held C = held C'"
    using assms(4) by blast
  ultimately show ?thesis
    using assms(1,2) by metis
qed

subsection \<open>AmountOf and the comparisons\<close>

lemma AmountOf_held:
  "strictDenoms cs \<Longrightarrow> reDnm d \<Longrightarrow> AmountOf cs d = Inr (held cs d)"
proof (induction cs d rule: AmountOf.induct)
  case (1 cs d)
  have ok: "mustValidateDenom d = Inr ()"
    using "1.prems" by (simp add: mustValidateDenom_def validateDenom_def)
  consider "cs = []" | c where "cs = [c]" | "length cs \<ge> 2"
    by (cases cs rule: list.exhaust; cases "tl cs") (auto simp: Suc_le_eq)
  then show ?case
  proof cases
    case 3
    let ?m = "length cs div 2"
    let ?l = "take ?m cs" and ?c = "cs ! ?m" and ?r = "drop (?m + 1) cs"
    have m: "?m < length cs" "cs \<noteq> []" "length cs \<noteq> 1"
      using 3 by auto
    have split: "cs = ?l @ ?c # ?r"
      using id_take_nth_drop[OF m(1)] by simp
    then have st: "strictDenoms ?l" "strictDenoms ?r" "\<forall>x\<in>set ?l. Denom x < Denom ?c" "\<forall>x\<in>set ?r. Denom ?c < Denom x"
      using "1.prems"(1) by (metis strictDenoms_append strictDenoms_simps(2) list.set_intros(1))+
    have h: "held cs d = held ?l d + (if Denom ?c = d then Amount ?c else 0) + held ?r d"
      by (subst split) simp
    have "held ?r d = 0" if "d \<le> Denom ?c"
      using st(4) that by (intro held_before) auto
    moreover have "held ?l d = 0" if "Denom ?c \<le> d"
      using st(3) that by (intro held_after) auto
    ultimately show ?thesis
      using "1.IH"[OF m(2,3) refl refl] st(1,2) m h "1.prems"(2) ok
      by (subst AmountOf.simps) (auto simp: Let_def)
  qed (use ok in \<open>simp_all add: AmountOf.simps[of "[]"] AmountOf.simps[of "[c]" for c]\<close>)
qed

lemma anyCoin_ex: "\<forall>c\<in>set cs. p c = Inr (q c) \<Longrightarrow> anyCoin p cs = Inr (\<exists>c\<in>set cs. q c)"
  by (induction cs) auto

lemma IsAllGTE_held:
  assumes "wfCoins A" "wfCoins B"
  shows "IsAllGTE A B = Inr (\<forall>d. held B d \<le> held A d)"
proof -
  have "(\<exists>c\<in>set B. Amount c > held A (Denom c)) \<longleftrightarrow> \<not> (\<forall>d. held B d \<le> held A d)"
    using held_member[OF wfCoinsD(1)[OF assms(2)]] held_cases[OF wfCoinsD(1)[OF assms(2)]] wfCoinsD(4)[OF assms(1)]
    by (metis linorder_not_le)
  moreover have "anyCoin (\<lambda>coinB. bindR (AmountOf A (Denom coinB)) (\<lambda>amountA. Inr (Amount coinB > amountA))) B
      = Inr (\<exists>c\<in>set B. Amount c > held A (Denom c))"
    using assms wfCoinsD(1,3) by (intro anyCoin_ex) (simp add: AmountOf_held)
  moreover have "\<not> (\<forall>d. held B d \<le> held [] d)" if "B \<noteq> []"
    using assms(2) that wfCoinsD(3)[OF assms(2), of "hd B"] held_member[OF wfCoinsD(1)[OF assms(2)], of "hd B"]
    by (auto simp: not_le intro!: exI[of _ "Denom (hd B)"])
  ultimately show ?thesis
    using wfCoinsD(4)[OF assms(1)] by (auto simp: IsAllGTE_def)
qed

subsection \<open>Printing and parsing\<close>

abbreviation alnum :: "char \<Rightarrow> bool" where
  "alnum c \<equiv> isLower c \<or> isDigit c"

lemma of_char_digit: "n < 10 \<Longrightarrow> isDigit (char_of (48 + n)) \<and> int (of_char (char_of (48 + n) :: char)) - 48 = int n"
  by (simp add: isDigit_def less_eq_char_def)

lemma digits_ok: "digits n \<noteq> [] \<and> list_all isDigit (digits n) \<and> digitsVal (digits n) = int n"
proof (induction n rule: digits.induct)
  case (1 n)
  show ?case
  proof (cases "n < 10")
    case True
    then show ?thesis
      using of_char_digit[of n] by (simp add: digits.simps[of n] digitsVal_def)
  next
    case False
    then show ?thesis
      using 1 of_char_digit[of "n mod 10"] by (simp add: digits.simps[of n] digitsVal_def zdiv_int zmod_int)
  qed
qed

lemma spaces_ends: "\<forall>p\<in>set spaces. p \<noteq> [] \<and> \<not> alnum (hd p) \<and> \<not> alnum (last p)"
  by (simp add: spaces_def isLower_def isDigit_def less_eq_char_def)

lemma trimLeft_id:
  assumes "s \<noteq> []" "\<forall>p\<in>set ps. p \<noteq> [] \<and> hd p \<noteq> hd s"
  shows "trimLeft ps s = s"
proof -
  have "\<not> (p \<noteq> [] \<and> isPrefixOf p s)" if "p \<in> set ps" for p
    using assms that by (cases p; cases s) (auto simp: isPrefixOf_def)
  then have "find (\<lambda>p. p \<noteq> [] \<and> isPrefixOf p s) ps = None"
    by (auto simp: find_None_iff)
  then show ?thesis
    by (simp add: trimLeft.simps[of ps s])
qed

lemma TrimSpace_id:
  assumes "s \<noteq> []" "alnum (hd s)" "alnum (last s)"
  shows "TrimSpace s = s"
proof -
  have sp: "p \<noteq> [] \<and> hd p \<noteq> hd s \<and> last p \<noteq> last s" if "p \<in> set spaces" for p
    using spaces_ends assms(2,3) that by metis
  have "trimLeft spaces s = s"
    using sp assms(1) by (intro trimLeft_id) blast+
  moreover have "trimLeft (map rev spaces) (rev s) = rev s"
    using sp assms(1) by (intro trimLeft_id) (simp_all add: hd_rev)
  ultimately show ?thesis
    by (simp add: TrimSpace_def)
qed

lemma not_digit_lower: "isLower c \<Longrightarrow> \<not> isDigit c \<and> \<not> reSpace c \<and> c \<noteq> CHR '','' "
  "isDigit c \<Longrightarrow> c \<noteq> CHR '',''"
  by (auto simp: isLower_def isDigit_def reSpace_def less_eq_char_def)

lemma reDnm_chars: "reDnm d \<Longrightarrow> d \<noteq> [] \<and> isLower (hd d) \<and> (\<forall>c\<in>set d. alnum c)"
  by (cases d) (auto simp: list_all_iff)

lemma reCoin_digits:
  assumes "amt \<noteq> []" "list_all isDigit amt" "reDnm d"
  shows "reCoin (amt @ d) = Some (amt, d)"
proof -
  obtain c cs where d: "d = c # cs" "isLower c"
    using reDnm_chars[OF assms(3)] by (cases d) auto
  then have "takeWhile isDigit (amt @ d) = amt" "dropWhile isDigit (amt @ d) = d" "dropWhile reSpace d = d"
    using assms(2) not_digit_lower(1)[of c] by (auto simp: list_all_iff)
  then show ?thesis
    using assms by (simp add: reCoin_def)
qed

definition wfCoin :: "Coin \<Rightarrow> bool" where
  "wfCoin c \<longleftrightarrow> reDnm (Denom c) \<and> 0 < Amount c \<and> Amount c < 2 ^ 63"

lemma CoinString_chars:
  assumes "wfCoin c"
  shows "CoinString c \<noteq> []" "alnum (hd (CoinString c))" "alnum (last (CoinString c))" "CHR '','' \<notin> set (CoinString c)"
    "CoinString c = digits (nat (Amount c)) @ Denom c"
proof -
  show *: "CoinString c = digits (nat (Amount c)) @ Denom c"
    using assms by (simp add: wfCoin_def CoinString_def CoinIsZero_def showInt_def)
  have all: "alnum x" if "x \<in> set (CoinString c)" for x
    using assms that digits_ok[of "nat (Amount c)"] reDnm_chars[of "Denom c"]
    unfolding * wfCoin_def list_all_iff set_append by blast
  show ne: "CoinString c \<noteq> []"
    using digits_ok[of "nat (Amount c)"] by (simp add: *)
  show "alnum (hd (CoinString c))" "alnum (last (CoinString c))"
    using all ne hd_in_set last_in_set by blast+
  show "CHR '','' \<notin> set (CoinString c)"
    using all not_digit_lower by blast
qed

lemma ParseCoin_CoinString:
  assumes "wfCoin c"
  shows "ParseCoin (CoinString c) = Inr (Inr c)"
  using assms TrimSpace_id[OF CoinString_chars(1-3)[OF assms]] digits_ok[of "nat (Amount c)"]
  by (simp add: ParseCoin_def wfCoin_def CoinString_chars(5)[OF assms] reCoin_digits ParseInt_def
      validateDenom_def NewCoin_def validate_def)

lemma splitComma_nocomma: "CHR '','' \<notin> set s \<Longrightarrow> splitComma s = [s]"
  by (induction s) auto

lemma splitComma_append: "CHR '','' \<notin> set s \<Longrightarrow> splitComma (s @ CHR '','' # t) = s # splitComma t"
  by (induction s) auto

lemma splitComma_join:
  "\<forall>s\<in>set (x # ss). CHR '','' \<notin> set s \<Longrightarrow>
     splitComma (butlast (concat (map (\<lambda>s. s @ '','') (x # ss)))) = x # ss"
proof (induction ss arbitrary: x)
  case Nil
  then show ?case by (simp add: splitComma_nocomma)
next
  case (Cons y ss)
  have "butlast (concat (map (\<lambda>s. s @ '','') (x # y # ss)))
      = x @ CHR '','' # butlast (concat (map (\<lambda>s. s @ '','') (y # ss)))"
    by (simp add: butlast_append)
  then show ?case
    using Cons.IH[of y] Cons.prems by (simp add: splitComma_append del: map_append)
qed

lemma parseEach_ok: "list_all wfCoin cs \<Longrightarrow> parseEach (map CoinString cs) = Inr (Inr cs)"
  by (induction cs) (simp_all add: ParseCoin_CoinString)

lemma CoinsString_split:
  assumes "list_all wfCoin cs" "cs \<noteq> []"
  shows "splitComma (CoinsString cs) = map CoinString cs"
proof -
  obtain c cs' where cs: "cs = c # cs'"
    using assms(2) by (cases cs) auto
  have "CoinsString cs = butlast (concat (map (\<lambda>s. s @ '','') (map CoinString cs)))"
    using assms(2) by (simp add: CoinsString_def Let_def butlast_conv_take comp_def)
  then show ?thesis
    using splitComma_join[of "CoinString c" "map CoinString cs'"] assms(1) CoinString_chars(4)
    by (auto simp: cs list_all_iff)
qed

lemma CoinsString_ends:
  "list_all wfCoin cs \<Longrightarrow> cs \<noteq> [] \<Longrightarrow>
     CoinsString cs \<noteq> [] \<and> alnum (hd (CoinsString cs)) \<and> alnum (last (CoinsString cs))"
proof -
  assume cs: "list_all wfCoin cs" "cs \<noteq> []"
  then obtain ds d where d: "cs = ds @ [d]"
    by (metis rev_exhaust)
  let ?p = "concat (map (\<lambda>c. CoinString c @ '','') ds)"
  have s: "CoinsString cs = ?p @ CoinString d"
    by (simp add: CoinsString_def Let_def d)
  have wf: "wfCoin d" "wfCoin (hd cs)"
    using cs d by (auto simp: list_all_iff hd_append)
  have "CoinString d \<noteq> []" "hd (?p @ CoinString d) = hd (CoinString (hd cs))"
    using CoinString_chars(1) wf by (cases ds; simp add: d)+
  then show ?thesis
    using CoinString_chars(2)[OF wf(2)] CoinString_chars(3)[OF wf(1)] by (simp add: s)
qed

lemma Sort_strict: "strictDenoms cs \<Longrightarrow> Sort cs = cs"
  unfolding Sort_def strictDenoms_def
  by (rule sort_key_id_if_sorted) (auto simp: sorted_wrt_map elim!: sorted_wrt_mono_rel[rotated] intro: less_imp_le)

lemma wfCoins_alt: "wfCoins cs \<longleftrightarrow> strictDenoms cs \<and> list_all wfCoin cs"
  by (simp add: wfCoins_def wfCoin_def list_all_iff)

lemma validTail_strict: "validTail uni low cs \<Longrightarrow> strictDenoms cs \<and> (\<forall>c\<in>set cs. low < Denom c)"
  by (induction cs arbitrary: low) (auto simp: not_le split: if_splits dest: less_trans)

lemma IsValid_strict: "IsValid uni cs \<Longrightarrow> strictDenoms cs"
  by (cases "(uni, cs)" rule: IsValid.cases)
    (auto simp del: validTail.simps dest!: validTail_strict split: if_splits)

lemma ParseCoin_sound: "ParseCoin s = Inr (Inr c) \<Longrightarrow> reDnm (Denom c) \<and> Amount c < 2 ^ 63"
  by (auto simp: ParseCoin_def ParseInt_def validateDenom_def NewCoin_def validate_def bindR_eq_Inr
      split: option.splits sum.splits if_splits)

lemma parseEach_sound: "parseEach ss = Inr (Inr cs) \<Longrightarrow> c \<in> set cs \<Longrightarrow> reDnm (Denom c) \<and> Amount c < 2 ^ 63"
proof (induction ss arbitrary: cs)
  case (Cons s ss)
  then obtain d ds where "ParseCoin s = Inr (Inr d)" "parseEach ss = Inr (Inr ds)" "cs = d # ds"
    by (auto elim!: bindR_elim split: sum.splits)
  then show ?case
    using Cons.IH Cons.prems(2) ParseCoin_sound by auto
qed simp

lemma ParseCoins_sound:
  assumes "ParseCoins uni s = Inr (Inr cs)"
  shows "wfCoins cs"
proof (cases "TrimSpace s = []")
  case True
  then show ?thesis
    using assms by (simp add: ParseCoins_def wfCoins_def)
next
  case False
  then obtain ps where ps: "parseEach (splitComma (TrimSpace s)) = Inr (Inr ps)" "cs = Sort ps" "IsValid uni cs"
    using assms by (auto simp: ParseCoins_def Let_def elim!: bindR_elim split: sum.splits if_splits)
  then have "\<forall>c\<in>set cs. wfCoin c"
    using parseEach_sound[OF ps(1)] IsValid_positive[OF ps(3)] by (auto simp: wfCoin_def Sort_def)
  then show ?thesis
    using IsValid_strict[OF ps(3)] by (simp add: wfCoins_alt list_all_iff)
qed

subsection \<open>Addition and subtraction\<close>

lemma Add_wf:
  assumes "ovf_spec ov" "wfCoins A" "wfCoins B"
  shows "if overflows A B then Add ov uni A B = Inl (Panic ''coin add overflow/underflow'')
     else \<exists>C. Add ov uni A B = Inr C \<and> wfCoins C \<and> (\<forall>d. held C d = held A d + held B d)"
proof -
  have out: "addOutcome ov A B"
    using assms wfCoinsD(1,2) by (intro AddUnsafe_outcome) blast+
  show ?thesis
  proof (cases "overflows A B")
    case True
    then show ?thesis
      using out by (auto simp: addOutcome_def Add_def)
  next
    case False
    then obtain C where C: "AddUnsafe ov A B = Inr C" "isSum A B C"
      using addOutcome_sum[OF out] by metis
    have "held A d + held B d < 2 ^ 63" for d
      using False by (simp add: int64_def)
    then have "wfCoins C"
      using C(2) assms(2,3) wfCoinsD(3,4) by (intro isSum_wf[of A B]) auto
    then show ?thesis
      using False C by (simp add: Add_def IsValid_wf isSum_def)
  qed
qed

lemma Sub_wf:
  assumes "ovf_spec ov" "wfCoins A" "wfCoins B"
  shows "if \<forall>d. held B d \<le> held A d
     then \<exists>C. Sub ov uni A B = Inr C \<and> wfCoins C \<and> (\<forall>d. held C d = held A d - held B d)
     else Sub ov uni A B = Inl (Panic ''invalid result'')"
proof -
  note neg = negative_view[OF assms(3)]
  have A: "0 \<le> held A d" "held A d < 2 ^ 63" "0 \<le> held B d" "held B d < 2 ^ 63" for d
    using wfCoinsD(4,5) assms(2,3) by auto
  have "\<not> overflows A (negative B)"
  proof -
    have "int64 (held A d + held (negative B) d)" for d
      using A[of d] neg(3)[of d] by (simp add: int64_def)
    then show ?thesis
      by blast
  qed
  moreover have "addOutcome ov A (negative B)"
    using assms neg(1,2) wfCoinsD(1,2) by (intro AddUnsafe_outcome) blast+
  ultimately obtain C where C: "AddUnsafe ov A (negative B) = Inr C" "isSum A (negative B) C"
    using addOutcome_sum by metis
  then have held: "held C d = held A d - held B d" for d
    by (simp add: isSum_def neg(3))
  show ?thesis
  proof (cases "\<forall>d. held B d \<le> held A d")
    case True
    have "\<forall>c\<in>set A \<union> set (negative B). reDnm (Denom c)"
      using wfCoinsD(3) assms(2,3) neg(4) by (metis (no_types, lifting) Un_iff imageE image_eqI)
    moreover have "held A d + held (negative B) d < 2 ^ 63" "0 \<le> held A d + held (negative B) d" for d
      using A[of d] True neg(3) by auto
    ultimately have "wfCoins C"
      using C(2) by (intro isSum_wf[of A "negative B"]) auto
    then show ?thesis
      using True C held by (simp add: Sub_def SubUnsafe_def IsValid_wf)
  next
    case False
    then obtain d where "held C d < 0"
      using held by (metis diff_less_0_iff_less linorder_not_le)
    then have "\<not> IsValid uni C"
      using C(2) held_cases[of C d] IsValid_positive[of uni C] by (fastforce simp: isSum_def)
    then show ?thesis
      using False C by (simp add: Sub_def SubUnsafe_def)
  qed
qed

subsection \<open>Properties\<close>

definition usd :: Coins where
  "usd = [\<lparr>Denom = ''atom'', Amount = 5\<rparr>, \<lparr>Denom = ''gnot'', Amount = 7\<rparr>]"

definition fee :: Coins where
  "fee = [\<lparr>Denom = ''gnot'', Amount = 2\<rparr>]"

lemma samples_wf: "wfCoins usd" "wfCoins fee"
  by (simp_all add: usd_def fee_def wfCoins_def isLower_def isDigit_def less_eq_char_def)

text \<open>
  C15: Adding two well-formed coin sets gives the well-formed set that holds, of every
  denomination, the sum of the two amounts, and panics exactly when one of the sums does not
  fit \<open>int64\<close>.
\<close>

theorem coins_Add:
  assumes "ovf_spec ov" "wfCoins A" "wfCoins B"
  shows "if \<exists>d. \<not> int64 (held A d + held B d)
     then Add ov uni A B = Inl (Panic ''coin add overflow/underflow'')
     else \<exists>C. Add ov uni A B = Inr C \<and> wfCoins C \<and> (\<forall>d. held C d = held A d + held B d)"
  using Add_wf[OF assms] .

theorem coins_Add_witness:
  "if \<exists>d. \<not> int64 (held usd d + held fee d)
     then Add goOvf id usd fee = Inl (Panic ''coin add overflow/underflow'')
     else \<exists>C. Add goOvf id usd fee = Inr C \<and> wfCoins C \<and> (\<forall>d. held C d = held usd d + held fee d)"
  using coins_Add[OF goOvf_spec samples_wf] .

text \<open>
  C16: Subtracting well-formed coin sets never overflows; it gives the well-formed set of the
  differences when every denomination suffices, which is exactly when \<open>IsAllGTE\<close> says so, and
  panics otherwise.
\<close>

theorem coins_Sub:
  assumes "ovf_spec ov" "wfCoins A" "wfCoins B"
  shows "if IsAllGTE A B = Inr True
     then \<exists>C. Sub ov uni A B = Inr C \<and> wfCoins C \<and> (\<forall>d. held C d = held A d - held B d)
     else IsAllGTE A B = Inr False \<and> Sub ov uni A B = Inl (Panic ''invalid result'')"
  using Sub_wf[OF assms, of uni] IsAllGTE_held[OF assms(2,3)] by (cases "\<forall>d. held B d \<le> held A d") simp_all

theorem coins_Sub_witness:
  "if IsAllGTE usd fee = Inr True
     then \<exists>C. Sub goOvf id usd fee = Inr C \<and> wfCoins C \<and> (\<forall>d. held C d = held usd d - held fee d)
     else IsAllGTE usd fee = Inr False \<and> Sub goOvf id usd fee = Inl (Panic ''invalid result'')"
  using coins_Sub[OF goOvf_spec samples_wf] .

text \<open>
  C17: Paying back what was received restores the set: subtracting \<open>B\<close> from \<open>A + B\<close> gives \<open>A\<close>
  itself, the same coins in the same order.
\<close>

theorem coins_Add_Sub:
  assumes "ovf_spec ov" "wfCoins A" "wfCoins B" "Add ov uni A B = Inr C"
  shows "Sub ov uni C B = Inr A"
proof -
  have C: "wfCoins C" "\<And>d. held C d = held A d + held B d"
    using Add_wf[OF assms(1-3), of uni] assms(4) by (auto split: if_splits)
  then obtain D where D: "Sub ov uni C B = Inr D" "wfCoins D" "\<And>d. held D d = held A d"
    using Sub_wf[OF assms(1) C(1) assms(3), of uni] wfCoinsD(4)[OF assms(2)] by (auto split: if_splits)
  then have "D = A"
    using assms(2) wfCoinsD(1,3) by (intro coins_unique) fastforce+
  then show ?thesis
    using D(1) by simp
qed

theorem coins_Add_Sub_witness:
  "Sub goOvf id [\<lparr>Denom = ''atom'', Amount = 5\<rparr>, \<lparr>Denom = ''gnot'', Amount = 9\<rparr>] fee = Inr usd"
  by (rule coins_Add_Sub[OF goOvf_spec samples_wf])
    (simp add: usd_def fee_def Add_def goOvf_def CoinAddUnsafe_def int64_def swrap64_id less_char_def
      removeZeroCoins_filter CoinIsZero_def validateDenom_def ToLower_def asciiLower_def isLower_def
      isDigit_def less_eq_char_def CoinIsPositive_def)

text \<open>
  C18: The binary search of \<open>AmountOf\<close> finds the amount a linear scan of a sorted set finds, for
  every valid denomination, and panics on an invalid one.
\<close>

theorem AmountOf_search:
  assumes "strictDenoms cs"
  shows "AmountOf cs d = (if reDnm d then Inr (held cs d) else Inl (Panic ''invalid denom''))"
  using AmountOf_held[OF assms, of d]
  by (cases "reDnm d") (simp_all add: AmountOf.simps[of cs] mustValidateDenom_def validateDenom_def)

theorem AmountOf_search_witness: "AmountOf usd ''gnot'' = Inr 7"
  using AmountOf_search[OF wfCoinsD(1)[OF samples_wf(1)], of "''gnot''"]
  by (simp add: usd_def isLower_def isDigit_def less_eq_char_def)

text \<open>
  C19: Printing a well-formed set and parsing the result gives the set back, and whatever the
  parser accepts is a well-formed set.
\<close>

theorem parse_print:
  "(wfCoins cs \<longrightarrow> ParseCoins uni (CoinsString cs) = Inr (Inr cs))
   \<and> (ParseCoins uni s = Inr (Inr ds) \<longrightarrow> wfCoins ds)"
proof -
  have "ParseCoins uni (CoinsString cs) = Inr (Inr cs)" if wf: "wfCoins cs"
  proof (cases "cs = []")
    case True
    have "find (\<lambda>p. p \<noteq> [] \<and> isPrefixOf p []) ps = None" for ps :: "string list"
      by (auto simp: find_None_iff isPrefixOf_def)
    then have "TrimSpace [] = []"
      by (simp add: TrimSpace_def trimLeft.simps[of _ "[]"])
    then show ?thesis
      by (simp add: True ParseCoins_def CoinsString_def)
  next
    case False
    have all: "list_all wfCoin cs" "strictDenoms cs"
      using wf by (simp_all add: wfCoins_alt)
    then show ?thesis
      using CoinsString_ends[OF all(1) False] TrimSpace_id[of "CoinsString cs"]
      by (simp add: ParseCoins_def CoinsString_split False parseEach_ok Sort_strict IsValid_wf wf)
  qed
  then show ?thesis
    using ParseCoins_sound by blast
qed

theorem parse_print_witness: "wfCoins usd \<and> ParseCoins id (CoinsString usd) = Inr (Inr usd)"
  using parse_print[of usd id "[]" "[]"] samples_wf by simp

lemma held_pos_nonneg: "(\<And>e. e \<in> set cs \<Longrightarrow> 0 < Amount e) \<Longrightarrow> 0 \<le> held cs x"
  by (induction cs) (auto simp: less_imp_le)

text \<open>
  C20: \<open>IsValid\<close> checks only the first denomination against the regular expression. So whenever a
  set passes it and its second denomination is malformed, spending exactly the first coin panics
  although the balance covers it, and so does asking for the amount of any malformed denomination
  the set holds.
\<close>

theorem valid_but_unspendable:
  assumes "ovf_spec ov" "IsValid uni (c # d # cs)" "int64 (Amount c)" "\<not> reDnm (Denom d)"
  shows "IsValid uni [c] \<and> (\<forall>x. held [c] x \<le> held (c # d # cs) x)
    \<and> Sub ov uni (c # d # cs) [c] = Inl (Panic ''invalid result'')
    \<and> (\<forall>e \<in> set (d # cs). \<not> reDnm (Denom e) \<longrightarrow> AmountOf (c # d # cs) (Denom e) = Inl (Panic ''invalid denom''))"
proof -
  have pos: "0 < Amount e" if "e \<in> set (c # d # cs)" for e
    using IsValid_positive[OF assms(2) that] .
  have neg: "swrap 64 (- Amount c) = - Amount c"
    using assms(3) pos[of c] by (intro swrap64_id) (auto simp: int64_def)
  have first: "IsValid uni [c]"
    using assms(2) by (simp split: if_splits)
  have add: "Add64 ov (Amount c) (- Amount c) = (0, True)"
    using assms(1,3) pos[of c] by (simp add: ovf_spec_def int64_def swrap64_id)
  have rest: "filter (\<lambda>e. Amount e \<noteq> 0) (d # cs) = d # cs"
    using pos by (force simp: filter_id_conv)
  have "AddUnsafe ov (c # d # cs) (negative [c]) = Inr (d # cs)"
    using rest by (simp add: negative_def neg CoinAddUnsafe_def add removeZeroCoins_filter CoinIsZero_def del: filter.simps)
  moreover have "\<not> IsValid uni (d # cs)"
    using assms(4) by (cases cs) (auto simp: validateDenom_def)
  moreover have "0 \<le> held (d # cs) x" for x
    using pos by (intro held_pos_nonneg) auto
  moreover have "AmountOf (c # d # cs) (Denom e) = Inl (Panic ''invalid denom'')" if "\<not> reDnm (Denom e)" for e :: Coin
    using that by (subst AmountOf.simps) (simp add: mustValidateDenom_def validateDenom_def)
  ultimately show ?thesis
    using first by (simp add: Sub_def SubUnsafe_def)
qed

theorem valid_but_unspendable_witness:
  "IsValid id [\<lparr>Denom = ''atom'', Amount = 5\<rparr>, \<lparr>Denom = ''b!'', Amount = 3\<rparr>]
   \<and> Sub goOvf id [\<lparr>Denom = ''atom'', Amount = 5\<rparr>, \<lparr>Denom = ''b!'', Amount = 3\<rparr>] [\<lparr>Denom = ''atom'', Amount = 5\<rparr>] = Inl (Panic ''invalid result'')"
proof -
  let ?x = "\<lparr>Denom = ''atom'', Amount = 5\<rparr>" and ?y = "\<lparr>Denom = ''b!'', Amount = 3\<rparr>"
  have "IsValid id [?x, ?y]" "\<not> reDnm (Denom ?y)" "int64 (Amount ?x)"
    by (simp_all add: validateDenom_def ToLower_def asciiLower_def isLower_def isDigit_def less_eq_char_def
        CoinIsPositive_def less_char_def int64_def)
  then show ?thesis
    using valid_but_unspendable[OF goOvf_spec, of id ?x ?y "[]"] by simp
qed

text \<open>
  C21: A valid coin survives the Amino encoding, whatever the coin it is decoded into, unless its amount
  is zero: then nothing is written, and the decoded coin keeps the denomination that was there before.
\<close>

theorem coin_amino_roundtrip:
  assumes "CoinIsValid c" "int64 (Amount c)"
  shows "\<exists>s. MarshalAminoCoin c = Inr s \<and> UnmarshalAminoCoin old s = Inr (Inr (if Amount c = 0 then old else c))"
proof (cases "Amount c = 0")
  case False
  then have "wfCoin c"
    using assms by (auto simp: CoinIsValid_def validate_def validateDenom_def wfCoin_def int64_def split: if_splits)
  then show ?thesis
    using False ParseCoin_CoinString[of c] CoinString_chars(1)[of c] by (simp add: MarshalAminoCoin_def UnmarshalAminoCoin_def)
qed (simp add: MarshalAminoCoin_def UnmarshalAminoCoin_def CoinString_def CoinIsZero_def)

theorem coin_amino_roundtrip_witness:
  "CoinIsValid \<lparr>Denom = ''atom'', Amount = 0\<rparr>
   \<and> (\<exists>s. MarshalAminoCoin \<lparr>Denom = ''atom'', Amount = 0\<rparr> = Inr s
        \<and> UnmarshalAminoCoin \<lparr>Denom = [], Amount = 0\<rparr> s = Inr (Inr \<lparr>Denom = [], Amount = 0\<rparr>))"
proof -
  have "CoinIsValid \<lparr>Denom = ''atom'', Amount = 0\<rparr>"
    by (simp add: CoinIsValid_def validate_def validateDenom_def isLower_def isDigit_def less_eq_char_def)
  then show ?thesis
    using coin_amino_roundtrip[of "\<lparr>Denom = ''atom'', Amount = 0\<rparr>" "\<lparr>Denom = [], Amount = 0\<rparr>"] by (simp add: int64_def)
qed

end
