(* ===== verification/Accounts.thy ===== *)
theory Accounts
  imports Sdk_Correct Coins_Correct
begin

text \<open>
  Accounts (\<^verbatim>\<open>pkgs/std/account.go\<close>) and their keeper (\<^verbatim>\<open>pkgs/sdk/auth/keeper.go\<close>). The keeper's
  operations are programs on the substore of its key. Amino's encodings are fields of the keeper; what
  the keeper relies on is \<open>codec_spec\<close>: decoding inverts encoding for accounts with valid coins and
  for the non-zero account numbers it stores.
\<close>

subsection \<open>Accounts\<close>

datatype PubKey =
    PubKeyEd25519 bytes
  | PubKeySecp256k1 bytes
  | PubKeyMultisigThreshold nat "PubKey list"
  | PubKeyOther bytes

type_synonym addr = bytes

definition zeroAddress :: addr where
  "zeroAddress = replicate 20 0"

definition AddressIsZero :: "addr \<Rightarrow> bool" where
  "AddressIsZero a \<longleftrightarrow> a = zeroAddress"

record BaseAccount =
  Address :: addr
  AccCoins :: Coins
  AccPubKey :: "PubKey option"
  AccountNumber :: "64 word"
  Sequence :: "64 word"

definition ProtoBaseAccount :: BaseAccount where
  "ProtoBaseAccount = \<lparr>Address = zeroAddress, AccCoins = [], AccPubKey = None, AccountNumber = 0, Sequence = 0\<rparr>"

definition SetAddress :: "addr \<Rightarrow> BaseAccount \<Rightarrow> string + BaseAccount" where
  "SetAddress a acc = (if \<not> AddressIsZero (Address acc) then Inl ''cannot override BaseAccount address''
     else Inr (acc\<lparr>Address := a\<rparr>))"

definition SetPubKey :: "PubKey \<Rightarrow> BaseAccount \<Rightarrow> BaseAccount" where
  "SetPubKey pk acc = acc\<lparr>AccPubKey := Some pk\<rparr>"

definition SetAccCoins :: "Coins \<Rightarrow> BaseAccount \<Rightarrow> BaseAccount" where
  "SetAccCoins cs acc = acc\<lparr>AccCoins := cs\<rparr>"

definition SetAccountNumber :: "64 word \<Rightarrow> BaseAccount \<Rightarrow> BaseAccount" where
  "SetAccountNumber n acc = acc\<lparr>AccountNumber := n\<rparr>"

definition SetSequence :: "64 word \<Rightarrow> BaseAccount \<Rightarrow> BaseAccount" where
  "SetSequence n acc = acc\<lparr>Sequence := n\<rparr>"

subsection \<open>The keeper\<close>

record AccountKeeper =
  akKey :: string
  encAccount :: "BaseAccount \<Rightarrow> bytes"
  decAccount :: "bytes \<Rightarrow> BaseAccount option"
  encNumber :: "64 word \<Rightarrow> bytes"
  decNumber :: "bytes \<Rightarrow> 64 word option"

definition goodCoins :: "Coins \<Rightarrow> bool" where
  "goodCoins cs \<longleftrightarrow> strictDenoms cs \<and> list_all (\<lambda>c. 0 < Amount c \<and> Amount c < 2 ^ 63) cs"

definition codec_spec :: "AccountKeeper \<Rightarrow> bool" where
  "codec_spec ak \<longleftrightarrow> (\<forall>a. goodCoins (AccCoins a) \<longrightarrow> decAccount ak (encAccount ak a) = Some a)
     \<and> (\<forall>n. n \<noteq> 0 \<longrightarrow> decNumber ak (encNumber ak n) = Some n)"

text \<open>The bytes of a string constant.\<close>

definition strBytes :: "string \<Rightarrow> bytes" where
  "strBytes s = map of_char s"

definition AddressStoreKeyPrefix :: bytes where
  "AddressStoreKeyPrefix = strBytes ''/a/''"

definition GlobalAccountNumberKey :: bytes where
  "GlobalAccountNumberKey = strBytes ''globalAccountNumber''"

definition AddressStoreKey :: "addr \<Rightarrow> bytes" where
  "AddressStoreKey a = AddressStoreKeyPrefix @ a"

definition decodeAccount :: "AccountKeeper \<Rightarrow> bytes \<Rightarrow> BaseAccount prog" where
  "decodeAccount ak bz = (case decAccount ak bz of None \<Rightarrow> Throw (Panic ''decode account'') | Some acc \<Rightarrow> Ret acc)"

definition GetAccount :: "AccountKeeper \<Rightarrow> addr \<Rightarrow> BaseAccount option prog" where
  "GetAccount ak a = progBind (storeGet (akKey ak) (AddressStoreKey a)) (\<lambda>bz.
     case bz of None \<Rightarrow> Ret None | Some b \<Rightarrow> progBind (decodeAccount ak b) (\<lambda>acc. Ret (Some acc)))"

definition SetAccount :: "AccountKeeper \<Rightarrow> BaseAccount \<Rightarrow> unit prog" where
  "SetAccount ak acc = storeSet (akKey ak) (AddressStoreKey (Address acc)) (encAccount ak acc)"

definition RemoveAccount :: "AccountKeeper \<Rightarrow> BaseAccount \<Rightarrow> unit prog" where
  "RemoveAccount ak acc = storeDelete (akKey ak) (AddressStoreKey (Address acc))"

definition GetNextAccountNumber :: "AccountKeeper \<Rightarrow> 64 word prog" where
  "GetNextAccountNumber ak = progBind (storeGet (akKey ak) GlobalAccountNumberKey) (\<lambda>bz.
     progBind (case bz of None \<Rightarrow> Ret 0
               | Some b \<Rightarrow> (case decNumber ak b of None \<Rightarrow> Throw (Panic ''decode account number'') | Some n \<Rightarrow> Ret n)) (\<lambda>n.
     progBind (storeSet (akKey ak) GlobalAccountNumberKey (encNumber ak (n + 1))) (\<lambda>u. Ret n)))"

definition NewAccountWithAddress :: "AccountKeeper \<Rightarrow> addr \<Rightarrow> BaseAccount prog" where
  "NewAccountWithAddress ak a = (case SetAddress a ProtoBaseAccount of
     Inl e \<Rightarrow> Throw (Panic e)
   | Inr acc \<Rightarrow> progBind (GetNextAccountNumber ak) (\<lambda>n. Ret (SetAccountNumber n acc)))"

definition GetPubKey :: "AccountKeeper \<Rightarrow> addr \<Rightarrow> (abciError + PubKey option) prog" where
  "GetPubKey ak a = progBind (GetAccount ak a) (\<lambda>acc.
     case acc of None \<Rightarrow> Ret (Inl UnknownAddressError) | Some x \<Rightarrow> Ret (Inr (AccPubKey x)))"

definition GetSequence :: "AccountKeeper \<Rightarrow> addr \<Rightarrow> (abciError + 64 word) prog" where
  "GetSequence ak a = progBind (GetAccount ak a) (\<lambda>acc.
     case acc of None \<Rightarrow> Ret (Inl UnknownAddressError) | Some x \<Rightarrow> Ret (Inr (Sequence x)))"

text \<open>
  The loop of \<open>IterateAccounts\<close>: the iterator of the gas store charges for the pair it leaves. The
  callback's own state is passed along.
\<close>

fun iterateLoop :: "AccountKeeper \<Rightarrow> ('s \<Rightarrow> BaseAccount \<Rightarrow> bool \<times> 's) \<Rightarrow> 's \<Rightarrow> (bytes \<times> bytes option) list \<Rightarrow> 's prog" where
  "iterateLoop ak process st [] = Ret st"
| "iterateLoop ak process st ((k, v) # rest) = progBind (decodeAccount ak (bytesOf v)) (\<lambda>acc.
     case process st acc of (stop, st') \<Rightarrow>
       if stop then Ret st'
       else Consume (swrap 64 (ReadCostPerByte DefaultGasConfig * gasLen v)) ''ValuePerByte''
              (Consume (IterNextCostFlat DefaultGasConfig) ''IterNextFlat'' (iterateLoop ak process st' rest)))"

definition IterateAccounts :: "AccountKeeper \<Rightarrow> ('s \<Rightarrow> BaseAccount \<Rightarrow> bool \<times> 's) \<Rightarrow> 's \<Rightarrow> 's prog" where
  "IterateAccounts ak process st = progBind (storePrefix (akKey ak) AddressStoreKeyPrefix) (iterateLoop ak process st)"

definition GetAllAccounts :: "AccountKeeper \<Rightarrow> BaseAccount list prog" where
  "GetAllAccounts ak = IterateAccounts ak (\<lambda>accs acc. (False, accs @ [acc])) []"

subsection \<open>What the store holds\<close>

type_synonym estore = "(bytes \<times> bytes) list"

definition accountAt :: "AccountKeeper \<Rightarrow> estore multi \<Rightarrow> addr \<Rightarrow> BaseAccount option" where
  "accountAt ak m a = (case map_of m (akKey ak) of None \<Rightarrow> None
     | Some es \<Rightarrow> Option.bind (map_of es (AddressStoreKey a)) (decAccount ak))"

definition balanceOf :: "AccountKeeper \<Rightarrow> estore multi \<Rightarrow> addr \<Rightarrow> Coins" where
  "balanceOf ak m a = (case accountAt ak m a of None \<Rightarrow> [] | Some acc \<Rightarrow> AccCoins acc)"

text \<open>
  The store of accounts is well-formed: every record under an address decodes to an account of that
  address with increasing denominations and positive amounts.
\<close>

definition accountsOk :: "AccountKeeper \<Rightarrow> estore multi \<Rightarrow> bool" where
  "accountsOk ak m \<longleftrightarrow> (\<exists>es. map_of m (akKey ak) = Some es \<and>
     (\<forall>a bz. map_of es (AddressStoreKey a) = Some bz \<longrightarrow>
        (\<exists>acc. decAccount ak bz = Some acc \<and> Address acc = a \<and> goodCoins (AccCoins acc))))"

lemma AddressStoreKey_inj [simp]: "AddressStoreKey a = AddressStoreKey b \<longleftrightarrow> a = b"
  by (simp add: AddressStoreKey_def)

lemma AddressStoreKey_global [simp]: "AddressStoreKey a \<noteq> GlobalAccountNumberKey" "GlobalAccountNumberKey \<noteq> AddressStoreKey a"
  by (simp_all add: AddressStoreKey_def AddressStoreKeyPrefix_def GlobalAccountNumberKey_def strBytes_def)

lemma steps_decode [simp]: "steps (decodeAccount ak bz) m acc m' \<longleftrightarrow> decAccount ak bz = Some acc \<and> m' = m"
  by (auto simp: decodeAccount_def split: option.split)

lemma accountsOk_addr:
  assumes "accountsOk ak m" "accountAt ak m a = Some acc"
  shows "Address acc = a" "goodCoins (AccCoins acc)"
proof -
  obtain es bz where "map_of m (akKey ak) = Some es" "map_of es (AddressStoreKey a) = Some bz" "decAccount ak bz = Some acc"
    using assms(2) by (auto simp: accountAt_def bind_eq_Some_conv split: option.splits)
  then show "Address acc = a" "goodCoins (AccCoins acc)"
    using assms(1) by (fastforce simp: accountsOk_def)+
qed

lemma accountsOk_bal: "accountsOk ak m \<Longrightarrow> goodCoins (balanceOf ak m a)"
  using accountsOk_addr[of ak m a] by (cases "accountAt ak m a") (auto simp: balanceOf_def goodCoins_def)

lemma GetAccount_steps:
  assumes "accountsOk ak m"
  shows "steps (GetAccount ak a) m y m' \<longleftrightarrow> m' = m \<and> y = accountAt ak m a"
proof -
  obtain es where es: "map_of m (akKey ak) = Some es"
    using assms by (auto simp: accountsOk_def)
  show ?thesis
    using assms es by (cases "map_of es (AddressStoreKey a)") (auto simp: GetAccount_def accountAt_def accountsOk_def)
qed

lemma SetAccount_steps:
  assumes "codec_spec ak" "accountsOk ak m" "goodCoins (AccCoins acc)" "steps (SetAccount ak acc) m u m'"
  shows "accountsOk ak m'" "accountAt ak m' = (accountAt ak m)(Address acc \<mapsto> acc)"
    "sk \<noteq> akKey ak \<Longrightarrow> map_of m' sk = map_of m sk"
proof -
  obtain es where es: "map_of m (akKey ak) = Some es"
      "\<And>a bz. map_of es (AddressStoreKey a) = Some bz \<Longrightarrow>
        \<exists>acc. decAccount ak bz = Some acc \<and> Address acc = a \<and> goodCoins (AccCoins acc)"
    using assms(2) by (auto simp: accountsOk_def)
  let ?es = "kput (AddressStoreKey (Address acc)) (encAccount ak acc) es"
  have m': "m' = setStore (akKey ak) ?es m"
    using assms(4) es(1) by (simp add: SetAccount_def)
  have dec: "decAccount ak (encAccount ak acc) = Some acc"
    using assms(1,3) by (simp add: codec_spec_def)
  show "accountsOk ak m'"
    using m' es dec assms(3) by (auto simp: accountsOk_def map_of_setStore map_of_kput)
  show "accountAt ak m' = (accountAt ak m)(Address acc \<mapsto> acc)"
    using m' es(1) dec by (auto simp: accountAt_def map_of_setStore map_of_kput)
  show "sk \<noteq> akKey ak \<Longrightarrow> map_of m' sk = map_of m sk"
    using m' by (simp add: map_of_setStore)
qed

lemma NewAccount_steps:
  assumes "accountsOk ak m" "steps (NewAccountWithAddress ak a) m acc m'"
  shows "accountsOk ak m'" "accountAt ak m' = accountAt ak m" "Address acc = a" "AccCoins acc = []"
    "sk \<noteq> akKey ak \<Longrightarrow> map_of m' sk = map_of m sk"
proof -
  obtain es where es: "map_of m (akKey ak) = Some es"
    using assms(1) by (auto simp: accountsOk_def)
  obtain n v where run: "acc = SetAccountNumber n (ProtoBaseAccount\<lparr>Address := a\<rparr>)"
      "m' = setStore (akKey ak) (kput GlobalAccountNumberKey v es) m"
    using assms(2) es
    by (auto simp: NewAccountWithAddress_def SetAddress_def AddressIsZero_def ProtoBaseAccount_def GetNextAccountNumber_def split: option.splits)
  show "Address acc = a" "AccCoins acc = []"
    using run(1) by (simp_all add: SetAccountNumber_def ProtoBaseAccount_def)
  show "accountsOk ak m'" "accountAt ak m' = accountAt ak m" "sk \<noteq> akKey ak \<Longrightarrow> map_of m' sk = map_of m sk"
    using run(2) assms(1) es by (auto simp: accountsOk_def accountAt_def map_of_setStore map_of_kput fun_eq_iff)
qed

end
