(* ===== verification/Bank.thy ===== *)
theory Bank
  imports Accounts
begin

text \<open>
  The bank (\<^verbatim>\<open>pkgs/sdk/bank\<close>): transfers between accounts as programs over the account keeper, the
  bank's messages and their handler. Addresses are 20-byte arrays, so \<open>len(in.Address) == 0\<close> in the
  code's validation of inputs and outputs is the comparison of a constant.
\<close>

subsection \<open>The keeper\<close>

definition GetCoins :: "AccountKeeper \<Rightarrow> addr \<Rightarrow> Coins prog" where
  "GetCoins ak a = progBind (GetAccount ak a) (\<lambda>acc.
     Ret (case acc of None \<Rightarrow> [] | Some x \<Rightarrow> AccCoins x))"

definition HasCoins :: "AccountKeeper \<Rightarrow> addr \<Rightarrow> Coins \<Rightarrow> bool prog" where
  "HasCoins ak a amt = progBind (GetCoins ak a) (\<lambda>cs. liftP (IsAllGTE cs amt))"

definition SetCoins :: "(string \<Rightarrow> string) \<Rightarrow> AccountKeeper \<Rightarrow> addr \<Rightarrow> Coins \<Rightarrow> abciError option prog" where
  "SetCoins uni ak a amt =
     (if \<not> IsValid uni amt then Ret (Some InvalidCoinsError)
      else progBind (GetAccount ak a) (\<lambda>acc.
        progBind (case acc of None \<Rightarrow> NewAccountWithAddress ak a | Some x \<Rightarrow> Ret x) (\<lambda>acc.
        progBind (SetAccount ak (SetAccCoins amt acc)) (\<lambda>u. Ret None))))"

definition SubtractCoins :: "ovf \<Rightarrow> (string \<Rightarrow> string) \<Rightarrow> AccountKeeper \<Rightarrow> addr \<Rightarrow> Coins \<Rightarrow> (Coins \<times> abciError option) prog" where
  "SubtractCoins ov uni ak a amt =
     (if \<not> IsValid uni amt then Ret ([], Some InvalidCoinsError)
      else progBind (GetAccount ak a) (\<lambda>acc.
        let oldCoins = (case acc of None \<Rightarrow> [] | Some x \<Rightarrow> AccCoins x)
        in progBind (liftP (SubUnsafe ov oldCoins amt)) (\<lambda>newCoins.
          if \<not> IsValid uni newCoins then Ret ([], Some InsufficientCoinsError)
          else progBind (SetCoins uni ak a newCoins) (\<lambda>err. Ret (newCoins, err)))))"

definition AddCoins :: "ovf \<Rightarrow> (string \<Rightarrow> string) \<Rightarrow> AccountKeeper \<Rightarrow> addr \<Rightarrow> Coins \<Rightarrow> (Coins \<times> abciError option) prog" where
  "AddCoins ov uni ak a amt =
     (if \<not> IsValid uni amt then Ret ([], Some InvalidCoinsError)
      else progBind (GetCoins ak a) (\<lambda>oldCoins.
        progBind (liftP (Add ov uni oldCoins amt)) (\<lambda>newCoins.
          if \<not> IsValid uni newCoins then Ret (amt, Some InsufficientCoinsError)
          else progBind (SetCoins uni ak a newCoins) (\<lambda>err. Ret (newCoins, err)))))"

definition SendCoins :: "ovf \<Rightarrow> (string \<Rightarrow> string) \<Rightarrow> AccountKeeper \<Rightarrow> addr \<Rightarrow> addr \<Rightarrow> Coins \<Rightarrow> abciError option prog" where
  "SendCoins ov uni ak from to amt = progBind (SubtractCoins ov uni ak from amt) (\<lambda>(cs, err).
     if err \<noteq> None then Ret err
     else progBind (AddCoins ov uni ak to amt) (\<lambda>(cs, err). if err \<noteq> None then Ret err else Ret None))"

subsection \<open>Inputs and outputs\<close>

record InOut =
  ioAddress :: addr
  ioCoins :: Coins

definition ioValidateBasic :: "(string \<Rightarrow> string) \<Rightarrow> InOut \<Rightarrow> abciError option" where
  "ioValidateBasic uni io =
     (if length (ioAddress io) = 0 then Some InvalidAddressError
      else if \<not> IsValid uni (ioCoins io) then Some InvalidCoinsError
      else if \<not> IsAllPositive (ioCoins io) then Some InvalidCoinsError
      else None)"

fun sumCoins :: "ovf \<Rightarrow> (string \<Rightarrow> string) \<Rightarrow> Coins \<Rightarrow> InOut list \<Rightarrow> (abciError + Coins) result" where
  "sumCoins ov uni acc [] = Inr (Inr acc)"
| "sumCoins ov uni acc (io # rest) = (case ioValidateBasic uni io of
     Some e \<Rightarrow> Inr (Inl e)
   | None \<Rightarrow> bindR (Add ov uni acc (ioCoins io)) (\<lambda>acc'. sumCoins ov uni acc' rest))"

definition ValidateInputsOutputs :: "ovf \<Rightarrow> (string \<Rightarrow> string) \<Rightarrow> InOut list \<Rightarrow> InOut list \<Rightarrow> abciError option result" where
  "ValidateInputsOutputs ov uni inputs outputs = bindR (sumCoins ov uni [] inputs) (\<lambda>r.
     case r of Inl e \<Rightarrow> Inr (Some e)
     | Inr totalIn \<Rightarrow> bindR (sumCoins ov uni [] outputs) (\<lambda>r.
         case r of Inl e \<Rightarrow> Inr (Some e)
         | Inr totalOut \<Rightarrow> bindR (CoinsIsEqual totalIn totalOut) (\<lambda>eq.
             Inr (if \<not> eq then Some InputOutputMismatchError else None))))"

fun subtractAll :: "ovf \<Rightarrow> (string \<Rightarrow> string) \<Rightarrow> AccountKeeper \<Rightarrow> InOut list \<Rightarrow> abciError option prog" where
  "subtractAll ov uni ak [] = Ret None"
| "subtractAll ov uni ak (io # rest) = progBind (SubtractCoins ov uni ak (ioAddress io) (ioCoins io)) (\<lambda>(cs, err).
     if err \<noteq> None then Ret err else subtractAll ov uni ak rest)"

fun addAll :: "ovf \<Rightarrow> (string \<Rightarrow> string) \<Rightarrow> AccountKeeper \<Rightarrow> InOut list \<Rightarrow> abciError option prog" where
  "addAll ov uni ak [] = Ret None"
| "addAll ov uni ak (io # rest) = progBind (AddCoins ov uni ak (ioAddress io) (ioCoins io)) (\<lambda>(cs, err).
     if err \<noteq> None then Ret err else addAll ov uni ak rest)"

definition InputOutputCoins :: "ovf \<Rightarrow> (string \<Rightarrow> string) \<Rightarrow> AccountKeeper \<Rightarrow> InOut list \<Rightarrow> InOut list \<Rightarrow> abciError option prog" where
  "InputOutputCoins ov uni ak inputs outputs = progBind (liftP (ValidateInputsOutputs ov uni inputs outputs)) (\<lambda>err.
     if err \<noteq> None then Ret err
     else progBind (subtractAll ov uni ak inputs) (\<lambda>err.
       if err \<noteq> None then Ret err else addAll ov uni ak outputs))"

subsection \<open>Messages\<close>

datatype BankMsg =
    MsgSend addr addr Coins
  | MsgMultiSend "InOut list" "InOut list"

text \<open>\<open>ValidateBasic\<close> of the messages; validating a multi-send adds its coins and may panic.\<close>

fun BankMsgValidateBasic :: "ovf \<Rightarrow> (string \<Rightarrow> string) \<Rightarrow> BankMsg \<Rightarrow> abciError option result" where
  "BankMsgValidateBasic ov uni (MsgSend from to amt) =
     Inr (if AddressIsZero from then Some InvalidAddressError
          else if AddressIsZero to then Some InvalidAddressError
          else if \<not> IsValid uni amt then Some InvalidCoinsError
          else if \<not> IsAllPositive amt then Some InsufficientCoinsError
          else None)"
| "BankMsgValidateBasic ov uni (MsgMultiSend inputs outputs) =
     (if length inputs = 0 then Inr (Some NoInputsError)
      else if length outputs = 0 then Inr (Some NoOutputsError)
      else ValidateInputsOutputs ov uni inputs outputs)"

fun BankMsgGetSigners :: "BankMsg \<Rightarrow> addr list" where
  "BankMsgGetSigners (MsgSend from to amt) = [from]"
| "BankMsgGetSigners (MsgMultiSend inputs outputs) = map ioAddress inputs"

definition abciResult :: "abciError option \<Rightarrow> Result" where
  "abciResult err = emptyResult\<lparr>resError := err\<rparr>"

definition handleMsgSend :: "ovf \<Rightarrow> (string \<Rightarrow> string) \<Rightarrow> AccountKeeper \<Rightarrow> addr \<Rightarrow> addr \<Rightarrow> Coins \<Rightarrow> Result prog" where
  "handleMsgSend ov uni ak from to amt = progBind (SendCoins ov uni ak from to amt) (\<lambda>err.
     if err \<noteq> None then Ret (abciResult err) else Ret emptyResult)"

definition handleMsgMultiSend :: "ovf \<Rightarrow> (string \<Rightarrow> string) \<Rightarrow> AccountKeeper \<Rightarrow> InOut list \<Rightarrow> InOut list \<Rightarrow> Result prog" where
  "handleMsgMultiSend ov uni ak inputs outputs = progBind (InputOutputCoins ov uni ak inputs outputs) (\<lambda>err.
     if err \<noteq> None then Ret (abciResult err) else Ret emptyResult)"

fun BankProcess :: "ovf \<Rightarrow> (string \<Rightarrow> string) \<Rightarrow> AccountKeeper \<Rightarrow> BankMsg \<Rightarrow> Result prog" where
  "BankProcess ov uni ak (MsgSend from to amt) = handleMsgSend ov uni ak from to amt"
| "BankProcess ov uni ak (MsgMultiSend inputs outputs) = handleMsgMultiSend ov uni ak inputs outputs"

subsection \<open>Sums and differences of balances\<close>

definition int64Coins :: "Coins \<Rightarrow> bool" where
  "int64Coins cs \<longleftrightarrow> list_all (\<lambda>c. int64 (Amount c)) cs"

lemma IsValid_good: "IsValid uni cs \<Longrightarrow> int64Coins cs \<Longrightarrow> goodCoins cs"
  using IsValid_positive[of uni cs] IsValid_strict[of uni cs]
  by (auto simp: goodCoins_def int64Coins_def list_all_iff int64_def)

lemma goodCoinsD:
  assumes "goodCoins cs"
  shows "strictDenoms cs" "int64s cs" "int64Coins cs"
  using assms by (auto simp: goodCoins_def int64Coins_def list_all_iff int64_def)

lemma negative_good:
  assumes "goodCoins B"
  shows "strictDenoms (negative B)" "int64s (negative B)" "held (negative B) d = - held B d"
proof -
  have "strictDenoms (negative B) \<and> int64s (negative B) \<and> held (negative B) d = - held B d
      \<and> Denom ` set (negative B) = Denom ` set B"
    using assms unfolding negative_def goodCoins_def
    by (induction B) (auto simp: swrap64_id int64_def)
  then show "strictDenoms (negative B)" "int64s (negative B)" "held (negative B) d = - held B d"
    by blast+
qed

lemma sum_good:
  assumes "ovf_spec ov" "strictDenoms A" "int64s A" "strictDenoms B" "int64s B" "AddUnsafe ov A B = Inr C" "IsValid uni C"
  shows "goodCoins C" "\<And>d. held C d = held A d + held B d"
proof -
  have out: "addOutcome ov A B"
    using assms(1-5) by (intro AddUnsafe_outcome)
  then have no: "\<not> overflows A B" and sm: "isSum A B C"
    using assms(6) unfolding addOutcome_def by (auto split: if_splits)
  show held: "\<And>d. held C d = held A d + held B d"
    using sm by (simp add: isSum_def)
  have "int64 (Amount c)" if "c \<in> set C" for c
    using held_member[of C c] that sm held[of "Denom c"] no by (metis isSum_def)
  then show "goodCoins C"
    using IsValid_good[OF assms(7)] by (simp add: int64Coins_def list_all_iff)
qed

subsection \<open>The operations on balances\<close>

lemma GetCoins_steps: "accountsOk ak m \<Longrightarrow> steps (GetCoins ak a) m cs m' \<longleftrightarrow> m' = m \<and> cs = balanceOf ak m a"
  by (auto simp: GetCoins_def GetAccount_steps balanceOf_def split: option.split)

lemma SetCoins_steps:
  assumes "codec_spec ak" "accountsOk ak m" "goodCoins cs" "steps (SetCoins uni ak a cs) m None m'"
  shows "accountsOk ak m'" "balanceOf ak m' = (balanceOf ak m)(a := cs)" "sk \<noteq> akKey ak \<Longrightarrow> map_of m' sk = map_of m sk"
    "\<And>b. b \<noteq> a \<Longrightarrow> accountAt ak m' b = accountAt ak m b"
    "accountAt ak m a = Some acc \<Longrightarrow> accountAt ak m' a = Some (acc\<lparr>AccCoins := cs\<rparr>)"
proof -
  have valid: "IsValid uni cs"
    using assms(4) by (simp add: SetCoins_def split: if_splits)
  obtain acc1 m1 where new: "steps (case accountAt ak m a of None \<Rightarrow> NewAccountWithAddress ak a | Some x \<Rightarrow> Ret x) m acc1 m1"
      "steps (SetAccount ak (SetAccCoins cs acc1)) m1 () m'"
    using assms(4) valid by (auto simp: SetCoins_def GetAccount_steps[OF assms(2)])
  have 1: "accountsOk ak m1" "accountAt ak m1 = accountAt ak m" "Address acc1 = a" "sk \<noteq> akKey ak \<Longrightarrow> map_of m1 sk = map_of m sk" for sk
    using new(1) NewAccount_steps[OF assms(2)] assms(2) accountsOk_addr(1)[OF assms(2)] by (auto split: option.splits)
  let ?acc = "SetAccCoins cs acc1"
  have acc: "goodCoins (AccCoins ?acc)" "Address ?acc = a"
    using assms(3) 1(3) by (simp_all add: SetAccCoins_def)
  note 2 = SetAccount_steps[OF assms(1) 1(1) acc(1) new(2)]
  show "accountsOk ak m'"
    by (rule 2(1))
  show "balanceOf ak m' = (balanceOf ak m)(a := cs)"
    using 2(2) 1(2) acc(2) by (auto simp: balanceOf_def SetAccCoins_def fun_eq_iff)
  show "sk \<noteq> akKey ak \<Longrightarrow> map_of m' sk = map_of m sk"
    using 2(3) 1(4) by simp
  show "\<And>b. b \<noteq> a \<Longrightarrow> accountAt ak m' b = accountAt ak m b"
    using 2(2) 1(2) acc(2) by simp
  show "accountAt ak m a = Some acc \<Longrightarrow> accountAt ak m' a = Some (acc\<lparr>AccCoins := cs\<rparr>)"
    using 2(2) acc(2) new(1) by (simp add: SetAccCoins_def)
qed

text \<open>What a transfer changes besides the balance of its address: nothing but new accounts.\<close>

definition sameButCoins :: "AccountKeeper \<Rightarrow> estore multi \<Rightarrow> estore multi \<Rightarrow> bool" where
  "sameButCoins ak m m' \<longleftrightarrow> (\<forall>sk. sk \<noteq> akKey ak \<longrightarrow> map_of m' sk = map_of m sk) \<and>
     (\<forall>a acc. accountAt ak m a = Some acc \<longrightarrow> (\<exists>cs. accountAt ak m' a = Some (acc\<lparr>AccCoins := cs\<rparr>)))"

lemma sameButCoins_refl: "sameButCoins ak m m"
proof -
  have "acc = acc\<lparr>AccCoins := AccCoins acc\<rparr>" for acc :: BaseAccount
    by simp
  then show ?thesis
    unfolding sameButCoins_def by metis
qed

lemma sameButCoins_trans: "sameButCoins ak m m1 \<Longrightarrow> sameButCoins ak m1 m2 \<Longrightarrow> sameButCoins ak m m2"
  unfolding sameButCoins_def by (metis (no_types, lifting) BaseAccount.surjective BaseAccount.update_convs(2))

lemma SetCoins_same:
  assumes "codec_spec ak" "accountsOk ak m" "goodCoins cs" "steps (SetCoins uni ak a cs) m None m'"
  shows "sameButCoins ak m m'"
proof -
  have "\<exists>cs. accountAt ak m' b = Some (acc\<lparr>AccCoins := cs\<rparr>)" if "accountAt ak m b = Some acc" for b acc
  proof (cases "b = a")
    case True
    then show ?thesis
      using SetCoins_steps(5)[OF assms] that by blast
  next
    case False
    then have "accountAt ak m' b = Some (acc\<lparr>AccCoins := AccCoins acc\<rparr>)"
      using SetCoins_steps(4)[OF assms] that by simp
    then show ?thesis ..
  qed
  then show ?thesis
    using SetCoins_steps(3)[OF assms] by (simp add: sameButCoins_def)
qed

lemma SubtractCoins_steps:
  assumes "ovf_spec ov" "codec_spec ak" "accountsOk ak m" "int64Coins amt"
    "steps (SubtractCoins ov uni ak a amt) m (cs, None) m'"
  shows "accountsOk ak m'" "sameButCoins ak m m'" "\<And>b. b \<noteq> a \<Longrightarrow> balanceOf ak m' b = balanceOf ak m b"
    "\<And>d. held (balanceOf ak m' a) d = held (balanceOf ak m a) d - held amt d" "goodCoins amt"
proof -
  have valid: "IsValid uni amt"
    using assms(5) by (simp add: SubtractCoins_def split: if_splits)
  then show good: "goodCoins amt"
    using assms(4) by (rule IsValid_good)
  have old: "(case accountAt ak m a of None \<Rightarrow> [] | Some x \<Rightarrow> AccCoins x) = balanceOf ak m a"
    by (simp add: balanceOf_def)
  obtain new where new: "SubUnsafe ov (balanceOf ak m a) amt = Inr new" "IsValid uni new" "steps (SetCoins uni ak a new) m None m'"
    using assms(5) valid by (auto simp: SubtractCoins_def GetAccount_steps[OF assms(3)] old Let_def split: if_splits)
  have sum: "goodCoins new" "\<And>d. held new d = held (balanceOf ak m a) d + held (negative amt) d"
    using sum_good[OF assms(1) goodCoinsD(1,2)[OF accountsOk_bal[OF assms(3)]] negative_good(1,2)[OF good] _ new(2)] new(1)
    by (simp_all add: SubUnsafe_def)
  note set = SetCoins_steps[OF assms(2,3) sum(1) new(3)]
  show "accountsOk ak m'" "sameButCoins ak m m'" "\<And>b. b \<noteq> a \<Longrightarrow> balanceOf ak m' b = balanceOf ak m b"
    using set SetCoins_same[OF assms(2,3) sum(1) new(3)] by simp_all
  show "\<And>d. held (balanceOf ak m' a) d = held (balanceOf ak m a) d - held amt d"
    using set(2) sum(2) negative_good(3)[OF good] by simp
qed

lemma AddCoins_steps:
  assumes "ovf_spec ov" "codec_spec ak" "accountsOk ak m" "int64Coins amt"
    "steps (AddCoins ov uni ak a amt) m (cs, None) m'"
  shows "accountsOk ak m'" "sameButCoins ak m m'" "\<And>b. b \<noteq> a \<Longrightarrow> balanceOf ak m' b = balanceOf ak m b"
    "\<And>d. held (balanceOf ak m' a) d = held (balanceOf ak m a) d + held amt d"
proof -
  have valid: "IsValid uni amt"
    using assms(5) by (simp add: AddCoins_def split: if_splits)
  then have good: "goodCoins amt"
    using assms(4) by (rule IsValid_good)
  obtain new where new: "AddUnsafe ov (balanceOf ak m a) amt = Inr new" "IsValid uni new" "steps (SetCoins uni ak a new) m None m'"
    using assms(5) valid by (auto simp: AddCoins_def GetCoins_steps[OF assms(3)] Add_def bindR_eq_Inr split: if_splits)
  have sum: "goodCoins new" "\<And>d. held new d = held (balanceOf ak m a) d + held amt d"
    using sum_good[OF assms(1) goodCoinsD(1,2)[OF accountsOk_bal[OF assms(3)]] goodCoinsD(1,2)[OF good] new(1,2)] by simp_all
  note set = SetCoins_steps[OF assms(2,3) sum(1) new(3)]
  show "accountsOk ak m'" "sameButCoins ak m m'" "\<And>b. b \<noteq> a \<Longrightarrow> balanceOf ak m' b = balanceOf ak m b"
      "\<And>d. held (balanceOf ak m' a) d = held (balanceOf ak m a) d + held amt d"
    using set sum(2) SetCoins_same[OF assms(2,3) sum(1) new(3)] by simp_all
qed

lemma SendCoins_steps:
  assumes "ovf_spec ov" "codec_spec ak" "accountsOk ak m" "int64Coins amt"
    "steps (SendCoins ov uni ak from to amt) m None m'"
  shows "accountsOk ak m'" "sameButCoins ak m m'"
    "\<And>a d. held (balanceOf ak m' a) d = held (balanceOf ak m a) d
       - (if a = from then held amt d else 0) + (if a = to then held amt d else 0)"
proof -
  obtain cs cs' m1 where run: "steps (SubtractCoins ov uni ak from amt) m (cs, None) m1"
      "steps (AddCoins ov uni ak to amt) m1 (cs', None) m'"
    using assms(5) by (auto simp: SendCoins_def split: if_splits)
  note sub = SubtractCoins_steps[OF assms(1-4) run(1)]
  note add = AddCoins_steps[OF assms(1,2) sub(1) assms(4) run(2)]
  show "accountsOk ak m'" "sameButCoins ak m m'"
    using add(1,2) sub(2) sameButCoins_trans by blast+
  show "held (balanceOf ak m' a) d = held (balanceOf ak m a) d
       - (if a = from then held amt d else 0) + (if a = to then held amt d else 0)" for a d
    using sub(3,4) add(3,4) by (cases "a = from"; cases "a = to") auto
qed

end
