(* ===== verification/Plain_Codec.thy ===== *)
theory Plain_Codec
  imports Bank
begin

text \<open>
  A concrete encoding of accounts that satisfies \<open>codec_spec\<close>, for evaluating the keepers on examples:
  numbers are written in base 255 with 255 as the end mark, an account as a list of numbers.
\<close>

fun encNat :: "nat \<Rightarrow> bytes" where
  "encNat n = (if n < 255 then [of_nat n, 255] else of_nat (n mod 255) # encNat (n div 255))"
declare encNat.simps [simp del]

fun decNats :: "nat list \<Rightarrow> bytes \<Rightarrow> nat list" where
  "decNats ds [] = []"
| "decNats ds (b # rest) = (if b = 255 then foldr (\<lambda>d n. d + 255 * n) ds 0 # decNats [] rest
     else decNats (ds @ [unat b]) rest)"

lemma decNats_digits:
  "decNats ds (encNat n @ rest) = foldr (\<lambda>d n. d + 255 * n) ds n # decNats [] rest"
proof (induction n arbitrary: ds rule: encNat.induct)
  case (1 n)
  have small: "(of_nat k :: 8 word) \<noteq> 255" "unat (of_nat k :: 8 word) = k" if "k < 255" for k
    using that by (simp_all add: unat_of_nat word_unat_eq_iff)
  show ?case
  proof (cases "n < 255")
    case True
    then show ?thesis
      using small[of n] by (simp add: encNat.simps[of n])
  next
    case False
    have "foldr (\<lambda>d n. d + 255 * n) (ds @ [n mod 255]) (n div 255) = foldr (\<lambda>d n. d + 255 * n) ds n"
      by simp
    then show ?thesis
      using False 1[OF False, of "ds @ [n mod 255]"] small[of "n mod 255"] by (simp add: encNat.simps[of n])
  qed
qed

definition encNats :: "nat list \<Rightarrow> bytes" where
  "encNats ns = concat (map encNat ns)"

lemma decNats_encNats: "decNats [] (encNats ns) = ns"
  by (induction ns) (simp_all add: encNats_def decNats_digits)

subsection \<open>Accounts as lists of numbers\<close>

fun keyDepth :: "PubKey \<Rightarrow> nat" where
  "keyDepth (PubKeyMultisigThreshold k pks) = Suc (foldr max (map keyDepth pks) 0)"
| "keyDepth _ = 1"

fun keyNats :: "PubKey \<Rightarrow> nat list" where
  "keyNats (PubKeyEd25519 b) = 0 # length b # map unat b"
| "keyNats (PubKeySecp256k1 b) = 1 # length b # map unat b"
| "keyNats (PubKeyOther b) = 2 # length b # map unat b"
| "keyNats (PubKeyMultisigThreshold k pks) = 3 # k # length pks # concat (map keyNats pks)"

fun natsKey :: "nat \<Rightarrow> nat list \<Rightarrow> (PubKey \<times> nat list) option"
  and natsKeys :: "nat \<Rightarrow> nat \<Rightarrow> nat list \<Rightarrow> (PubKey list \<times> nat list) option" where
  "natsKey 0 xs = None"
| "natsKey (Suc f) (t # l # xs) =
     (if t = 3 then (case xs of [] \<Rightarrow> None
        | n # ys \<Rightarrow> (case natsKeys f n ys of None \<Rightarrow> None | Some (pks, r) \<Rightarrow> Some (PubKeyMultisigThreshold l pks, r)))
      else let b = map of_nat (take l xs)
        in Some (if t = 0 then PubKeyEd25519 b else if t = 1 then PubKeySecp256k1 b else PubKeyOther b, drop l xs))"
| "natsKey (Suc f) _ = None"
| "natsKeys f 0 xs = Some ([], xs)"
| "natsKeys f (Suc n) xs = (case natsKey f xs of None \<Rightarrow> None
     | Some (pk, r) \<Rightarrow> (case natsKeys f n r of None \<Rightarrow> None | Some (pks, r') \<Rightarrow> Some (pk # pks, r')))"

lemma natsKeys_keyNats:
  assumes "\<And>pk r. pk \<in> set pks \<Longrightarrow> natsKey f (keyNats pk @ r) = Some (pk, r)"
  shows "natsKeys f (length pks) (concat (map keyNats pks) @ r) = Some (pks, r)"
  using assms by (induction pks) simp_all

lemma foldr_max_le: "foldr max ns (0::nat) \<le> f \<longleftrightarrow> (\<forall>n\<in>set ns. n \<le> f)"
  by (induction ns) auto

lemma natsKey_keyNats: "keyDepth pk \<le> f \<Longrightarrow> natsKey f (keyNats pk @ r) = Some (pk, r)"
proof (induction f arbitrary: pk r)
  case 0
  then show ?case
    by (cases pk) simp_all
next
  case (Suc f)
  show ?case
  proof (cases pk)
    case (PubKeyMultisigThreshold k pks)
    then have "natsKey f (keyNats q @ r') = Some (q, r')" if "q \<in> set pks" for q r'
      using Suc.IH[of q r'] Suc.prems that by (simp add: foldr_max_le)
    then show ?thesis
      using PubKeyMultisigThreshold natsKeys_keyNats[of pks f r] by simp
  qed (simp_all add: comp_def)
qed

definition keyOptNats :: "PubKey option \<Rightarrow> nat list" where
  "keyOptNats k = (case k of None \<Rightarrow> [0] | Some pk \<Rightarrow> keyDepth pk # keyNats pk)"

fun natsKeyOpt :: "nat list \<Rightarrow> (PubKey option \<times> nat list) option" where
  "natsKeyOpt (0 # xs) = Some (None, xs)"
| "natsKeyOpt (Suc f # xs) = (case natsKey (Suc f) xs of None \<Rightarrow> None | Some (pk, r) \<Rightarrow> Some (Some pk, r))"
| "natsKeyOpt [] = None"

lemma natsKeyOpt_keyOptNats: "natsKeyOpt (keyOptNats k @ r) = Some (k, r)"
proof (cases k)
  case (Some pk)
  obtain f where f: "keyDepth pk = Suc f"
    by (cases pk) simp_all
  then show ?thesis
    using natsKey_keyNats[of pk "Suc f" r] Some by (simp add: keyOptNats_def)
qed (simp add: keyOptNats_def)

definition coinNats :: "Coin \<Rightarrow> nat list" where
  "coinNats c = nat (Amount c) # length (Denom c) # map of_char (Denom c)"

fun natCoins :: "nat list \<Rightarrow> Coins" where
  "natCoins (a # n # xs) = \<lparr>Denom = map char_of (take n xs), Amount = int a\<rparr> # natCoins (drop n xs)"
| "natCoins _ = []"

lemma natCoins_coinNats:
  "list_all (\<lambda>c. 0 < Amount c) cs \<Longrightarrow> natCoins (concat (map coinNats cs)) = cs"
  by (induction cs) (simp_all add: coinNats_def comp_def)

definition accountNats :: "BaseAccount \<Rightarrow> nat list" where
  "accountNats acc = unat (AccountNumber acc) # unat (Sequence acc)
     # length (Address acc) # map unat (Address acc) @ keyOptNats (AccPubKey acc) @ concat (map coinNats (AccCoins acc))"

fun natsAccount :: "nat list \<Rightarrow> BaseAccount option" where
  "natsAccount (n # s # l # xs) = (case natsKeyOpt (drop l xs) of None \<Rightarrow> None
     | Some (k, r) \<Rightarrow> Some \<lparr>Address = map of_nat (take l xs), AccCoins = natCoins r,
         AccPubKey = k, AccountNumber = of_nat n, Sequence = of_nat s\<rparr>)"
| "natsAccount _ = None"

lemma natsAccount_accountNats: "goodCoins (AccCoins acc) \<Longrightarrow> natsAccount (accountNats acc) = Some acc"
proof -
  assume "goodCoins (AccCoins acc)"
  then have "list_all (\<lambda>c. 0 < Amount c) (AccCoins acc)"
    by (auto simp: goodCoins_def list_all_iff)
  then show ?thesis
    by (simp add: accountNats_def natsKeyOpt_keyOptNats natCoins_coinNats comp_def)
qed

definition plainKeeper :: AccountKeeper where
  "plainKeeper = \<lparr>akKey = ''acc'', encAccount = (\<lambda>acc. encNats (accountNats acc)),
     decAccount = (\<lambda>bz. natsAccount (decNats [] bz)), encNumber = (\<lambda>n. encNat (unat n)),
     decNumber = (\<lambda>bz. case decNats [] bz of n # _ \<Rightarrow> Some (of_nat n) | [] \<Rightarrow> None)\<rparr>"

lemma plainKeeper_spec: "codec_spec plainKeeper"
  using decNats_digits[of "[]" _ "[]"]
  by (simp add: codec_spec_def plainKeeper_def decNats_encNats natsAccount_accountNats)

subsection \<open>Evaluating programs on a meter with room\<close>

abbreviation infCtx :: "estore multi \<Rightarrow> int \<Rightarrow> estore Context" where
  "infCtx m g \<equiv> \<lparr>ms = m, ctxMeter = Infinite g, newMeter = None\<rparr>"

text \<open>A meter that has room for an amount, small enough that no sum wraps around.\<close>

definition hasRoom :: "GasMeter \<Rightarrow> int \<Rightarrow> bool" where
  "hasRoom m n \<longleftrightarrow> meterOk m \<and> 0 \<le> n \<and> n < 2 ^ 60 \<and> roomFor m n"

lemma room_consume: "hasRoom m n \<Longrightarrow> ConsumeGas goOvf n d m = (Inr (), spend m n)"
  using ConsumeGas_room[OF goOvf_spec, of m n d] by (simp add: hasRoom_def int64_def)

lemma room_charge2:
  assumes "hasRoom m (a + b)" "0 \<le> a" "0 \<le> b"
  shows "charge goOvf a d \<lparr>gasMeter = m, gparent = s\<rparr> = (Inr (), \<lparr>gasMeter = spend m a, gparent = s\<rparr>)"
    "charge goOvf b d' \<lparr>gasMeter = spend m a, gparent = s'\<rparr> = (Inr (), \<lparr>gasMeter = spend m (a + b), gparent = s'\<rparr>)"
proof -
  have m: "meterOk m" "roomFor m a" "roomFor (spend m a) b"
    using assms roomFor_split[of m a b] by (auto simp: hasRoom_def)
  have "hasRoom m a" "hasRoom (spend m a) b" "spend (spend m a) b = spend m (a + b)"
    using assms m spend_ok[OF m(1) assms(2) m(2)] by (auto simp: hasRoom_def)
  then show "charge goOvf a d \<lparr>gasMeter = m, gparent = s\<rparr> = (Inr (), \<lparr>gasMeter = spend m a, gparent = s\<rparr>)"
      "charge goOvf b d' \<lparr>gasMeter = spend m a, gparent = s'\<rparr> = (Inr (), \<lparr>gasMeter = spend m (a + b), gparent = s'\<rparr>)"
    by (simp_all add: charge_def room_consume)
qed

lemma room_get:
  assumes "map_of (ms ctx) sk = Some es" "curMeter ctx = m" "hasRoom m (1000 + 3 * int (length (bytesOf (map_of es k))))"
  shows "runProg goOvf absOps (progBind (storeGet sk k) f) ctx
    = runProg goOvf absOps (f (map_of es k)) (setCurMeter (spend m (1000 + 3 * int (length (bytesOf (map_of es k))))) ctx)"
proof -
  let ?n = "int (length (bytesOf (map_of es k)))"
  have n: "swrap 64 (3 * ?n) = 3 * ?n"
    using assms(3) by (intro swrap64_id) (auto simp: hasRoom_def)
  have "ctxCall goOvf absOps sk (CallGet k) ctx = (Inr (Value (map_of es k)), setCurMeter (spend m (1000 + 3 * ?n)) ctx)"
    using assms(1,2) n by (simp add: room_charge2[OF assms(3)] bindA_def ctxCall_def call_def gasOps_simps gasGet_def DefaultGasConfig_def gasLen_def)
  then show ?thesis
    by (simp add: storeGet_def)
qed

lemma room_set:
  assumes "map_of (ms ctx) sk = Some es" "curMeter ctx = m" "hasRoom m (2000 + 30 * int (length v))"
  shows "runProg goOvf absOps (progBind (storeSet sk k v) f) ctx
    = runProg goOvf absOps (f ()) (setCurMeter (spend m (2000 + 30 * int (length v))) (ctx\<lparr>ms := setStore sk (kput k v es) (ms ctx)\<rparr>))"
proof -
  let ?n = "int (length v)"
  have n: "swrap 64 (30 * ?n) = 30 * ?n"
    using assms(3) by (intro swrap64_id) (auto simp: hasRoom_def)
  have "ctxCall goOvf absOps sk (CallSet k v) ctx
      = (Inr Done, setCurMeter (spend m (2000 + 30 * ?n)) (ctx\<lparr>ms := setStore sk (kput k v es) (ms ctx)\<rparr>))"
    using assms(1,2) n by (simp add: room_charge2[OF assms(3)] bindA_def ctxCall_def call_def gasOps_simps gasSet_def AssertValidValue_def
        DefaultGasConfig_def gasLen_def bytesOf_def)
  then show ?thesis
    by (simp add: storeSet_def)
qed

lemma room_consumed:
  assumes "curMeter ctx = m" "hasRoom m n"
  shows "bindA (ctxConsume goOvf n d) f ctx = f () (setCurMeter (spend m n) ctx)"
proof -
  have "ctxConsume goOvf n d ctx = (Inr (), setCurMeter (spend m n) ctx)"
    using assms room_consume[of m n d] by (simp add: ctxConsume_def)
  then show ?thesis
    by (simp add: bindA_def)
qed

lemma progBind_assoc: "progBind (progBind p f) g = progBind p (\<lambda>x. progBind (f x) g)"
  by (induction p) simp_all

lemma liftP_simps: "liftP (Inr x) = Ret x" "liftP (Inl e) = Throw e"
  by (simp_all add: liftP_def)

lemma char_a: "char_of (97::nat) = CHR ''a''"
  by (simp add: char_of_def bit_0)

lemma plainKeeper_simps:
  "akKey plainKeeper = ''acc''"
  "encAccount plainKeeper \<lparr>Address = a, AccCoins = cs, AccPubKey = k, AccountNumber = n, Sequence = q\<rparr>
     = encNat (unat n) @ encNat (unat q) @ encNat (length a) @ encNats (map unat a) @ encNats (keyOptNats k) @ encNats (concat (map coinNats cs))"
  "encNumber plainKeeper n = encNat (unat n)"
  "decAccount plainKeeper (b # bz) = natsAccount (decNats [] (b # bz))"
  "decNumber plainKeeper (b # bz) = (case decNats [] (b # bz) of n # _ \<Rightarrow> Some (of_nat n) | [] \<Rightarrow> None)"
  by (simp_all add: plainKeeper_def encNats_def accountNats_def)

lemma goOvf_add: "Add64 goOvf a b = (swrap 64 (a + b), int64 (a + b))"
  by (simp add: goOvf_def)

lemmas plain_eval = plainKeeper_simps encNats_def coinNats_def keyOptNats_def encNat.simps room_get room_set room_consumed hasRoom_def curMeter_def setCurMeter_def bytesOf_def decodeAccount_def
  isLower_def isDigit_def less_eq_char_def validateDenom_def CoinIsPositive_def CoinIsZero_def negative_def swrap64_id
  CoinAddUnsafe_def goOvf_add int64_def map_of_kput map_of_setStore progBind_assoc liftP_simps char_a removeZeroCoins_filter

lemma short_nonzero: "[x] \<noteq> zeroAddress"
  by (simp add: zeroAddress_def numeral_eq_Suc)

lemmas bank_eval = SendCoins_def SubtractCoins_def AddCoins_def GetCoins_def SetCoins_def GetAccount_def SetAccount_def SetAccCoins_def
  SubUnsafe_def Add_def NewAccountWithAddress_def GetNextAccountNumber_def SetAddress_def ProtoBaseAccount_def AddressIsZero_def
  SetAccountNumber_def short_nonzero

end
