(* ===== verification/Bank_Correct.thy ===== *)
theory Bank_Correct
  imports Bank Plain_Codec
begin

text \<open>
  Transfers on the application's stores: a message runs on a cache-wrap of the deliver state, which is
  a cache-wrap of the IAVL store.
\<close>

subsection \<open>Bounds on calls\<close>

lemma callBound_mono: "callBound p i \<Longrightarrow> i \<le> j \<Longrightarrow> callBound p j"
proof (induction p arbitrary: i j)
  case (Call sk c k)
  then obtain i' where "i = Suc i'" "\<And>a. callBound (k a) i'"
    by auto
  then show ?case
    using Call.IH[OF rangeI] Call.prems(2) by (cases j) auto
next
  case (MeterConsumed k)
  show ?case
    using MeterConsumed.prems MeterConsumed.IH[OF rangeI, of _ i j] by simp
qed auto

lemma callBound_bind: "callBound p i \<Longrightarrow> (\<And>x. callBound (f x) j) \<Longrightarrow> callBound (progBind p f) (i + j)"
proof (induction p arbitrary: i)
  case (Ret x)
  then show ?case
    using callBound_mono[of "f x" j "i + j"] by simp
next
  case (Call sk c k)
  then obtain i' where "i = Suc i'" "\<And>a. callBound (k a) i'"
    by auto
  then show ?case
    using Call.IH[OF rangeI _ Call.prems(2)] by simp
qed auto

lemma callBound_bind0: "callBound p n \<Longrightarrow> (\<And>x. callBound (f x) 0) \<Longrightarrow> callBound (progBind p f) n"
  using callBound_bind[of p n f 0] by simp

lemma callBound_store [simp]:
  "callBound (storeGet sk k) (Suc n)" "callBound (storeSet sk k v) (Suc n)" "callBound (liftP r) n"
  by (auto simp: storeGet_def storeSet_def liftP_def split: kvAnswer.split sum.split)

lemma GetAccount_bound: "callBound (GetAccount ak a) 1"
proof -
  have "callBound (GetAccount ak a) (1 + 0)"
    unfolding GetAccount_def by (intro callBound_bind) (auto simp: decodeAccount_def split: option.split)
  then show ?thesis
    by simp
qed

lemma NewAccount_bound: "callBound (NewAccountWithAddress ak a) 2"
proof -
  have "callBound (GetNextAccountNumber ak) (1 + (0 + (1 + 0)))"
    unfolding GetNextAccountNumber_def
    by (intro callBound_bind) (auto split: option.split)
  then have "callBound (progBind (GetNextAccountNumber ak) (\<lambda>n. Ret (SetAccountNumber n acc))) (2 + 0)" for acc
    by (intro callBound_bind) (simp_all add: numeral_2_eq_2)
  then show ?thesis
    by (auto simp: NewAccountWithAddress_def split: sum.split)
qed

lemma SetCoins_bound: "callBound (SetCoins uni ak a cs) 4"
proof -
  have "callBound (case acc of None \<Rightarrow> NewAccountWithAddress ak a | Some x \<Rightarrow> Ret x) 2" for acc
    using NewAccount_bound by (auto split: option.split)
  then have "callBound (progBind (GetAccount ak a) (\<lambda>acc.
        progBind (case acc of None \<Rightarrow> NewAccountWithAddress ak a | Some x \<Rightarrow> Ret x) (\<lambda>acc.
        progBind (SetAccount ak (SetAccCoins cs acc)) (\<lambda>u. Ret (None :: abciError option))))) (1 + (2 + (1 + 0)))"
    by (intro callBound_bind GetAccount_bound) (simp_all add: SetAccount_def)
  then show ?thesis
    by (simp add: SetCoins_def)
qed

lemma SubtractCoins_bound: "callBound (SubtractCoins ov uni ak a amt) 5"
proof -
  have "callBound (progBind (SetCoins uni ak a cs) (\<lambda>err. Ret (cs, err))) (4 + 0)" for cs
    by (intro callBound_bind SetCoins_bound) simp
  then have "callBound (progBind (GetAccount ak a) (\<lambda>acc.
        let oldCoins = (case acc of None \<Rightarrow> [] | Some x \<Rightarrow> AccCoins x)
        in progBind (liftP (SubUnsafe ov oldCoins amt)) (\<lambda>newCoins.
          if \<not> IsValid uni newCoins then Ret ([], Some InsufficientCoinsError)
          else progBind (SetCoins uni ak a newCoins) (\<lambda>err. Ret (newCoins, err))))) (1 + (0 + 4))"
    unfolding Let_def by (intro callBound_bind GetAccount_bound) auto
  then show ?thesis
    by (simp add: SubtractCoins_def)
qed

lemma AddCoins_bound: "callBound (AddCoins ov uni ak a amt) 5"
proof -
  have "callBound (progBind (SetCoins uni ak a cs) (\<lambda>err. Ret (cs, err))) (4 + 0)" for cs
    by (intro callBound_bind SetCoins_bound) simp
  moreover have "callBound (GetCoins ak a) (1 + 0)"
    unfolding GetCoins_def by (intro callBound_bind GetAccount_bound) simp
  ultimately have "callBound (progBind (GetCoins ak a) (\<lambda>oldCoins.
        progBind (liftP (Add ov uni oldCoins amt)) (\<lambda>newCoins.
          if \<not> IsValid uni newCoins then Ret (amt, Some InsufficientCoinsError)
          else progBind (SetCoins uni ak a newCoins) (\<lambda>err. Ret (newCoins, err))))) (1 + (0 + 4))"
    by (intro callBound_bind) auto
  then show ?thesis
    by (simp add: AddCoins_def)
qed

lemma SendCoins_bound: "callBound (SendCoins ov uni ak from to amt) 10"
proof -
  have add: "callBound (progBind (AddCoins ov uni ak to amt) (\<lambda>(cs, err). if err \<noteq> None then Ret err else Ret None)) (5 + 0)"
    by (intro callBound_bind AddCoins_bound) auto
  have "callBound (SendCoins ov uni ak from to amt) (5 + 5)"
    unfolding SendCoins_def by (intro callBound_bind SubtractCoins_bound) (use add in auto)
  then show ?thesis
    by simp
qed

lemma subtractAll_bound: "callBound (subtractAll ov uni ak ios) (5 * length ios)"
  by (induction ios) (auto intro!: callBound_bind SubtractCoins_bound split: prod.split)

lemma addAll_bound: "callBound (addAll ov uni ak ios) (5 * length ios)"
  by (induction ios) (auto intro!: callBound_bind AddCoins_bound split: prod.split)

lemma InputOutputCoins_bound: "callBound (InputOutputCoins ov uni ak ins outs) (5 * length ins + 5 * length outs)"
proof -
  have "callBound (progBind (subtractAll ov uni ak ins) (\<lambda>err. if err \<noteq> None then Ret err else addAll ov uni ak outs))
      (5 * length ins + 5 * length outs)"
    by (intro callBound_bind subtractAll_bound) (simp add: addAll_bound)
  then have "callBound (InputOutputCoins ov uni ak ins outs) (0 + (5 * length ins + 5 * length outs))"
    unfolding InputOutputCoins_def by (intro callBound_bind) auto
  then show ?thesis
    by simp
qed

subsection \<open>Many inputs and outputs\<close>

text \<open>What a list of inputs or outputs gives to an address, and in all.\<close>

definition ioHeld :: "InOut list \<Rightarrow> addr \<Rightarrow> string \<Rightarrow> int" where
  "ioHeld ios a d = (\<Sum>io\<leftarrow>ios. if ioAddress io = a then held (ioCoins io) d else 0)"

definition ioTotal :: "InOut list \<Rightarrow> string \<Rightarrow> int" where
  "ioTotal ios d = (\<Sum>io\<leftarrow>ios. held (ioCoins io) d)"

lemma subtractAll_steps:
  "ovf_spec ov \<Longrightarrow> codec_spec ak \<Longrightarrow> accountsOk ak m \<Longrightarrow> list_all (\<lambda>io. int64Coins (ioCoins io)) ios \<Longrightarrow>
    steps (subtractAll ov uni ak ios) m None m' \<Longrightarrow>
    accountsOk ak m' \<and> sameButCoins ak m m' \<and>
    (\<forall>a d. held (balanceOf ak m' a) d = held (balanceOf ak m a) d - ioHeld ios a d)"
proof (induction ios arbitrary: m)
  case (Cons io ios)
  obtain cs m1 where run: "steps (SubtractCoins ov uni ak (ioAddress io) (ioCoins io)) m (cs, None) m1"
      "steps (subtractAll ov uni ak ios) m1 None m'"
    using Cons.prems(5) by (auto split: if_splits)
  note one = SubtractCoins_steps[OF Cons.prems(1-3) _ run(1)]
  have "held (balanceOf ak m1 a) d = held (balanceOf ak m a) d - ioHeld [io] a d" for a d
    using one(3,4) Cons.prems(4) by (cases "a = ioAddress io") (auto simp: ioHeld_def)
  then show ?case
    using Cons.IH[OF Cons.prems(1,2) _ _ run(2)] one(1,2) Cons.prems(4) sameButCoins_trans
    by (auto simp: ioHeld_def)
qed (simp add: sameButCoins_refl ioHeld_def)

lemma addAll_steps:
  "ovf_spec ov \<Longrightarrow> codec_spec ak \<Longrightarrow> accountsOk ak m \<Longrightarrow> list_all (\<lambda>io. int64Coins (ioCoins io)) ios \<Longrightarrow>
    steps (addAll ov uni ak ios) m None m' \<Longrightarrow>
    accountsOk ak m' \<and> sameButCoins ak m m' \<and>
    (\<forall>a d. held (balanceOf ak m' a) d = held (balanceOf ak m a) d + ioHeld ios a d)"
proof (induction ios arbitrary: m)
  case (Cons io ios)
  obtain cs m1 where run: "steps (AddCoins ov uni ak (ioAddress io) (ioCoins io)) m (cs, None) m1"
      "steps (addAll ov uni ak ios) m1 None m'"
    using Cons.prems(5) by (auto split: if_splits)
  note one = AddCoins_steps[OF Cons.prems(1-3) _ run(1)]
  have "held (balanceOf ak m1 a) d = held (balanceOf ak m a) d + ioHeld [io] a d" for a d
    using one(3,4) Cons.prems(4) by (cases "a = ioAddress io") (auto simp: ioHeld_def)
  then show ?case
    using Cons.IH[OF Cons.prems(1,2) _ _ run(2)] one(1,2) Cons.prems(4) sameButCoins_trans
    by (auto simp: ioHeld_def)
qed (simp add: sameButCoins_refl ioHeld_def)

lemma sumCoins_total:
  "ovf_spec ov \<Longrightarrow> goodCoins acc \<Longrightarrow> list_all (\<lambda>io. int64Coins (ioCoins io)) ios \<Longrightarrow>
    sumCoins ov uni acc ios = Inr (Inr cs) \<Longrightarrow> held cs d = held acc d + ioTotal ios d"
proof (induction ios arbitrary: acc)
  case (Cons io ios)
  obtain acc1 where acc1: "ioValidateBasic uni io = None" "Add ov uni acc (ioCoins io) = Inr acc1"
      "sumCoins ov uni acc1 ios = Inr (Inr cs)"
    using Cons.prems(4) by (auto simp: bindR_eq_Inr split: option.splits)
  have good: "goodCoins (ioCoins io)"
    using acc1(1) Cons.prems(3) IsValid_good by (auto simp: ioValidateBasic_def split: if_splits)
  have add: "AddUnsafe ov acc (ioCoins io) = Inr acc1" "IsValid uni acc1"
    using acc1(2) by (auto simp: Add_def bindR_eq_Inr split: if_splits)
  note sm = sum_good[OF Cons.prems(1) goodCoinsD(1,2)[OF Cons.prems(2)] goodCoinsD(1,2)[OF good] add]
  show ?case
    using Cons.IH[OF Cons.prems(1) sm(1) _ acc1(3)] Cons.prems(3) sm(2)[of d] by (simp add: ioTotal_def)
qed (simp add: ioTotal_def)

lemma equalLoop_eq: "equalLoop A B = Inr True \<Longrightarrow> length A = length B \<Longrightarrow> A = B"
  by (induction A B rule: equalLoop.induct)
    (auto simp: CoinIsEqual_def bindR_eq_Inr split: if_splits)

lemma held_Sort: "held (Sort cs) d = held cs d"
proof -
  let ?f = "\<lambda>c. if Denom c = d then Amount c else 0"
  have "mset (map ?f (Sort cs)) = mset (map ?f cs)"
    by (simp add: Sort_def)
  then have "sum_mset (mset (map ?f (Sort cs))) = sum_mset (mset (map ?f cs))"
    by (simp only:)
  then have "sum_list (map ?f (Sort cs)) = sum_list (map ?f cs)"
    by (simp only: sum_mset_sum_list)
  then show ?thesis
    by (simp add: held_def)
qed

lemma CoinsIsEqual_held: "CoinsIsEqual A B = Inr True \<Longrightarrow> held A d = held B d"
  using equalLoop_eq[of "Sort A" "Sort B"] held_Sort[of A d] held_Sort[of B d]
  by (auto simp: CoinsIsEqual_def Sort_def split: if_splits)

lemma InputOutputCoins_steps:
  assumes "ovf_spec ov" "codec_spec ak" "accountsOk ak m" "list_all (\<lambda>io. int64Coins (ioCoins io)) (ins @ outs)"
    "steps (InputOutputCoins ov uni ak ins outs) m None m'"
  shows "accountsOk ak m'" "sameButCoins ak m m'"
    "held (balanceOf ak m' a) d = held (balanceOf ak m a) d - ioHeld ins a d + ioHeld outs a d"
    "ioTotal ins d = ioTotal outs d"
proof -
  obtain m1 where run: "ValidateInputsOutputs ov uni ins outs = Inr None" "steps (subtractAll ov uni ak ins) m None m1"
      "steps (addAll ov uni ak outs) m1 None m'"
    using assms(5) by (auto simp: InputOutputCoins_def split: if_splits)
  have sub: "accountsOk ak m1 \<and> sameButCoins ak m m1 \<and>
      (\<forall>a d. held (balanceOf ak m1 a) d = held (balanceOf ak m a) d - ioHeld ins a d)"
    using subtractAll_steps[OF assms(1-3) _ run(2)] assms(4) by simp
  have add: "accountsOk ak m' \<and> sameButCoins ak m1 m' \<and>
      (\<forall>a d. held (balanceOf ak m' a) d = held (balanceOf ak m1 a) d + ioHeld outs a d)"
    using addAll_steps[OF assms(1,2) _ _ run(3)] assms(4) sub by simp
  show "accountsOk ak m'" "sameButCoins ak m m'"
      "held (balanceOf ak m' a) d = held (balanceOf ak m a) d - ioHeld ins a d + ioHeld outs a d"
    using sub add sameButCoins_trans by auto
  obtain ti to where tot: "sumCoins ov uni [] ins = Inr (Inr ti)" "sumCoins ov uni [] outs = Inr (Inr to)"
      "CoinsIsEqual ti to = Inr True"
    using run(1) by (auto simp: ValidateInputsOutputs_def elim!: bindR_elim split: sum.splits if_splits)
  have "goodCoins []"
    by (simp add: goodCoins_def)
  then show "ioTotal ins d = ioTotal outs d"
    using sumCoins_total[OF assms(1) _ _ tot(1), of d] sumCoins_total[OF assms(1) _ _ tot(2), of d]
      CoinsIsEqual_held[OF tot(3), of d] assms(4) by simp
qed

subsection \<open>On the application's stores\<close>

abbreviation msgOps :: "MutableTree cacheStore cacheStore kvOps" where
  "msgOps \<equiv> cacheOps (cacheOps iavlOps)"

definition msgOk :: "nat \<Rightarrow> MutableTree cacheStore cacheStore Context \<Rightarrow> bool" where
  "msgOk n ctx \<longleftrightarrow> ctxOk (cacheInv (cacheAbs entries) (cacheInv entries iavlInv)) n ctx"

definition entriesOf :: "MutableTree cacheStore cacheStore Context \<Rightarrow> estore multi" where
  "entriesOf ctx = ms (absContext (cacheAbs (cacheAbs entries)) ctx)"

lemma msg_run:
  assumes "callBound p k" "msgOk (n + k) ctx" "runProg ov msgOps p ctx = (r, ctx')"
  shows "runProg ov absOps p (absContext (cacheAbs (cacheAbs entries)) ctx) = (r, absContext (cacheAbs (cacheAbs entries)) ctx')"
    "msgOk n ctx'"
  using kv_store.runProg_sim[OF nested.kv_store_axioms assms(1) _ assms(3)] assms(2) by (auto simp: msgOk_def)

lemma msg_steps:
  assumes "callBound p k" "msgOk (n + k) ctx" "runProg ov msgOps p ctx = (Inr y, ctx')"
  shows "steps p (entriesOf ctx) y (entriesOf ctx')"
  using runProg_steps[OF msg_run(1)[OF assms]] by (simp add: entriesOf_def)

lemma SendCoins_overdraft:
  assumes "ovf_spec ov" "accountsOk ak m" "int64Coins amt" "IsValid uni amt" "held (balanceOf ak m from) d < held amt d"
    "steps (SendCoins ov uni ak from to amt) m r m'"
  shows "r = Some InsufficientCoinsError \<and> m' = m"
proof -
  have good: "goodCoins amt"
    using assms(3,4) by (rule IsValid_good[rotated])
  have old: "(case accountAt ak m from of None \<Rightarrow> [] | Some x \<Rightarrow> AccCoins x) = balanceOf ak m from"
    by (simp add: balanceOf_def)
  have bad: "\<not> IsValid uni new" if new: "SubUnsafe ov (balanceOf ak m from) amt = Inr new" for new
  proof
    assume valid: "IsValid uni new"
    have "held new d = held (balanceOf ak m from) d - held amt d"
      using sum_good(2)[OF assms(1) goodCoinsD(1,2)[OF accountsOk_bal[OF assms(2)]] negative_good(1,2)[OF good] _ valid] new
        negative_good(3)[OF good, of d] by (simp add: SubUnsafe_def)
    then have "held new d < 0"
      using assms(5) by simp
    then obtain c where "c \<in> set new" "Amount c = held new d"
      using held_cases[OF IsValid_strict[OF valid], of d] by auto
    then show False
      using IsValid_positive[OF valid] \<open>held new d < 0\<close> by fastforce
  qed
  have "y = ([], Some InsufficientCoinsError) \<and> m1 = m" if "steps (SubtractCoins ov uni ak from amt) m y m1" for y m1
    using that assms(4) bad by (auto simp: SubtractCoins_def GetAccount_steps[OF assms(2)] old Let_def)
  then show ?thesis
    using assms(6) by (fastforce simp: SendCoins_def split: if_splits)
qed

text \<open>An example: one account with five coins.\<close>

definition payer :: BaseAccount where
  "payer = \<lparr>Address = [1], AccCoins = [\<lparr>Denom = ''aaa'', Amount = 5\<rparr>], AccPubKey = None, AccountNumber = 0, Sequence = 0\<rparr>"

definition payerEntries :: estore where
  "payerEntries = [(AddressStoreKey [1], encAccount plainKeeper payer)]"

lemma payer_tree: "\<exists>t. iavlInv n t \<and> entries t = payerEntries" if "n < 2 ^ 60"
proof -
  let ?k = "AddressStoreKey [1]" and ?v = "encAccount plainKeeper payer"
  have empty: "iavlInv (Suc n) NewMutableTree" "entries NewMutableTree = []"
    using that by (simp_all add: iavlInv_def NewMutableTree_def tree_ok_def entries_def tree_nodes_def hashed_def)
  obtain u t where t: "opSet iavlOps (Some ?k) (Some ?v) NewMutableTree = (u, t)"
    by fastforce
  show ?thesis
    using iavl.set_law[OF empty(1) t] empty(2) by (auto simp: payerEntries_def kput_def)
qed

lemma payer_send:
  "\<exists>c. runProg goOvf absOps (SendCoins goOvf id plainKeeper [1] [2] [\<lparr>Denom = ''aaa'', Amount = 3\<rparr>])
     (infCtx [(''acc'', payerEntries)] 0) = (Inr None, c)"
  by (simp add: plain_eval bank_eval payerEntries_def payer_def)

lemma payer_context:
  assumes "n < 2 ^ 60"
  shows "\<exists>ctx. msgOk n ctx \<and> absContext (cacheAbs (cacheAbs entries)) ctx = infCtx [(''acc'', payerEntries)] 0"
proof -
  obtain t where t: "iavlInv n t" "entries t = payerEntries"
    using payer_tree[OF assms] by blast
  have "cacheInv entries iavlInv n (newCache t)" "cacheAbs entries (newCache t) = payerEntries"
    using kv_store.cache_new[OF iavl.kv_store_axioms t(1)] t(2) by simp_all
  then have "cacheInv (cacheAbs entries) (cacheInv entries iavlInv) n (newCache (newCache t))"
      "cacheAbs (cacheAbs entries) (newCache (newCache t)) = payerEntries"
    using kv_store.cache_new[OF cached.kv_store_axioms, of n "newCache t"] by simp_all
  then show ?thesis
    by (intro exI[of _ "\<lparr>ms = [(''acc'', newCache (newCache t))], ctxMeter = Infinite 0, newMeter = None\<rparr>"])
      (simp add: msgOk_def ctxOk_def absContext_def)
qed

lemma payer_ok: "accountsOk plainKeeper [(''acc'', payerEntries)]" "balanceOf plainKeeper [(''acc'', payerEntries)] [1] = AccCoins payer"
proof -
  have "decAccount plainKeeper (encAccount plainKeeper payer) = Some payer"
    using plainKeeper_spec by (simp add: codec_spec_def payer_def goodCoins_def)
  then show "accountsOk plainKeeper [(''acc'', payerEntries)]"
      "balanceOf plainKeeper [(''acc'', payerEntries)] [1] = AccCoins payer"
    by (auto simp: accountsOk_def balanceOf_def accountAt_def payerEntries_def plainKeeper_simps(1) payer_def goodCoins_def)
qed

subsection \<open>Properties\<close>




lemma payer_multi:
  "\<exists>c. runProg goOvf absOps (InputOutputCoins goOvf id plainKeeper
      [\<lparr>ioAddress = [1], ioCoins = [\<lparr>Denom = ''aaa'', Amount = 3\<rparr>]\<rparr>] [\<lparr>ioAddress = [2], ioCoins = [\<lparr>Denom = ''aaa'', Amount = 3\<rparr>]\<rparr>])
     (infCtx [(''acc'', payerEntries)] 0) = (Inr None, c)"
  by (simp add: plain_eval bank_eval payerEntries_def payer_def InputOutputCoins_def ValidateInputsOutputs_def ioValidateBasic_def
      IsAllPositive_def CoinsIsEqual_def Sort_def CoinIsEqual_def)


end
