(* ===== verification/Ante.thy ===== *)
theory Ante
  imports Bank_Correct
begin

text \<open>
  Transactions (\<^verbatim>\<open>pkgs/std/tx.go\<close>) and the ante handler that authenticates them and takes their fee
  (\<^verbatim>\<open>pkgs/sdk/auth/ante.go\<close>). Hashing, signature verification and Amino's encodings are fields of the
  handler's environment. The signature gas consumer is the default one. A nil public key is \<open>None\<close>.
\<close>

subsection \<open>Transactions\<close>

record Signature =
  sigPubKey :: "PubKey option"
  sigBytes :: bytes

record 'msg Tx =
  txMsgs :: "'msg list"
  GasWanted :: int
  GasFee :: Coin
  Signatures :: "Signature list"
  Memo :: string

definition maxGasWanted :: int where
  "maxGasWanted = 2 ^ 60 - 1"

fun CountSubKeys :: "PubKey \<Rightarrow> int" where
  "CountSubKeys (PubKeyMultisigThreshold k subkeys) = sum_list (map CountSubKeys subkeys)"
| "CountSubKeys _ = 1"

fun getSigners_loop :: "addr list \<Rightarrow> addr list \<Rightarrow> addr list" where
  "getSigners_loop signers [] = signers"
| "getSigners_loop signers (a # rest) =
     getSigners_loop (if a \<in> set signers then signers else signers @ [a]) rest"

definition GetSigners :: "('msg \<Rightarrow> addr list) \<Rightarrow> 'msg Tx \<Rightarrow> addr list" where
  "GetSigners signersOf tx = getSigners_loop [] (concat (map signersOf (txMsgs tx)))"

definition TxValidateBasic :: "('msg \<Rightarrow> addr list) \<Rightarrow> 'msg Tx \<Rightarrow> abciError option" where
  "TxValidateBasic signersOf tx =
     (if GasWanted tx > maxGasWanted then Some GasOverflowError
      else if \<not> CoinIsValid (GasFee tx) then Some InsufficientFeeError
      else if length (Signatures tx) = 0 then Some NoSignaturesError
      else if length (Signatures tx) \<noteq> length (GetSigners signersOf tx) then Some UnauthorizedError
      else None)"

subsection \<open>The environment of the ante handler\<close>

record Params =
  MaxMemoBytes :: int
  TxSigLimit :: int
  TxSizeCostPerByte :: int
  SigVerifyCostED25519 :: int
  SigVerifyCostSecp256k1 :: int

definition DefaultParams :: Params where
  "DefaultParams = \<lparr>MaxMemoBytes = 65536, TxSigLimit = 7, TxSizeCostPerByte = 10,
     SigVerifyCostED25519 = 590, SigVerifyCostSecp256k1 = 1000\<rparr>"

record 'msg anteEnv =
  aeOvf :: ovf
  aeUni :: "string \<Rightarrow> string"
  aeKeeper :: AccountKeeper
  aeParams :: Params
  VerifyGenesisSignatures :: bool
  signersOf :: "'msg \<Rightarrow> addr list"
  pkAddress :: "PubKey \<Rightarrow> addr"
  VerifyBytes :: "PubKey \<Rightarrow> bytes \<Rightarrow> bytes \<Rightarrow> bool"
  SignBytes :: "string \<Rightarrow> 64 word \<Rightarrow> 64 word \<Rightarrow> int \<Rightarrow> Coin \<Rightarrow> 'msg list \<Rightarrow> string \<Rightarrow> bytes"
  marshalSized :: "PubKey \<Rightarrow> bytes \<Rightarrow> bytes"
  unmarshalMultisig :: "bytes \<Rightarrow> (bool list \<times> bytes list) option"
  FeeCollectorAddress :: addr

definition simSecp256k1Pubkey :: PubKey where
  "simSecp256k1Pubkey = PubKeySecp256k1
     [0x03, 0x5A, 0xD6, 0x81, 0x0A, 0x47, 0xF0, 0x73, 0x55, 0x3F, 0xF3, 0x0D, 0x2F, 0xCC, 0x7E, 0x0D, 0x3B,
      0x1C, 0x0B, 0x74, 0xB6, 0x1A, 0x1A, 0xAA, 0x25, 0x82, 0x34, 0x40, 0x37, 0x15, 0x1E, 0x14, 0x3A]"

definition simSecp256k1Sig :: bytes where
  "simSecp256k1Sig = replicate 64 0"

subsection \<open>Checks\<close>

fun sigCount_loop :: "int \<Rightarrow> int \<Rightarrow> Signature list \<Rightarrow> Result" where
  "sigCount_loop limit n [] = emptyResult"
| "sigCount_loop limit n (s # rest) =
     (let n' = n + (case sigPubKey s of None \<Rightarrow> 1 | Some pk \<Rightarrow> CountSubKeys pk)
      in if n' > limit then errorResult TooManySignaturesError else sigCount_loop limit n' rest)"

definition ValidateSigCount :: "'msg Tx \<Rightarrow> Params \<Rightarrow> Result" where
  "ValidateSigCount tx params = sigCount_loop (TxSigLimit params) 0 (Signatures tx)"

definition ValidateMemo :: "'msg Tx \<Rightarrow> Params \<Rightarrow> Result" where
  "ValidateMemo tx params = (if int (length (Memo tx)) > MaxMemoBytes params then errorResult MemoTooLargeError else emptyResult)"

fun feeLoop :: "int \<Rightarrow> Coin \<Rightarrow> (int \<times> Coin) list \<Rightarrow> Result" where
  "feeLoop gas f [] = errorResult InsufficientFeeError"
| "feeLoop gas f ((gpGas, gpPrice) # rest) =
     (if Denom f = Denom gpPrice then
        if Amount f * gpGas \<ge> gas * Amount gpPrice then emptyResult else errorResult InsufficientFeeError
      else feeLoop gas f rest)"

definition EnsureSufficientMempoolFees :: "ctxInfo \<Rightarrow> 'msg Tx \<Rightarrow> Result" where
  "EnsureSufficientMempoolFees info tx =
     (if length (ciMinGasPrices info) = 0 then emptyResult
      else feeLoop (GasWanted tx) (GasFee tx) (ciMinGasPrices info))"

definition SetGasMeter :: "bool \<Rightarrow> ctxInfo \<Rightarrow> int \<Rightarrow> 'a prog \<Rightarrow> 'a prog" where
  "SetGasMeter simulate info lim p =
     (if simulate \<or> ciHeight info = 0 then WithGasMeter NewInfiniteGasMeter p
      else case NewGasMeter lim of Inl e \<Rightarrow> Throw e | Inr g \<Rightarrow> WithGasMeter (Basic g) p)"

subsection \<open>Signatures\<close>

function (sequential) sigGas :: "'msg anteEnv \<Rightarrow> bytes \<Rightarrow> PubKey \<Rightarrow> Result prog"
  and multisigGas :: "'msg anteEnv \<Rightarrow> bool list \<Rightarrow> bytes list \<Rightarrow> PubKey list \<Rightarrow> unit prog" where
  "sigGas E sig (PubKeyEd25519 b) =
     Consume (SigVerifyCostED25519 (aeParams E)) ''ante verify: ed25519'' (Ret (errorResult InvalidPubKeyError))"
| "sigGas E sig (PubKeySecp256k1 b) =
     Consume (SigVerifyCostSecp256k1 (aeParams E)) ''ante verify: secp256k1'' (Ret emptyResult)"
| "sigGas E sig (PubKeyMultisigThreshold k pks) = (case unmarshalMultisig E sig of
     None \<Rightarrow> Throw (Panic ''unmarshal multisignature'')
   | Some (bits, sigs) \<Rightarrow> progBind (multisigGas E bits sigs pks) (\<lambda>u. Ret emptyResult))"
| "sigGas E sig (PubKeyOther b) = Ret (errorResult InvalidPubKeyError)"
| "multisigGas E [] sigs pks = Ret ()"
| "multisigGas E (False # bits) sigs (pk # pks) = multisigGas E bits sigs pks"
| "multisigGas E (False # bits) sigs [] = multisigGas E bits sigs []"
| "multisigGas E (True # bits) (s # sigs) (pk # pks) =
     progBind (sigGas E s pk) (\<lambda>r. multisigGas E bits sigs pks)"
| "multisigGas E (True # bits) _ _ = Throw IndexOutOfRange"
  by pat_completeness auto
termination
  by (relation "measures [\<lambda>x. case x of Inl (E, s, pk) \<Rightarrow> size pk | Inr (E, bits, s, pks) \<Rightarrow> size_list size pks,
       \<lambda>x. case x of Inl _ \<Rightarrow> 0 | Inr (E, bits, s, pks) \<Rightarrow> length bits]") auto

definition consumeSimSigGas :: "'msg anteEnv \<Rightarrow> PubKey \<Rightarrow> Signature \<Rightarrow> 'a prog \<Rightarrow> 'a prog" where
  "consumeSimSigGas E pk sig p =
     (let simSig = (if length (sigBytes sig) = 0 then simSecp256k1Sig else []);
          cost = int (length (marshalSized E pk simSig)) + 6;
          cost = (case pk of PubKeyMultisigThreshold k pks \<Rightarrow> swrap 64 (cost * TxSigLimit (aeParams E)) | _ \<Rightarrow> cost)
      in Consume (swrap 64 (TxSizeCostPerByte (aeParams E) * cost)) ''txSize'' p)"

definition ProcessPubKey :: "'msg anteEnv \<Rightarrow> BaseAccount \<Rightarrow> Signature \<Rightarrow> bool \<Rightarrow> Result + PubKey" where
  "ProcessPubKey E acc sig simulate =
     (if simulate then Inr (case AccPubKey acc of None \<Rightarrow> simSecp256k1Pubkey | Some pk \<Rightarrow> pk)
      else case AccPubKey acc of
          Some pk \<Rightarrow> Inr pk
        | None \<Rightarrow> (case sigPubKey sig of
            None \<Rightarrow> Inl (errorResult InvalidPubKeyError)
          | Some pk \<Rightarrow> if pkAddress E pk \<noteq> Address acc then Inl (errorResult InvalidPubKeyError) else Inr pk))"

definition processSig :: "'msg anteEnv \<Rightarrow> BaseAccount \<Rightarrow> Signature \<Rightarrow> bytes \<Rightarrow> bool \<Rightarrow> (Result + BaseAccount) prog" where
  "processSig E acc sig signBytes simulate = (case ProcessPubKey E acc sig simulate of
     Inl res \<Rightarrow> Ret (Inl res)
   | Inr pk \<Rightarrow>
       let acc = SetPubKey pk acc
       in (if simulate then consumeSimSigGas E pk sig else (\<lambda>p. p))
          (progBind (sigGas E (sigBytes sig) pk) (\<lambda>res.
             if \<not> IsOK res then Ret (Inl res)
             else if \<not> simulate \<and> \<not> VerifyBytes E pk signBytes (sigBytes sig) then Ret (Inl (errorResult UnauthorizedError))
             else Ret (Inr (SetSequence (Sequence acc + 1) acc)))))"

definition GetSignBytes :: "'msg anteEnv \<Rightarrow> string \<Rightarrow> 'msg Tx \<Rightarrow> BaseAccount \<Rightarrow> bool \<Rightarrow> bytes" where
  "GetSignBytes E chainID tx acc genesis =
     SignBytes E chainID (if genesis then 0 else AccountNumber acc) (Sequence acc) (GasWanted tx) (GasFee tx) (txMsgs tx) (Memo tx)"

definition GetSignerAcc :: "AccountKeeper \<Rightarrow> addr \<Rightarrow> (Result + BaseAccount) prog" where
  "GetSignerAcc ak a = progBind (GetAccount ak a) (\<lambda>acc.
     Ret (case acc of None \<Rightarrow> Inl (errorResult UnknownAddressError) | Some x \<Rightarrow> Inr x))"

definition DeductFees :: "'msg anteEnv \<Rightarrow> BaseAccount \<Rightarrow> Coins \<Rightarrow> Result prog" where
  "DeductFees E acc fees =
     (if \<not> IsValid (aeUni E) fees then Ret (errorResult InsufficientFeeError)
      else progBind (liftP (SubUnsafe (aeOvf E) (AccCoins acc) fees)) (\<lambda>diff.
        if \<not> IsValid (aeUni E) diff then Ret (errorResult InsufficientFundsError)
        else progBind (SendCoins (aeOvf E) (aeUni E) (aeKeeper E) (Address acc) (FeeCollectorAddress E) fees) (\<lambda>err.
          Ret (abciResult err))))"

text \<open>The loop over the signatures; the first account has been fetched before. The answer is the error, if any.\<close>

fun anteSigs :: "'msg anteEnv \<Rightarrow> ctxInfo \<Rightarrow> 'msg Tx \<Rightarrow> bool \<Rightarrow> BaseAccount option \<Rightarrow> (addr \<times> Signature) list \<Rightarrow> Result option prog" where
  "anteSigs E info tx simulate cached [] = Ret None"
| "anteSigs E info tx simulate cached ((a, sig) # rest) =
     progBind (case cached of Some acc \<Rightarrow> Ret (Inr acc) | None \<Rightarrow> GetSignerAcc (aeKeeper E) a) (\<lambda>r.
       case r of Inl res \<Rightarrow> Ret (Some res)
       | Inr sacc \<Rightarrow>
           progBind (if ciHeight info = 0 \<and> \<not> VerifyGenesisSignatures E then Ret (Inr sacc)
              else processSig E sacc sig (GetSignBytes E (ciChainID info) tx sacc (ciHeight info = 0)) simulate) (\<lambda>r.
             case r of Inl res \<Rightarrow> Ret (Some res)
             | Inr acc \<Rightarrow> progBind (SetAccount (aeKeeper E) acc) (\<lambda>u. anteSigs E info tx simulate None rest)))"

subsection \<open>The handler\<close>

definition abortWith :: "Result \<Rightarrow> AnteOut" where
  "abortWith res = \<lparr>newCtxZero = False, anteResult = res, abort = True\<rparr>"

definition payFees :: "'msg anteEnv \<Rightarrow> 'msg Tx \<Rightarrow> BaseAccount \<Rightarrow> (Result + BaseAccount) prog" where
  "payFees E tx acc =
     (if \<not> CoinIsZero (GasFee tx) then
        progBind (DeductFees E acc [GasFee tx]) (\<lambda>res.
          if \<not> IsOK res then Ret (Inl res)
          else progBind (GetAccount (aeKeeper E) (Address acc)) (\<lambda>acc.
            case acc of None \<Rightarrow> Throw NilDereference | Some x \<Rightarrow> Ret (Inr x)))
      else Ret (Inr acc))"

definition anteSign :: "'msg anteEnv \<Rightarrow> ctxInfo \<Rightarrow> 'msg Tx \<Rightarrow> bool \<Rightarrow> addr list \<Rightarrow> BaseAccount \<Rightarrow> AnteOut prog" where
  "anteSign E info tx simulate signers acc =
     progBind (anteSigs E info tx simulate (Some acc) (zip signers (Signatures tx))) (\<lambda>r.
       case r of Some res \<Rightarrow> Ret (abortWith res)
       | None \<Rightarrow> Ret \<lparr>newCtxZero = False, anteResult = emptyResult\<lparr>resGasWanted := GasWanted tx\<rparr>, abort = False\<rparr>)"

definition antePay :: "'msg anteEnv \<Rightarrow> ctxInfo \<Rightarrow> 'msg Tx \<Rightarrow> bool \<Rightarrow> addr list \<Rightarrow> BaseAccount \<Rightarrow> AnteOut prog" where
  "antePay E info tx simulate signers acc = progBind (payFees E tx acc) (\<lambda>r.
     case r of Inl res \<Rightarrow> Ret (abortWith res) | Inr acc \<Rightarrow> anteSign E info tx simulate signers acc)"

definition anteBody :: "'msg anteEnv \<Rightarrow> ctxInfo \<Rightarrow> 'msg Tx \<Rightarrow> bool \<Rightarrow> AnteOut prog" where
  "anteBody E info tx simulate =
     (let res = ValidateSigCount tx (aeParams E) in if \<not> IsOK res then Ret (abortWith res)
      else case TxValidateBasic (signersOf E) tx of Some e \<Rightarrow> Ret (abortWith (errorResult e))
      | None \<Rightarrow> Consume (swrap 64 (TxSizeCostPerByte (aeParams E) * int (length (ciTxBytes info)))) ''txSize''
        (let res = ValidateMemo tx (aeParams E) in if \<not> IsOK res then Ret (abortWith res)
         else case GetSigners (signersOf E) tx of [] \<Rightarrow> Throw IndexOutOfRange
         | a # rest \<Rightarrow> progBind (GetSignerAcc (aeKeeper E) a) (\<lambda>r.
             case r of Inl res \<Rightarrow> Ret (abortWith res)
             | Inr acc \<Rightarrow> antePay E info tx simulate (a # rest) acc)))"

definition AnteHandler :: "'msg anteEnv \<Rightarrow> ctxInfo \<Rightarrow> 'msg Tx \<Rightarrow> bool \<Rightarrow> AnteOut prog" where
  "AnteHandler E info tx simulate = (case ciMaxGas info of
     None \<Rightarrow> Throw NilDereference
   | Some maxGas \<Rightarrow>
       if maxGas \<noteq> -1 \<and> maxGas < GasWanted tx then Ret (abortWith (errorResult InvalidGasWantedError))
       else let res = (if ciMode info = RunTxModeCheck \<and> \<not> simulate then EnsureSufficientMempoolFees info tx else emptyResult)
         in if \<not> IsOK res then Ret (abortWith res)
            else SetGasMeter simulate info (GasWanted tx) (anteBody E info tx simulate))"

text \<open>The deferred recovery of the handler.\<close>

definition AnteRecover :: "'msg Tx \<Rightarrow> panic \<Rightarrow> AnteOut prog option" where
  "AnteRecover tx e = (case e of
     OutOfGasException d \<Rightarrow> Some (MeterConsumed (\<lambda>g.
       Ret (abortWith ((errorResult OutOfGasError)\<lparr>resGasWanted := GasWanted tx, resGasUsed := g\<rparr>))))
   | _ \<Rightarrow> None)"

end
