(* ===== verification/Ante_Correct.thy ===== *)
theory Ante_Correct
  imports Ante
begin

text \<open>
  What the ante handler has checked when it lets a transaction pass: a signature of every signer over
  the chain, the account number and the current sequence, which it then increments.
\<close>

subsection \<open>Signers and calls\<close>

lemma getSigners_distinct: "distinct signers \<Longrightarrow> distinct (getSigners_loop signers as)"
  by (induction signers as rule: getSigners_loop.induct) auto

lemma GetSigners_distinct: "distinct (GetSigners f tx)"
  by (simp add: GetSigners_def getSigners_distinct)

lemma sigGas_pure:
  "steps (sigGas E s pk) m r m' \<Longrightarrow> m' = m" "steps (multisigGas E bits sigs pks) m u m' \<Longrightarrow> m' = m"
proof (induction E s pk and E bits sigs pks arbitrary: m r m' and m u m' rule: sigGas_multisigGas.induct)
  case (3 E sig k pks)
  then show ?case
    by (fastforce split: option.splits prod.splits)
next
  case (8 E bits s sigs pk pks)
  from "8.prems" obtain r m1 where "steps (sigGas E s pk) m r m1" "steps (multisigGas E bits sigs pks) m1 u m'"
    by auto
  then show ?case
    using "8.IH"(1)[of m r m1] "8.IH"(2)[of m1 u m'] by simp
qed auto

lemma sigGas_bound: "callBound (sigGas E s pk) 0" "callBound (multisigGas E bits sigs pks) 0"
proof (induction E s pk and E bits sigs pks rule: sigGas_multisigGas.induct)
  case (3 E sig k pks)
  then show ?case
    by (auto intro!: callBound_bind0 split: option.splits)
qed (auto intro!: callBound_bind0)

lemma processSig_bound: "callBound (processSig E acc sig sb sim) 0"
  by (auto simp: processSig_def Let_def consumeSimSigGas_def intro!: callBound_bind0 sigGas_bound split: sum.split)

lemma GetSignerAcc_bound: "callBound (GetSignerAcc ak a) 1"
  unfolding GetSignerAcc_def by (intro callBound_bind0 GetAccount_bound) simp

lemma anteSigs_bound: "callBound (anteSigs E info tx sim cached ps) (2 * length ps)"
proof (induction ps arbitrary: cached)
  case (Cons p ps)
  obtain a sig where p: "p = (a, sig)"
    by fastforce
  have first: "callBound (case cached of Some acc \<Rightarrow> Ret (Inr acc) | None \<Rightarrow> GetSignerAcc (aeKeeper E) a) 1"
    using GetSignerAcc_bound by (auto split: option.split)
  have set: "callBound (progBind (SetAccount (aeKeeper E) acc) (\<lambda>u. anteSigs E info tx sim None ps)) (1 + 2 * length ps)" for acc
    by (intro callBound_bind Cons.IH) (simp add: SetAccount_def)
  have step: "callBound (progBind (if ciHeight info = 0 \<and> \<not> VerifyGenesisSignatures E then Ret (Inr sacc)
        else processSig E sacc sig (GetSignBytes E (ciChainID info) tx sacc (ciHeight info = 0)) sim) (\<lambda>r.
      case r of Inl res \<Rightarrow> Ret (Some res)
      | Inr acc \<Rightarrow> progBind (SetAccount (aeKeeper E) acc) (\<lambda>u. anteSigs E info tx sim None ps))) (0 + (1 + 2 * length ps))" for sacc
    using set processSig_bound by (intro callBound_bind) (auto split: sum.split)
  have "callBound (anteSigs E info tx sim cached ((a, sig) # ps)) (1 + (0 + (1 + 2 * length ps)))"
    unfolding anteSigs.simps
  proof (intro callBound_bind first)
    fix r :: "Result + BaseAccount"
    show "callBound (case r of Inl res \<Rightarrow> Ret (Some res)
       | Inr sacc \<Rightarrow>
           progBind (if ciHeight info = 0 \<and> \<not> VerifyGenesisSignatures E then Ret (Inr sacc)
              else processSig E sacc sig (GetSignBytes E (ciChainID info) tx sacc (ciHeight info = 0)) sim) (\<lambda>r.
             case r of Inl res \<Rightarrow> Ret (Some res)
             | Inr acc \<Rightarrow> progBind (SetAccount (aeKeeper E) acc) (\<lambda>u. anteSigs E info tx sim None ps))) (0 + (1 + 2 * length ps))"
      using step by (cases r) simp_all
  qed
  then show ?case
    by (simp add: p)
qed simp

lemma payFees_bound: "callBound (payFees E tx acc) 11"
proof -
  have "callBound (progBind (SendCoins (aeOvf E) (aeUni E) (aeKeeper E) (Address acc) (FeeCollectorAddress E) fees) (\<lambda>err.
      Ret (abciResult err))) (10 + 0)" for fees
    by (intro callBound_bind SendCoins_bound) simp
  then have "callBound (progBind (liftP (SubUnsafe (aeOvf E) (AccCoins acc) fees)) (\<lambda>diff.
        if \<not> IsValid (aeUni E) diff then Ret (errorResult InsufficientFundsError)
        else progBind (SendCoins (aeOvf E) (aeUni E) (aeKeeper E) (Address acc) (FeeCollectorAddress E) fees) (\<lambda>err.
          Ret (abciResult err)))) (0 + 10)" for fees
    by (intro callBound_bind) auto
  then have fees: "callBound (DeductFees E acc fees) 10" for fees
    by (simp add: DeductFees_def)
  have "callBound (progBind (GetAccount (aeKeeper E) a) (\<lambda>acc.
      case acc of None \<Rightarrow> Throw NilDereference | Some x \<Rightarrow> Ret (Inr x :: Result + BaseAccount))) (1 + 0)" for a
    by (intro callBound_bind GetAccount_bound) (auto split: option.split)
  then have "callBound (progBind (DeductFees E acc [GasFee tx]) (\<lambda>res.
          if \<not> IsOK res then Ret (Inl res)
          else progBind (GetAccount (aeKeeper E) (Address acc)) (\<lambda>acc.
            case acc of None \<Rightarrow> Throw NilDereference | Some x \<Rightarrow> Ret (Inr x)))) (10 + 1)"
    by (intro callBound_bind fees) auto
  then show ?thesis
    by (simp add: payFees_def)
qed

definition anteCalls :: "'msg Tx \<Rightarrow> nat" where
  "anteCalls tx = 12 + 2 * length (Signatures tx)"

lemma anteSign_bound: "callBound (anteSign E info tx sim as acc) (2 * length (Signatures tx))"
  unfolding anteSign_def
  by (intro callBound_bind0 callBound_mono[OF anteSigs_bound]) (auto split: option.split)

lemma antePay_bound: "callBound (antePay E info tx sim as acc) (11 + 2 * length (Signatures tx))"
  unfolding antePay_def using anteSign_bound by (intro callBound_bind payFees_bound) (auto split: sum.split)

lemma AnteHandler_bound: "callBound (AnteHandler E info tx sim) (anteCalls tx)"
proof -
  have get: "callBound (progBind (GetSignerAcc (aeKeeper E) a) (\<lambda>r. case r of Inl res \<Rightarrow> Ret (abortWith res)
      | Inr acc \<Rightarrow> antePay E info tx sim as acc)) (1 + (11 + 2 * length (Signatures tx)))" for a as
    using antePay_bound by (intro callBound_bind GetSignerAcc_bound) (auto split: sum.split)
  have "callBound (anteBody E info tx sim) (1 + (11 + 2 * length (Signatures tx)))"
    unfolding anteBody_def Let_def using get by (simp split: option.split list.split)
  then show ?thesis
    by (auto simp: AnteHandler_def Let_def SetGasMeter_def anteCalls_def split: option.split sum.split)
qed

subsection \<open>What passes\<close>

text \<open>The key is the account's, or the signature's if the account has none and the address matches.\<close>

definition keyFor :: "'msg anteEnv \<Rightarrow> BaseAccount \<Rightarrow> Signature \<Rightarrow> PubKey \<Rightarrow> bool" where
  "keyFor E acc sig pk \<longleftrightarrow> AccPubKey acc = Some pk
     \<or> AccPubKey acc = None \<and> sigPubKey sig = Some pk \<and> pkAddress E pk = Address acc"

definition signedBy :: "'msg anteEnv \<Rightarrow> ctxInfo \<Rightarrow> 'msg Tx \<Rightarrow> BaseAccount \<Rightarrow> Signature \<Rightarrow> PubKey \<Rightarrow> bool" where
  "signedBy E info tx acc sig pk \<longleftrightarrow> keyFor E acc sig pk
     \<and> VerifyBytes E pk (GetSignBytes E (ciChainID info) tx acc (ciHeight info = 0)) (sigBytes sig)"

lemma processSig_steps:
  assumes "steps (processSig E acc sig sb False) m (Inr acc') m'"
  shows "m' = m \<and> (\<exists>pk. keyFor E acc sig pk \<and> VerifyBytes E pk sb (sigBytes sig)
    \<and> acc' = acc\<lparr>AccPubKey := Some pk, Sequence := Sequence acc + 1\<rparr>)"
  using assms sigGas_pure(1)
  by (auto simp: processSig_def ProcessPubKey_def keyFor_def Let_def SetPubKey_def SetSequence_def
      split: option.splits if_splits)

lemma anteSigs_steps:
  assumes "codec_spec (aeKeeper E)" "ciHeight info \<noteq> 0 \<or> VerifyGenesisSignatures E"
  shows "distinct (map fst ps) \<Longrightarrow> accountsOk (aeKeeper E) m \<Longrightarrow>
    (cached = None \<or> (\<exists>a sig rest. ps = (a, sig) # rest \<and> cached = accountAt (aeKeeper E) m a)) \<Longrightarrow>
    steps (anteSigs E info tx False cached ps) m None m' \<Longrightarrow>
    accountsOk (aeKeeper E) m'
    \<and> (\<forall>(a, sig) \<in> set ps. \<exists>acc pk. accountAt (aeKeeper E) m a = Some acc \<and> signedBy E info tx acc sig pk
         \<and> accountAt (aeKeeper E) m' a = Some (acc\<lparr>AccPubKey := Some pk, Sequence := Sequence acc + 1\<rparr>))
    \<and> (\<forall>b. b \<notin> fst ` set ps \<longrightarrow> accountAt (aeKeeper E) m' b = accountAt (aeKeeper E) m b)"
proof (induction ps arbitrary: m cached)
  case (Cons p ps)
  let ?ak = "aeKeeper E"
  obtain a sig where p: "p = (a, sig)"
    by fastforce
  have fetch: "r = (case accountAt ?ak m a of None \<Rightarrow> Inl (errorResult UnknownAddressError) | Some x \<Rightarrow> Inr x) \<and> m2 = m"
    if "steps (case cached of Some acc \<Rightarrow> Ret (Inr acc) | None \<Rightarrow> GetSignerAcc ?ak a) m r m2" for r m2
  proof (cases cached)
    case None
    then show ?thesis
      using that by (auto simp: GetSignerAcc_def GetAccount_steps[OF Cons.prems(2)])
  next
    case (Some acc)
    then have "accountAt ?ak m a = Some acc"
      using Cons.prems(3) p by auto
    then show ?thesis
      using that Some by simp
  qed
  have checked: "(if ciHeight info = 0 \<and> \<not> VerifyGenesisSignatures E then q else q') = q'" for q q' :: "(Result + BaseAccount) prog"
    using assms(2) by auto
  obtain r m2 where r: "steps (case cached of Some acc \<Rightarrow> Ret (Inr acc) | None \<Rightarrow> GetSignerAcc ?ak a) m r m2"
      "steps (case r of Inl res \<Rightarrow> Ret (Some res) | Inr sacc \<Rightarrow>
           progBind (processSig E sacc sig (GetSignBytes E (ciChainID info) tx sacc (ciHeight info = 0)) False) (\<lambda>r.
             case r of Inl res \<Rightarrow> Ret (Some res)
             | Inr acc \<Rightarrow> progBind (SetAccount ?ak acc) (\<lambda>u. anteSigs E info tx False None ps))) m2 None m'"
    using Cons.prems(4) p checked by auto
  obtain acc where first: "accountAt ?ak m a = Some acc" "r = Inr acc" "m2 = m"
    using fetch[OF r(1)] r(2) by (auto split: option.splits)
  let ?sig = "processSig E acc sig (GetSignBytes E (ciChainID info) tx acc (ciHeight info = 0)) False"
  obtain q m3 where q: "steps ?sig m q m3" "steps (case q of Inl res \<Rightarrow> Ret (Some res)
      | Inr acc \<Rightarrow> progBind (SetAccount ?ak acc) (\<lambda>u. anteSigs E info tx False None ps)) m3 None m'"
    using r(2) first by auto
  then obtain acc' where acc': "q = Inr acc'" "m3 = m"
    by (cases q) (auto dest: processSig_steps)
  obtain m1 where sig: "steps ?sig m (Inr acc') m" "steps (SetAccount ?ak acc') m () m1" "steps (anteSigs E info tx False None ps) m1 None m'"
    using q acc' by auto
  obtain acc acc' m1 where run: "accountAt ?ak m a = Some acc"
      "steps (processSig E acc sig (GetSignBytes E (ciChainID info) tx acc (ciHeight info = 0)) False) m (Inr acc') m"
      "steps (SetAccount ?ak acc') m () m1" "steps (anteSigs E info tx False None ps) m1 None m'"
    using first sig by blast
  obtain pk where pk: "keyFor E acc sig pk" "signedBy E info tx acc sig pk" "acc' = acc\<lparr>AccPubKey := Some pk, Sequence := Sequence acc + 1\<rparr>"
    using processSig_steps[OF run(2)] by (auto simp: signedBy_def)
  have acc: "Address acc' = a" "goodCoins (AccCoins acc')"
    using accountsOk_addr[OF Cons.prems(2) run(1)] pk(3) by simp_all
  note set = SetAccount_steps[OF assms(1) Cons.prems(2) acc(2) run(3)]
  have dist: "distinct (map fst ps)" "a \<notin> fst ` set ps"
    using Cons.prems(1) p by auto
  have IH: "accountsOk ?ak m'"
      "\<forall>(b, s) \<in> set ps. \<exists>acc pk. accountAt ?ak m1 b = Some acc \<and> signedBy E info tx acc s pk
         \<and> accountAt ?ak m' b = Some (acc\<lparr>AccPubKey := Some pk, Sequence := Sequence acc + 1\<rparr>)"
      "\<forall>b. b \<notin> fst ` set ps \<longrightarrow> accountAt ?ak m' b = accountAt ?ak m1 b"
    using Cons.IH[OF dist(1) set(1) _ run(4)] by simp_all
  have same: "accountAt ?ak m1 b = accountAt ?ak m b" if "b \<noteq> a" for b
    using set(2) acc(1) that by simp
  have rest: "accountAt ?ak m1 b = accountAt ?ak m b" if "(b, s) \<in> set ps" for b s
    using dist(2) that by (intro same) force
  have "accountAt ?ak m' a = Some acc'"
    using IH(3) dist(2) set(2) acc(1) by simp
  then have one: "\<exists>acc pk. accountAt ?ak m a = Some acc \<and> signedBy E info tx acc sig pk
      \<and> accountAt ?ak m' a = Some (acc\<lparr>AccPubKey := Some pk, Sequence := Sequence acc + 1\<rparr>)"
    using run(1) pk by blast
  have others: "\<exists>acc pk. accountAt ?ak m b = Some acc \<and> signedBy E info tx acc s pk
      \<and> accountAt ?ak m' b = Some (acc\<lparr>AccPubKey := Some pk, Sequence := Sequence acc + 1\<rparr>)" if "(b, s) \<in> set ps" for b s
    using bspec[OF IH(2) that] rest[OF that] by simp
  show ?case
    using IH(1,3) one others same p by auto
qed auto

lemma payFees_steps:
  assumes "ovf_spec (aeOvf E)" "codec_spec (aeKeeper E)" "accountsOk (aeKeeper E) m" "int64 (Amount (GasFee tx))"
    "accountAt (aeKeeper E) m a = Some acc" "steps (payFees E tx acc) m (Inr acc') m'"
  shows "accountsOk (aeKeeper E) m'" "sameButCoins (aeKeeper E) m m'" "accountAt (aeKeeper E) m' a = Some acc'"
    "\<And>b d. held (balanceOf (aeKeeper E) m' b) d = held (balanceOf (aeKeeper E) m b) d
       - (if b = a then held [GasFee tx] d else 0) + (if b = FeeCollectorAddress E then held [GasFee tx] d else 0)"
proof -
  let ?ak = "aeKeeper E" and ?send = "SendCoins (aeOvf E) (aeUni E) (aeKeeper E) a (FeeCollectorAddress E) [GasFee tx]"
  have a: "Address acc = a"
    using accountsOk_addr(1)[OF assms(3,5)] .
  have int: "int64Coins [GasFee tx]"
    using assms(4) by (simp add: int64Coins_def)
  have all: "accountsOk ?ak m' \<and> sameButCoins ?ak m m' \<and> accountAt ?ak m' a = Some acc' \<and>
      (\<forall>b d. held (balanceOf ?ak m' b) d = held (balanceOf ?ak m b) d
       - (if b = a then held [GasFee tx] d else 0) + (if b = FeeCollectorAddress E then held [GasFee tx] d else 0))"
  proof (cases "CoinIsZero (GasFee tx)")
    case True
    then show ?thesis
      using assms(3,5,6) sameButCoins_refl by (auto simp: payFees_def CoinIsZero_def)
  next
    case False
    then obtain res m1 where run: "steps (DeductFees E acc [GasFee tx]) m res m1" "IsOK res"
        "steps (progBind (GetAccount ?ak a) (\<lambda>acc. case acc of None \<Rightarrow> Throw NilDereference | Some x \<Rightarrow> Ret (Inr x :: Result + BaseAccount))) m1 (Inr acc') m'"
      using assms(6) a by (auto simp: payFees_def split: if_splits)
    then have send: "steps ?send m None m1"
      using a by (auto simp: DeductFees_def IsOK_def abciResult_def split: if_splits)
    note moved = SendCoins_steps[OF assms(1-3) int send]
    have "m' = m1" "accountAt ?ak m1 a = Some acc'"
      using run(3) by (auto simp: GetAccount_steps[OF moved(1)] split: option.splits)
    then show ?thesis
      using moved by blast
  qed
  then show "accountsOk ?ak m'" "sameButCoins ?ak m m'" "accountAt ?ak m' a = Some acc'"
      "\<And>b d. held (balanceOf ?ak m' b) d = held (balanceOf ?ak m b) d
       - (if b = a then held [GasFee tx] d else 0) + (if b = FeeCollectorAddress E then held [GasFee tx] d else 0)"
    by blast+
qed

lemma AnteHandler_passes:
  assumes "steps (AnteHandler E info tx False) m out m'" "\<not> abort out"
  obtains a rest acc acc' m1 where "GetSigners (signersOf E) tx = a # rest" "length (Signatures tx) = length (a # rest)"
    "steps (GetSignerAcc (aeKeeper E) a) m (Inr acc) m" "steps (payFees E tx acc) m (Inr acc') m1"
    "steps (anteSigs E info tx False (Some acc') (zip (a # rest) (Signatures tx))) m1 None m'"
proof -
  note no_abort = assms(2)
  have body: "steps (anteBody E info tx False) m out m'"
    using assms by (auto simp: AnteHandler_def Let_def SetGasMeter_def abortWith_def split: option.splits if_splits sum.splits)
  have ok: "TxValidateBasic (signersOf E) tx = None" "IsOK (ValidateSigCount tx (aeParams E))"
    using body no_abort by (auto simp: anteBody_def Let_def abortWith_def split: option.splits if_splits)
  then obtain a rest where sg: "GetSigners (signersOf E) tx = a # rest" "length (Signatures tx) = length (a # rest)"
    by (cases "GetSigners (signersOf E) tx") (auto simp: TxValidateBasic_def split: if_splits)
  have memo: "IsOK (ValidateMemo tx (aeParams E))"
    using body no_abort ok by (auto simp: anteBody_def Let_def abortWith_def split: if_splits)
  let ?pay = "antePay E info tx False (a # rest)" and ?fin = "anteSign E info tx False (a # rest)"
  have "steps (progBind (GetSignerAcc (aeKeeper E) a) (\<lambda>r. case r of Inl res \<Rightarrow> Ret (abortWith res) | Inr acc \<Rightarrow> ?pay acc)) m out m'"
    using body ok memo sg(1) by (simp add: anteBody_def Let_def)
  then obtain r m2 where r: "steps (GetSignerAcc (aeKeeper E) a) m r m2"
      "steps (case r of Inl res \<Rightarrow> Ret (abortWith res) | Inr acc \<Rightarrow> ?pay acc) m2 out m'"
    by auto
  then obtain acc where acc: "r = Inr acc" "steps (?pay acc) m2 out m'"
    using no_abort by (cases r) (auto simp: abortWith_def)
  have m2: "m2 = m"
    using r(1) by (auto simp: GetSignerAcc_def GetAccount_def split: option.splits)
  obtain r' m1 where r': "steps (payFees E tx acc) m r' m1" "steps (case r' of Inl res \<Rightarrow> Ret (abortWith res) | Inr acc \<Rightarrow> ?fin acc) m1 out m'"
    using acc(2) m2 by (auto simp: antePay_def)
  then obtain acc' where acc': "r' = Inr acc'" "steps (?fin acc') m1 out m'"
    using no_abort by (cases r') (auto simp: abortWith_def)
  have "steps (anteSigs E info tx False (Some acc') (zip (a # rest) (Signatures tx))) m1 None m'"
    using acc'(2) no_abort unfolding anteSign_def by (auto simp: abortWith_def simp del: anteSigs.simps split: option.splits)
  then show thesis
    using that sg r(1) r'(1) acc(1) acc'(1) m2 by simp
qed

subsection \<open>The effect of the handler\<close>

lemma signedBy_coins [simp]: "signedBy E info tx (acc\<lparr>AccCoins := cs\<rparr>) sig pk = signedBy E info tx acc sig pk"
  by (simp add: signedBy_def keyFor_def GetSignBytes_def)

text \<open>What the handler did for one signer: checked the signature and advanced the sequence.\<close>

definition advanced :: "'msg anteEnv \<Rightarrow> ctxInfo \<Rightarrow> 'msg Tx \<Rightarrow> estore multi \<Rightarrow> estore multi \<Rightarrow> addr \<Rightarrow> Signature \<Rightarrow> bool" where
  "advanced E info tx m m' a sig \<longleftrightarrow> (\<forall>acc. accountAt (aeKeeper E) m a = Some acc \<longrightarrow>
     (\<exists>acc' pk. accountAt (aeKeeper E) m' a = Some acc' \<and> signedBy E info tx acc sig pk \<and> AccPubKey acc' = Some pk
        \<and> Sequence acc' = Sequence acc + 1 \<and> AccountNumber acc' = AccountNumber acc))"

text \<open>What paying the fee does to a balance: the first signer pays, the collector receives.\<close>

definition feeDelta :: "'msg anteEnv \<Rightarrow> 'msg Tx \<Rightarrow> addr \<Rightarrow> string \<Rightarrow> int" where
  "feeDelta E tx b d = (if b = FeeCollectorAddress E then held [GasFee tx] d else 0)
     - (if b = hd (GetSigners (signersOf E) tx) then held [GasFee tx] d else 0)"

lemma AnteHandler_effect:
  assumes "ovf_spec (aeOvf E)" "codec_spec (aeKeeper E)" "accountsOk (aeKeeper E) m" "int64 (Amount (GasFee tx))"
    "ciHeight info \<noteq> 0 \<or> VerifyGenesisSignatures E" "steps (AnteHandler E info tx False) m out m'" "\<not> abort out"
  shows "accountsOk (aeKeeper E) m'" "length (Signatures tx) = length (GetSigners (signersOf E) tx)"
    "\<exists>(a, sig) \<in> set (zip (GetSigners (signersOf E) tx) (Signatures tx)). accountAt (aeKeeper E) m a \<noteq> None"
    "\<forall>(a, sig) \<in> set (zip (GetSigners (signersOf E) tx) (Signatures tx)). advanced E info tx m m' a sig"
    "\<forall>b acc. b \<notin> set (GetSigners (signersOf E) tx) \<longrightarrow> accountAt (aeKeeper E) m b = Some acc
       \<longrightarrow> (\<exists>cs. accountAt (aeKeeper E) m' b = Some (acc\<lparr>AccCoins := cs\<rparr>))"
    "\<forall>b d. held (balanceOf (aeKeeper E) m' b) d = held (balanceOf (aeKeeper E) m b) d + feeDelta E tx b d"
proof -
  let ?ak = "aeKeeper E"
  from assms(6,7) obtain a rest acc acc' m1 where sg: "GetSigners (signersOf E) tx = a # rest" "length (Signatures tx) = length (a # rest)"
    and run: "steps (GetSignerAcc ?ak a) m (Inr acc) m" "steps (payFees E tx acc) m (Inr acc') m1"
      "steps (anteSigs E info tx False (Some acc') (zip (a # rest) (Signatures tx))) m1 None m'"
    by (rule AnteHandler_passes)
  have acc: "accountAt ?ak m a = Some acc"
    using run(1) by (auto simp: GetSignerAcc_def GetAccount_steps[OF assms(3)] split: option.splits)
  note fee = payFees_steps[OF assms(1-4) acc run(2)]
  have keys: "map fst (zip (a # rest) (Signatures tx)) = a # rest"
    using sg(2) by simp
  have dist: "distinct (map fst (zip (a # rest) (Signatures tx)))"
    using keys GetSigners_distinct[of "signersOf E" tx] sg(1) by simp
  have first: "\<exists>sig rest'. zip (a # rest) (Signatures tx) = (a, sig) # rest'"
    using sg(2) by (cases "Signatures tx") auto
  then have sigs: "accountsOk ?ak m'"
      "\<forall>(b, s) \<in> set (zip (a # rest) (Signatures tx)). \<exists>acc pk. accountAt ?ak m1 b = Some acc \<and> signedBy E info tx acc s pk
         \<and> accountAt ?ak m' b = Some (acc\<lparr>AccPubKey := Some pk, Sequence := Sequence acc + 1\<rparr>)"
      "\<forall>b. b \<notin> set (a # rest) \<longrightarrow> accountAt ?ak m' b = accountAt ?ak m1 b"
    using anteSigs_steps[OF assms(2,5) dist fee(1) _ run(3)] fee(3) keys by (force simp flip: set_map)+
  show "accountsOk ?ak m'" "length (Signatures tx) = length (GetSigners (signersOf E) tx)"
    using sigs(1) sg by auto
  show "\<exists>(a, sig) \<in> set (zip (GetSigners (signersOf E) tx) (Signatures tx)). accountAt ?ak m a \<noteq> None"
    using first acc sg(1) by auto
  show "\<forall>b acc. b \<notin> set (GetSigners (signersOf E) tx) \<longrightarrow> accountAt ?ak m b = Some acc
       \<longrightarrow> (\<exists>cs. accountAt ?ak m' b = Some (acc\<lparr>AccCoins := cs\<rparr>))"
    using sigs(3) sg(1) fee(2) by (simp add: sameButCoins_def)
  have "balanceOf ?ak m' b = balanceOf ?ak m1 b" for b
  proof (cases "b \<in> set (a # rest)")
    case True
    then obtain s where "(b, s) \<in> set (zip (a # rest) (Signatures tx))"
      using keys by (metis (no_types, lifting) imageE list.set_map prod.collapse)
    then show ?thesis
      using sigs(2) by (auto simp: balanceOf_def)
  qed (use sigs(3) in \<open>simp add: balanceOf_def\<close>)
  then show "\<forall>b d. held (balanceOf ?ak m' b) d = held (balanceOf ?ak m b) d + feeDelta E tx b d"
    using fee(4) sg(1) by (simp add: feeDelta_def)
  have "advanced E info tx m m' b s" if bs: "(b, s) \<in> set (zip (a # rest) (Signatures tx))" for b s
    unfolding advanced_def
  proof (intro allI impI)
    fix acc0 assume "accountAt ?ak m b = Some acc0"
    then obtain cs where "accountAt ?ak m1 b = Some (acc0\<lparr>AccCoins := cs\<rparr>)"
      using fee(2) unfolding sameButCoins_def by blast
    then show "\<exists>acc' pk. accountAt ?ak m' b = Some acc' \<and> signedBy E info tx acc0 s pk \<and> AccPubKey acc' = Some pk
        \<and> Sequence acc' = Sequence acc0 + 1 \<and> AccountNumber acc' = AccountNumber acc0"
      using bspec[OF sigs(2) bs] by auto
  qed
  then show "\<forall>(a, sig) \<in> set (zip (GetSigners (signersOf E) tx) (Signatures tx)). advanced E info tx m m' a sig"
    using sg(1) by auto
qed

text \<open>
  What the replay protection relies on of the signature scheme and the encoding: none of the transaction's
  signatures verifies, under the same key and account number, with two different sequence numbers.
\<close>

definition bindingSigs :: "'msg anteEnv \<Rightarrow> ctxInfo \<Rightarrow> 'msg Tx \<Rightarrow> bool" where
  "bindingSigs E info tx \<longleftrightarrow> (\<forall>sig \<in> set (Signatures tx). \<forall>pk n q q'.
     VerifyBytes E pk (SignBytes E (ciChainID info) n q (GasWanted tx) (GasFee tx) (txMsgs tx) (Memo tx)) (sigBytes sig)
     \<longrightarrow> VerifyBytes E pk (SignBytes E (ciChainID info) n q' (GasWanted tx) (GasFee tx) (txMsgs tx) (Memo tx)) (sigBytes sig) \<longrightarrow> q = q')"

lemma signedBy_once:
  assumes "bindingSigs E info tx" "sig \<in> set (Signatures tx)" "signedBy E info tx acc sig pk" "AccPubKey acc' = Some pk"
    "Sequence acc' = Sequence acc + 1" "AccountNumber acc' = AccountNumber acc"
  shows "\<not> signedBy E info tx acc' sig pk'"
proof
  assume again: "signedBy E info tx acc' sig pk'"
  then have "pk' = pk"
    using assms(4) by (simp add: signedBy_def keyFor_def)
  then have "Sequence acc = Sequence acc'"
    using assms(1-3,6) again unfolding bindingSigs_def signedBy_def GetSignBytes_def by metis
  then show False
    using assms(5) by simp
qed

subsection \<open>An example environment\<close>

definition demoEnv :: "addr anteEnv" where
  "demoEnv = \<lparr>aeOvf = goOvf, aeUni = id, aeKeeper = plainKeeper, aeParams = DefaultParams, VerifyGenesisSignatures = True,
     signersOf = (\<lambda>a. [a]), pkAddress = (\<lambda>pk. [1]), VerifyBytes = (\<lambda>pk b s. b = s),
     SignBytes = (\<lambda>c n q g f ms mm. replicate (unat q) 0), marshalSized = (\<lambda>pk s. s), unmarshalMultisig = (\<lambda>b. None),
     FeeCollectorAddress = [9]\<rparr>"

definition demoInfo :: ctxInfo where
  "demoInfo = \<lparr>ciMode = RunTxModeDeliver, ciChainID = ''dev'', ciHeight = 0, ciMaxGas = Some 100000, ciMinGasPrices = [], ciTxBytes = [0, 1]\<rparr>"

definition demoTx :: "addr Tx" where
  "demoTx = \<lparr>txMsgs = [[1]], GasWanted = 50000, GasFee = \<lparr>Denom = ''aaa'', Amount = 2\<rparr>,
     Signatures = [\<lparr>sigPubKey = Some (PubKeySecp256k1 [7]), sigBytes = []\<rparr>], Memo = ''rent''\<rparr>"

lemma demo_ante:
  "\<exists>out c. runProg goOvf absOps (AnteHandler demoEnv demoInfo demoTx False) (infCtx [(''acc'', payerEntries)] 0) = (Inr out, c) \<and> \<not> abort out"
  by (simp add: demoEnv_def demoInfo_def demoTx_def AnteHandler_def SetGasMeter_def anteBody_def ValidateSigCount_def DefaultParams_def
     IsOK_def TxValidateBasic_def CoinIsValid_def GetSigners_def maxGasWanted_def ValidateMemo_def GetSignerAcc_def antePay_def payFees_def
     DeductFees_def abciResult_def anteSign_def processSig_def ProcessPubKey_def GetSignBytes_def SetPubKey_def SetSequence_def
     NewInfiniteGasMeter_def plain_eval bank_eval payerEntries_def payer_def Let_def validate_def)

lemma demo_simps: "aeOvf demoEnv = goOvf" "aeKeeper demoEnv = plainKeeper" "VerifyGenesisSignatures demoEnv"
  "GasFee demoTx = \<lparr>Denom = ''aaa'', Amount = 2\<rparr>" "int64 2"
  by (simp_all add: demoEnv_def demoTx_def int64_def)

lemma demo_signers: "zip (GetSigners (signersOf demoEnv) demoTx) (Signatures demoTx) = [([1], hd (Signatures demoTx))]"
  by (simp add: GetSigners_def demoEnv_def demoTx_def)

lemma payer_at: "accountAt plainKeeper [(''acc'', payerEntries)] [1] = Some payer"
  using plainKeeper_spec by (simp add: codec_spec_def payer_def goodCoins_def accountAt_def payerEntries_def plainKeeper_simps(1))

lemma demo_binding: "bindingSigs demoEnv demoInfo demoTx"
  by (simp add: bindingSigs_def demoEnv_def demoTx_def unat_eq_0)





end
