(* ===== verification/Gnoland_App.thy ===== *)
theory Gnoland_App
  imports Ante_Correct
begin

text \<open>
  The application of \<^verbatim>\<open>gnoland/app.go\<close> on transactions of bank messages: the base application with the
  ante handler and the bank's handler, and what delivering a transaction does from end to end. The
  messages are the bank's, so the other routes are not reached.
\<close>

subsection \<open>The application\<close>

definition gnolandEnv :: "BankMsg anteEnv \<Rightarrow> BankMsg anteEnv" where
  "gnolandEnv E = E\<lparr>aeParams := DefaultParams, VerifyGenesisSignatures := False, signersOf := BankMsgGetSigners\<rparr>"

definition bankApp :: "BankMsg anteEnv \<Rightarrow> (BankMsg Tx, BankMsg) BaseApp" where
  "bankApp E = \<lparr>getMsgs = txMsgs, msgValidateBasic = BankMsgValidateBasic (aeOvf E) (aeUni E), msgRoute = (\<lambda>m. ''bank''),
     router = (\<lambda>r. if r = ''bank'' then Some (\<lambda>info m. BankProcess (aeOvf E) (aeUni E) (aeKeeper E) m) else None),
     anteHandler = Some (AnteHandler (gnolandEnv E)), anteRecover = AnteRecover\<rparr>"

lemma bankApp_simps [simp]:
  "getMsgs (bankApp E) = txMsgs" "anteHandler (bankApp E) = Some (AnteHandler (gnolandEnv E))" "anteRecover (bankApp E) = AnteRecover"
  "msgRoute (bankApp E) m = ''bank''" "router (bankApp E) ''bank'' = Some (\<lambda>info m. BankProcess (aeOvf E) (aeUni E) (aeKeeper E) m)"
  by (simp_all add: bankApp_def)

lemma gnolandEnv_simps [simp]:
  "aeOvf (gnolandEnv E) = aeOvf E" "aeKeeper (gnolandEnv E) = aeKeeper E" "aeUni (gnolandEnv E) = aeUni E"
  "signersOf (gnolandEnv E) = BankMsgGetSigners" "\<not> VerifyGenesisSignatures (gnolandEnv E)"
  by (simp_all add: gnolandEnv_def)

subsection \<open>Bounds\<close>

fun bankCalls :: "BankMsg \<Rightarrow> nat" where
  "bankCalls (MsgSend from to amt) = 10"
| "bankCalls (MsgMultiSend ins outs) = 5 * length ins + 5 * length outs"

lemma BankProcess_bound: "callBound (BankProcess ov uni ak m) (bankCalls m)"
  by (cases m) (auto simp: handleMsgSend_def handleMsgMultiSend_def intro!: callBound_bind0 SendCoins_bound InputOutputCoins_bound)

lemma runMsgs_bound: "callBound (runMsgs_loop (bankApp E) info mode bz msgs) (\<Sum>m\<leftarrow>msgs. bankCalls m)"
proof (induction msgs arbitrary: bz)
  case (Cons m msgs)
  show ?case
  proof (cases "mode = RunTxModeCheck")
    case True
    then show ?thesis
      using callBound_mono[OF Cons.IH, where j = "bankCalls m + (\<Sum>m\<leftarrow>msgs. bankCalls m)"] by simp
  next
    case False
    then show ?thesis
      using Cons.IH by (auto intro!: callBound_bind BankProcess_bound)
  qed
qed simp

definition bankTxCalls :: "BankMsg Tx \<Rightarrow> nat" where
  "bankTxCalls tx = (\<Sum>m\<leftarrow>txMsgs tx. bankCalls m) + anteCalls tx"

lemma bankTx_bound: "txBound (bankApp E) info mode tx (anteCalls tx) 0 (\<Sum>m\<leftarrow>txMsgs tx. bankCalls m)"
  using AnteHandler_bound runMsgs_bound by (auto simp: txBound_def runMsgs_def AnteRecover_def split: panic.splits)

subsection \<open>The effect of the messages\<close>

fun msgDelta :: "BankMsg \<Rightarrow> addr \<Rightarrow> string \<Rightarrow> int" where
  "msgDelta (MsgSend from to amt) a d = (if a = to then held amt d else 0) - (if a = from then held amt d else 0)"
| "msgDelta (MsgMultiSend ins outs) a d = ioHeld outs a d - ioHeld ins a d"

fun msgInt64 :: "BankMsg \<Rightarrow> bool" where
  "msgInt64 (MsgSend from to amt) = int64Coins amt"
| "msgInt64 (MsgMultiSend ins outs) = list_all (\<lambda>io. int64Coins (ioCoins io)) (ins @ outs)"

lemma abciResult_ok [simp]: "IsOK (abciResult e) \<longleftrightarrow> e = None" "abciResult e = emptyResult \<longleftrightarrow> e = None"
  by (simp_all add: IsOK_def abciResult_def)

lemma BankProcess_steps:
  assumes "ovf_spec ov" "codec_spec ak" "accountsOk ak m" "msgInt64 msg" "steps (BankProcess ov uni ak msg) m res m'" "IsOK res"
  shows "accountsOk ak m' \<and> sameButCoins ak m m'
    \<and> (\<forall>a d. held (balanceOf ak m' a) d = held (balanceOf ak m a) d + msgDelta msg a d)"
proof (cases msg)
  case (MsgSend a b amt)
  then have "steps (SendCoins ov uni ak a b amt) m None m'"
    using assms(5,6) by (auto simp: handleMsgSend_def split: if_splits)
  then show ?thesis
    using SendCoins_steps[OF assms(1-3)] assms(4) MsgSend by simp
next
  case (MsgMultiSend ins outs)
  then have "steps (InputOutputCoins ov uni ak ins outs) m None m'"
    using assms(5,6) by (auto simp: handleMsgMultiSend_def split: if_splits)
  then show ?thesis
    using InputOutputCoins_steps[OF assms(1-3)] assms(4) MsgMultiSend by simp
qed

lemma runMsgs_steps:
  assumes "ovf_spec (aeOvf E)" "codec_spec (aeKeeper E)"
  shows "accountsOk (aeKeeper E) m \<Longrightarrow> list_all msgInt64 msgs \<Longrightarrow>
    steps (runMsgs_loop (bankApp E) info RunTxModeDeliver bz msgs) m res m' \<Longrightarrow> IsOK res \<Longrightarrow>
    accountsOk (aeKeeper E) m' \<and> sameButCoins (aeKeeper E) m m'
    \<and> (\<forall>a d. held (balanceOf (aeKeeper E) m' a) d = held (balanceOf (aeKeeper E) m a) d + (\<Sum>msg\<leftarrow>msgs. msgDelta msg a d))"
proof (induction msgs arbitrary: bz m)
  case (Cons msg msgs)
  obtain r m1 where run: "steps (BankProcess (aeOvf E) (aeUni E) (aeKeeper E) msg) m r m1" "IsOK r"
      "steps (runMsgs_loop (bankApp E) info RunTxModeDeliver (bz @ resData r) msgs) m1 res m'"
    using Cons.prems(3,4) by (auto simp: IsOK_def split: if_splits)
  have one: "accountsOk (aeKeeper E) m1" "sameButCoins (aeKeeper E) m m1"
      "\<forall>a d. held (balanceOf (aeKeeper E) m1 a) d = held (balanceOf (aeKeeper E) m a) d + msgDelta msg a d"
    using BankProcess_steps[OF assms Cons.prems(1) _ run(1,2)] Cons.prems(2) by simp_all
  show ?case
    using Cons.IH[OF one(1) _ run(3) Cons.prems(4)] Cons.prems(2) one(2,3) sameButCoins_trans[OF one(2)] by simp
qed (simp add: sameButCoins_refl)

subsection \<open>Delivery\<close>

lemma abort_not_ok: "specAnte ov app info mode tx st = (Inr (Some res), st') \<Longrightarrow> \<not> IsOK res"
  by (auto simp: specAnte_def IsOK_def Let_def split: prod.splits option.splits sum.splits if_splits)

lemma specTx_ok:
  assumes "specTx ov app info RunTxModeDeliver tx (c0, g0) = (Inr res, (ctx, gw))" "IsOK res" "anteHandler app = Some h"
    "\<And>e q c out c'. anteRecover app tx e = Some q \<Longrightarrow> runProg ov absOps q c = (Inr out, c') \<Longrightarrow> abort out"
  obtains out m1 res' where "steps (h info tx False) (ms c0) out m1" "\<not> abort out"
    "steps (runMsgs app info RunTxModeDeliver (getMsgs app tx)) m1 res' (ms ctx)" "IsOK res'"
proof -
  have v: "validateBasicTxMsgs app (getMsgs app tx) = Inr None"
    using assms(1,2) by (auto simp: specTx_def IsOK_def split: sum.splits option.splits)
  obtain a c1 g1 where ante: "specAnte ov app info RunTxModeDeliver tx (c0, g0) = (a, (c1, g1))"
    by (metis surj_pair)
  have a: "a = Inr None"
    using assms(1,2) v ante by (auto simp: specTx_def bindA_def split: sum.splits option.splits dest: abort_not_ok)
  obtain out where out: "runAnte ov absOps app tx (h info tx False) c0 = (Inr out, c1)" "\<not> abort out"
    using ante a assms(3) by (auto simp: specAnte_def Let_def split: prod.splits sum.splits if_splits)
  have 1: "steps (h info tx False) (ms c0) out (ms c1)"
    using out assms(4) by (auto simp: runAnte_def split: prod.splits sum.splits option.splits intro!: runProg_steps)
  have msgs: "specMsgs ov app info RunTxModeDeliver tx (c1, g1) = (Inr res, (ctx, gw))"
    using assms(1) v ante a by (simp add: specTx_def)
  obtain res' c2 where run: "runProg ov absOps (runMsgs app info RunTxModeDeliver (getMsgs app tx)) c1 = (Inr res', c2)"
      "res = res'\<lparr>resGasWanted := g1\<rparr>" "ctx = (if IsOK res' then c2 else c2\<lparr>ms := ms c1\<rparr>)"
    using msgs by (cases "runProg ov absOps (runMsgs app info RunTxModeDeliver (getMsgs app tx)) c1";
        cases "fst (runProg ov absOps (runMsgs app info RunTxModeDeliver (getMsgs app tx)) c1)") (auto simp: specMsgs_def)
  have ok: "IsOK res'"
    using assms(2) run(2) by (simp add: IsOK_def)
  show thesis
    using that[OF 1 out(2) _ ok] runProg_steps[OF run(1)] run(3) ok by simp
qed

lemma specTx_error:
  assumes "specTx ov app info RunTxModeDeliver tx (c0, g0) = (r, (ctx, gw))" "\<And>res. r = Inr res \<Longrightarrow> \<not> IsOK res"
  shows "ms ctx = ms c0 \<or> (\<exists>h out c1. anteHandler app = Some h \<and> runAnte ov absOps app tx (h info tx False) c0 = (Inr out, c1)
      \<and> \<not> abort out \<and> ms ctx = ms c1)"
proof (cases "validateBasicTxMsgs app (getMsgs app tx) = Inr None")
  case True
  obtain a c1 g1 where ante: "specAnte ov app info RunTxModeDeliver tx (c0, g0) = (a, (c1, g1))"
    by (metis surj_pair)
  have c1: "ms c1 = ms c0 \<or> (\<exists>h out. anteHandler app = Some h \<and> runAnte ov absOps app tx (h info tx False) c0 = (Inr out, c1) \<and> \<not> abort out)"
    using ante by (auto simp: specAnte_def Let_def split: option.splits prod.splits sum.splits if_splits)
  have "ms ctx = ms c1"
  proof (cases "a = Inr None")
    case ok: True
    then have "specMsgs ov app info RunTxModeDeliver tx (c1, g1) = (r, (ctx, gw))"
      using assms(1) True ante by (simp add: specTx_def)
    then show ?thesis
      using assms(2) by (auto simp: specMsgs_def IsOK_def split: prod.splits if_splits)
  next
    case False
    then show ?thesis
      using assms(1) True ante by (auto simp: specTx_def bindA_def split: sum.splits option.splits)
  qed
  then show ?thesis
    using c1 by auto
next
  case False
  then show ?thesis
    using assms(1) by (auto simp: specTx_def split: sum.splits option.splits)
qed

lemma deliver_simE:
  assumes "txBound app info RunTxModeDeliver tx i j k" "stateOk (n + k + i + j) st" "stBlockMeter st = Some block"
    "0 \<le> Remaining block" "\<not> IsOutOfGas block" "runTx ov (cacheOps iavlOps) app info RunTxModeDeliver tx st = (out, st')"
  obtains r ctx gasWanted g block' where "specTx ov app info RunTxModeDeliver tx (deliverStart st block, 0) = (r, (ctx, gasWanted))"
    "deferBlockGas ov (GasConsumed block) (curMeter ctx) block = (g, block')"
    "out = Inr (deferRecover r g gasWanted (curMeter ctx))" "views (stMs st') = ms ctx" "stBlockMeter st' = Some block'" "stateOk n st'"
proof -
  obtain r ctx gw where spec: "specTx ov app info RunTxModeDeliver tx (deliverStart st block, 0) = (r, (ctx, gw))"
    by (metis surj_pair)
  obtain g block' where g: "deferBlockGas ov (GasConsumed block) (curMeter ctx) block = (g, block')"
    by fastforce
  show thesis
    using that[OF spec g] deliver_sim[OF assms(1-5) spec assms(6) g] by blast
qed

lemma deferRecover_ok: "IsOK (deferRecover r g gw m) \<Longrightarrow> g = Inr () \<and> (\<exists>res. r = Inr res \<and> IsOK res)"
  by (auto simp: deferRecover_def IsOK_def Let_def split: sum.splits panic.splits)

lemma advanced_coins: "advanced E info tx m m1 a sig \<Longrightarrow> sameButCoins (aeKeeper E) m1 m' \<Longrightarrow> advanced E info tx m m' a sig"
  unfolding advanced_def sameButCoins_def by fastforce

lemma AnteRecover_aborts: "AnteRecover tx e = Some q \<Longrightarrow> runProg ov absOps q c = (Inr out, c') \<Longrightarrow> abort out"
  by (auto simp: AnteRecover_def abortWith_def split: panic.splits)

lemma bankTx_effect:
  assumes "ovf_spec (aeOvf E)" "codec_spec (aeKeeper E)" "accountsOk (aeKeeper E) (ms c0)" "int64 (Amount (GasFee tx))"
    "list_all msgInt64 (txMsgs tx)" "ciHeight info \<noteq> 0"
    "specTx ov (bankApp E) info RunTxModeDeliver tx (c0, g0) = (Inr res, (ctx, gw))" "IsOK res"
  shows "accountsOk (aeKeeper E) (ms ctx)" "length (Signatures tx) = length (GetSigners BankMsgGetSigners tx)"
    "\<forall>(a, sig) \<in> set (zip (GetSigners BankMsgGetSigners tx) (Signatures tx)). advanced (gnolandEnv E) info tx (ms c0) (ms ctx) a sig"
    "\<forall>a d. held (balanceOf (aeKeeper E) (ms ctx) a) d
       = held (balanceOf (aeKeeper E) (ms c0) a) d + feeDelta (gnolandEnv E) tx a d + (\<Sum>msg\<leftarrow>txMsgs tx. msgDelta msg a d)"
proof -
  obtain out m1 res' where run: "steps (AnteHandler (gnolandEnv E) info tx False) (ms c0) out m1" "\<not> abort out"
      "steps (runMsgs (bankApp E) info RunTxModeDeliver (getMsgs (bankApp E) tx)) m1 res' (ms ctx)" "IsOK res'"
    using specTx_ok[OF assms(7,8) bankApp_simps(2)] AnteRecover_aborts by (metis bankApp_simps(3))
  have ante: "accountsOk (aeKeeper E) m1" "length (Signatures tx) = length (GetSigners BankMsgGetSigners tx)"
      "\<forall>(a, sig) \<in> set (zip (GetSigners BankMsgGetSigners tx) (Signatures tx)). advanced (gnolandEnv E) info tx (ms c0) m1 a sig"
      "\<forall>b d. held (balanceOf (aeKeeper E) m1 b) d = held (balanceOf (aeKeeper E) (ms c0) b) d + feeDelta (gnolandEnv E) tx b d"
    using AnteHandler_effect[of "gnolandEnv E" "ms c0" tx info out m1] assms(1-4,6) run(1,2) by simp_all
  have msgs: "accountsOk (aeKeeper E) (ms ctx)" "sameButCoins (aeKeeper E) m1 (ms ctx)"
      "\<forall>a d. held (balanceOf (aeKeeper E) (ms ctx) a) d = held (balanceOf (aeKeeper E) m1 a) d + (\<Sum>msg\<leftarrow>txMsgs tx. msgDelta msg a d)"
    using runMsgs_steps[OF assms(1,2) ante(1) assms(5) run(3)[unfolded runMsgs_def bankApp_simps(1)] run(4)] by simp_all
  show "accountsOk (aeKeeper E) (ms ctx)" "length (Signatures tx) = length (GetSigners BankMsgGetSigners tx)"
    using msgs(1) ante(2) .
  show "\<forall>(a, sig) \<in> set (zip (GetSigners BankMsgGetSigners tx) (Signatures tx)). advanced (gnolandEnv E) info tx (ms c0) (ms ctx) a sig"
    using ante(3) msgs(2) advanced_coins[of "gnolandEnv E"] by fastforce
  show "\<forall>a d. held (balanceOf (aeKeeper E) (ms ctx) a) d
       = held (balanceOf (aeKeeper E) (ms c0) a) d + feeDelta (gnolandEnv E) tx a d + (\<Sum>msg\<leftarrow>txMsgs tx. msgDelta msg a d)"
    using ante(4) msgs(3) by simp
qed

subsection \<open>An example chain\<close>

definition bankEnv :: "BankMsg anteEnv" where
  "bankEnv = \<lparr>aeOvf = goOvf, aeUni = id, aeKeeper = plainKeeper, aeParams = DefaultParams, VerifyGenesisSignatures = False,
     signersOf = BankMsgGetSigners, pkAddress = (\<lambda>pk. [1]), VerifyBytes = (\<lambda>pk b s. b = s),
     SignBytes = (\<lambda>c n q g f ms mm. replicate (unat q) 0), marshalSized = (\<lambda>pk s. s), unmarshalMultisig = (\<lambda>b. None),
     FeeCollectorAddress = [9]\<rparr>"

definition bankInfo :: ctxInfo where
  "bankInfo = \<lparr>ciMode = RunTxModeDeliver, ciChainID = ''dev'', ciHeight = 5, ciMaxGas = Some 200000, ciMinGasPrices = [], ciTxBytes = [0, 1]\<rparr>"

definition sendTx :: "int \<Rightarrow> BankMsg Tx" where
  "sendTx n = \<lparr>txMsgs = [MsgSend [1] [2] [\<lparr>Denom = ''aaa'', Amount = n\<rparr>]], GasWanted = 100000, GasFee = \<lparr>Denom = ''aaa'', Amount = 1\<rparr>,
     Signatures = [\<lparr>sigPubKey = Some (PubKeySecp256k1 [7]), sigBytes = []\<rparr>], Memo = ''rent''\<rparr>"

definition sendStart :: "GasMeter \<Rightarrow> (bytes \<times> bytes) list Context" where
  "sendStart m = \<lparr>ms = [(''acc'', payerEntries)], ctxMeter = m, newMeter = None\<rparr>"

lemmas tx_eval = specTx_def specAnte_def specMsgs_def runAnte_def validateBasicTxMsgs_def runMsgs_def bankApp_def gnolandEnv_def
  handleMsgSend_def abciResult_def IsAllPositive_def NewGasMeter_def

lemmas ante_eval = sendTx_def sendStart_def bankEnv_def bankInfo_def AnteHandler_def SetGasMeter_def anteBody_def ValidateSigCount_def DefaultParams_def
  IsOK_def TxValidateBasic_def CoinIsValid_def GetSigners_def maxGasWanted_def ValidateMemo_def GetSignerAcc_def antePay_def payFees_def
  DeductFees_def anteSign_def processSig_def ProcessPubKey_def GetSignBytes_def SetPubKey_def SetSequence_def payerEntries_def payer_def Let_def validate_def

lemma send_runs:
  "\<exists>res ctx gw b. specTx goOvf (bankApp bankEnv) bankInfo RunTxModeDeliver (sendTx 3) (sendStart m, 0) = (Inr res, (ctx, gw)) \<and> IsOK res
     \<and> curMeter ctx = Basic b \<and> 1000 < consumed b \<and> consumed b < 100000 \<and> gasLimit b = 100000"
  by (simp add: tx_eval ante_eval plain_eval bank_eval)

lemma send_fails:
  "\<exists>res ctx gw b. specTx goOvf (bankApp bankEnv) bankInfo RunTxModeDeliver (sendTx 30) (sendStart m, 0) = (Inr res, (ctx, gw)) \<and> \<not> IsOK res
     \<and> curMeter ctx = Basic b \<and> 1000 < consumed b \<and> consumed b < 100000 \<and> gasLimit b = 100000"
  by (simp add: tx_eval ante_eval plain_eval bank_eval)

lemma payer_state:
  assumes "n < 2 ^ 60"
  obtains st where "stateOk n st" "views (stMs st) = [(''acc'', payerEntries)]" "stBlockMeter st = Some block"
    "deliverStart st block = sendStart (Passthrough (Infinite 0) \<lparr>gasLimit = Remaining block, consumed = 0\<rparr>)"
proof -
  obtain t where t: "iavlInv n t" "entries t = payerEntries"
    using payer_tree[OF assms] by blast
  have "cacheInv entries iavlInv n (newCache t)" "cacheAbs entries (newCache t) = payerEntries"
    using kv_store.cache_new[OF iavl.kv_store_axioms t(1)] t(2) by simp_all
  then show thesis
    by (intro that[of "\<lparr>stMs = [(''acc'', newCache t)], stMeter = Infinite 0, stBlockMeter = Some block\<rparr>"])
      (simp_all add: stateOk_def deliverStart_def sendStart_def)
qed

definition bigBlock :: GasMeter where
  "bigBlock = Basic \<lparr>gasLimit = 1000000, consumed = 0\<rparr>"

lemma bigBlock_room: "0 \<le> Remaining bigBlock" "\<not> IsOutOfGas bigBlock"
  by (simp_all add: bigBlock_def basicRemaining_def basicGasConsumedToLimit_def basicIsPastLimit_def basicIsOutOfGas_def swrap64_id)

lemma bigBlock_charge:
  assumes "curMeter ctx = Basic b" "0 \<le> consumed b" "consumed b < 100000" "gasLimit b = 100000"
  shows "fst (deferBlockGas goOvf (GasConsumed bigBlock) (curMeter ctx) bigBlock) = Inr ()"
  using assms by (simp add: bigBlock_def deferBlockGas_def basicGasConsumedToLimit_def basicIsPastLimit_def basicConsumeGas_def goOvf_def
      int64_def swrap64_id bindA_def)

lemma send_bound: "txBound (bankApp bankEnv) bankInfo RunTxModeDeliver (sendTx n) 14 0 10"
  using bankTx_bound[of bankEnv bankInfo RunTxModeDeliver "sendTx n"] by (simp add: anteCalls_def sendTx_def)

lemma bankEnv_simps: "aeOvf bankEnv = goOvf" "aeKeeper bankEnv = plainKeeper" "ciHeight bankInfo \<noteq> 0"
  "int64 (Amount (GasFee (sendTx 3)))" "list_all msgInt64 (txMsgs (sendTx 3))" "bankTxCalls (sendTx n) = 24"
  by (simp_all add: bankEnv_def bankInfo_def sendTx_def int64_def int64Coins_def bankTxCalls_def anteCalls_def)

lemma send_delta: "feeDelta (gnolandEnv bankEnv) (sendTx 3) a ''aaa'' + (\<Sum>msg\<leftarrow>txMsgs (sendTx 3). msgDelta msg a ''aaa'')
    = (if a = [9] then 1 else if a = [2] then 3 else if a = [1] then - 4 else 0)"
  by (simp add: feeDelta_def gnolandEnv_def bankEnv_def sendTx_def GetSigners_def)

subsection \<open>Properties\<close>



text \<open>
  C32: If a delivered transaction reports an error and the block had room for its gas, none of the
  writes of its messages are kept: the entries are those before the transaction or those the ante
  handler left.
\<close>

theorem failed_tx_drops_messages:
  assumes "txBound app info RunTxModeDeliver tx i j k" "stateOk (n + k + i + j) st" "stBlockMeter st = Some block"
    "0 \<le> Remaining block" "\<not> IsOutOfGas block" "runTx ov (cacheOps iavlOps) app info RunTxModeDeliver tx st = (Inr res, st')"
    "\<not> IsOK res" "fst (deferBlockGas ov (GasConsumed block) (curMeter (fst (snd (specTx ov app info RunTxModeDeliver tx (deliverStart st block, 0))))) block) = Inr ()"
  shows "views (stMs st') = views (stMs st) \<or> (\<exists>h out c1. anteHandler app = Some h
     \<and> runAnte ov absOps app tx (h info tx False) (deliverStart st block) = (Inr out, c1) \<and> \<not> abort out \<and> views (stMs st') = ms c1)"
proof -
  obtain r ctx gw g block' where d: "specTx ov app info RunTxModeDeliver tx (deliverStart st block, 0) = (r, (ctx, gw))"
      "deferBlockGas ov (GasConsumed block) (curMeter ctx) block = (g, block')" "(Inr res :: Result result) = Inr (deferRecover r g gw (curMeter ctx))"
      "views (stMs st') = ms ctx" "stBlockMeter st' = Some block'" "stateOk n st'"
    using deliver_simE[OF assms(1-6)] .
  have "g = Inr ()"
    using assms(8) d(1,2) by simp
  then have bad: "\<not> IsOK x" if "r = Inr x" for x
    using assms(7) d(3) that by (simp add: deferRecover_def IsOK_def Let_def)
  then show ?thesis
    using specTx_error[OF d(1) bad] d(4) by (simp add: deliverStart_def)
qed

theorem failed_tx_drops_messages_witness:
  "\<exists>st st' res. runTx goOvf (cacheOps iavlOps) (bankApp bankEnv) bankInfo RunTxModeDeliver (sendTx 30) st = (Inr res, st') \<and> \<not> IsOK res
     \<and> (views (stMs st') = views (stMs st) \<or> (\<exists>out c1. runAnte goOvf absOps (bankApp bankEnv) (sendTx 30)
          (AnteHandler (gnolandEnv bankEnv) bankInfo (sendTx 30) False) (deliverStart st bigBlock) = (Inr out, c1) \<and> \<not> abort out \<and> views (stMs st') = ms c1))"
proof -
  obtain st where st: "stateOk (0 + 10 + 14 + 0) st" "stBlockMeter st = Some bigBlock"
      "deliverStart st bigBlock = sendStart (Passthrough (Infinite 0) \<lparr>gasLimit = Remaining bigBlock, consumed = 0\<rparr>)"
    by (rule payer_state[of "0 + 10 + 14 + 0" bigBlock]) auto
  obtain out st' where run: "runTx goOvf (cacheOps iavlOps) (bankApp bankEnv) bankInfo RunTxModeDeliver (sendTx 30) st = (out, st')"
    by fastforce
  obtain res0 ctx gw b where r: "specTx goOvf (bankApp bankEnv) bankInfo RunTxModeDeliver (sendTx 30) (deliverStart st bigBlock, 0) = (Inr res0, (ctx, gw))"
      "\<not> IsOK res0" "curMeter ctx = Basic b" "1000 < consumed b" "consumed b < 100000" "gasLimit b = 100000"
    using send_fails[of "Passthrough (Infinite 0) \<lparr>gasLimit = Remaining bigBlock, consumed = 0\<rparr>"] st(3) by auto
  have g: "fst (deferBlockGas goOvf (GasConsumed bigBlock) (curMeter ctx) bigBlock) = Inr ()"
    using bigBlock_charge[OF r(3) _ r(5,6)] r(4) by simp
  have "out = Inr (deferRecover (Inr res0) (Inr ()) gw (curMeter ctx))"
    using deliver_simE[OF send_bound st(1,2) bigBlock_room run] r(1) g by (metis fst_conv prod.inject)
  then obtain res where res: "out = Inr res" "\<not> IsOK res"
    using r(2) by (auto simp: deferRecover_def IsOK_def Let_def)
  have "views (stMs st') = views (stMs st) \<or> (\<exists>out c1. runAnte goOvf absOps (bankApp bankEnv) (sendTx 30)
      (AnteHandler (gnolandEnv bankEnv) bankInfo (sendTx 30) False) (deliverStart st bigBlock) = (Inr out, c1) \<and> \<not> abort out \<and> views (stMs st') = ms c1)"
    using failed_tx_drops_messages[OF send_bound st(1,2) bigBlock_room run[unfolded res(1)] res(2)] g r(1) by simp
  then show ?thesis
    using run[unfolded res(1)] res(2) by blast
qed

text \<open>
  C33: If all messages of a delivered transaction succeed and the gas it used does not fit in the
  block, the result is an out of gas error, and yet all its writes are kept.
\<close>

theorem block_gas_error_keeps_writes:
  assumes "txBound app info RunTxModeDeliver tx i j k" "stateOk (n + k + i + j) st" "stBlockMeter st = Some (Basic b)"
    "consumed b < gasLimit b" "ovf_spec ov" "0 \<le> consumed b" "int64 (gasLimit b)"
    "specTx ov app info RunTxModeDeliver tx (deliverStart st (Basic b), 0) = (Inr res0, (ctx, gasWanted))" "IsOK res0"
    "0 \<le> GasConsumedToLimit (curMeter ctx)" "int64 (consumed b + GasConsumedToLimit (curMeter ctx))"
    "gasLimit b < consumed b + GasConsumedToLimit (curMeter ctx)"
    "runTx ov (cacheOps iavlOps) app info RunTxModeDeliver tx st = (out, st')"
  shows "\<exists>res. out = Inr res \<and> resError res = Some OutOfGasError \<and> views (stMs st') = ms ctx"
proof -
  have b: "0 \<le> Remaining (Basic b)" "\<not> IsOutOfGas (Basic b)"
    using assms(4,6,7) by (simp_all add: basicRemaining_def basicGasConsumedToLimit_def basicIsPastLimit_def basicIsOutOfGas_def swrap64_id int64_def)
  obtain r c gw g block' where d: "specTx ov app info RunTxModeDeliver tx (deliverStart st (Basic b), 0) = (r, (c, gw))"
      "deferBlockGas ov (GasConsumed (Basic b)) (curMeter c) (Basic b) = (g, block')" "out = Inr (deferRecover r g gw (curMeter c))"
      "views (stMs st') = ms c" "stBlockMeter st' = Some block'" "stateOk n st'"
    using deliver_simE[OF assms(1-3) b assms(13)] .
  have c: "r = Inr res0" "c = ctx"
    using d(1) assms(8) by simp_all
  have "Add64 ov (consumed b) (GasConsumedToLimit (curMeter ctx)) = (consumed b + GasConsumedToLimit (curMeter ctx), True)"
    using assms(4-7,10-11) by (simp add: ovf_spec_def int64_def swrap64_id)
  then have "g = Inl (OutOfGasException ''block gas meter'')"
    using d(2) c(2) assms(10,12) by (auto simp: deferBlockGas_def basicConsumeGas_def bindA_def Let_def)
  then show ?thesis
    using d(3,4) c by (simp add: deferRecover_def Let_def)
qed

theorem block_gas_error_keeps_writes_witness:
  "\<exists>st st' res. runTx goOvf (cacheOps iavlOps) (bankApp bankEnv) bankInfo RunTxModeDeliver (sendTx 3) st = (Inr res, st')
     \<and> resError res = Some OutOfGasError \<and> held (balanceOf plainKeeper (views (stMs st)) [2]) ''aaa'' = 0
     \<and> held (balanceOf plainKeeper (views (stMs st')) [2]) ''aaa'' = 3"
proof -
  let ?b = "\<lparr>gasLimit = 500, consumed = 0\<rparr>"
  obtain st where st: "stateOk (0 + 10 + 14 + 0) st" "views (stMs st) = [(''acc'', payerEntries)]" "stBlockMeter st = Some (Basic ?b)"
      "deliverStart st (Basic ?b) = sendStart (Passthrough (Infinite 0) \<lparr>gasLimit = Remaining (Basic ?b), consumed = 0\<rparr>)"
    by (rule payer_state[of "0 + 10 + 14 + 0" "Basic ?b"]) auto
  obtain out st' where run: "runTx goOvf (cacheOps iavlOps) (bankApp bankEnv) bankInfo RunTxModeDeliver (sendTx 3) st = (out, st')"
    by fastforce
  obtain res0 ctx gw b where r: "specTx goOvf (bankApp bankEnv) bankInfo RunTxModeDeliver (sendTx 3) (deliverStart st (Basic ?b), 0) = (Inr res0, (ctx, gw))"
      "IsOK res0" "curMeter ctx = Basic b" "1000 < consumed b" "consumed b < 100000" "gasLimit b = 100000"
    using send_runs[of "Passthrough (Infinite 0) \<lparr>gasLimit = Remaining (Basic ?b), consumed = 0\<rparr>"] st(4) by auto
  have used: "GasConsumedToLimit (curMeter ctx) = consumed b"
    using r(3,5,6) by (simp add: basicGasConsumedToLimit_def basicIsPastLimit_def)
  obtain res where res: "out = Inr res" "resError res = Some OutOfGasError" "views (stMs st') = ms ctx"
    using block_gas_error_keeps_writes[OF send_bound st(1,3) _ goOvf_spec _ _ r(1,2) _ _ _ run] used r(4,5) by (auto simp: int64_def)
  have start: "ms (deliverStart st (Basic ?b)) = [(''acc'', payerEntries)]"
    using st(2) by (simp add: deliverStart_def)
  have two: "held (balanceOf plainKeeper [(''acc'', payerEntries)] [2]) ''aaa'' = 0"
    by (simp add: balanceOf_def accountAt_def payerEntries_def plainKeeper_simps(1))
  have "held (balanceOf plainKeeper (ms ctx) [2]) ''aaa'' = 3"
    using bankTx_effect(4)[OF _ _ _ _ _ _ r(1,2), unfolded bankEnv_simps start] bankEnv_simps goOvf_spec plainKeeper_spec payer_ok(1)
      send_delta[of "[2]"] two by simp
  then show ?thesis
    using run[unfolded res(1)] res(2) two[folded st(2)] unfolding res(3)[symmetric] by blast
qed



end
