(* ===== verification/Spec2Isabelle.thy ===== *)
theory Spec2Isabelle
  imports Op_Correct Gnoland_App
begin

text \<open>
  Verification of gno: a blockchain node whose contracts are interpreted Go programs. The node keeps
  its state in authenticated key-value stores, runs transactions over cache-wraps of them, and executes
  contracts in the GnoVM, an interpreter of Go. The development models the following parts, bottom up;
  source paths are below \<^verbatim>\<open>src/\<close>.

  \<^bold>\<open>Conventions.\<close> A Go panic is \<open>Inl\<close> of the type \<open>panic\<close> and \<open>bindR\<close> runs on; a call that changes state is
  a function from the state to its outcome and the state it left, also when it panicked (\<open>act\<close> and
  \<open>bindA\<close> in \<open>Kv_Store\<close>). Sized integers are words, or \<open>int\<close> with \<open>swrap\<close> where the code's operators
  wrap; a nil slice is \<open>None\<close>. Loops are recursive functions with a termination proof, so that every
  model function returns. The one function with fuel is \<open>isEql\<close>, whose recursion follows arrays and
  structs through the heap: the fuel bounds the nesting, and running out of it is Go's stack overflow. On
  values of primitive types any positive fuel is enough, which is what the property about comparisons
  says.

  \<^bold>\<open>IAVL+ tree\<close> (\<^verbatim>\<open>pkgs/iavl\<close>): \<open>Iavl_Tree\<close> has the nodes and the operations of the immutable and the
  mutable tree, \<open>Iavl_Invariants\<close> search order, balance, sizes and rotations, \<open>Iavl_Correct\<close> the
  properties: every operation acts on the sorted list of entries, positions and ranks are inverse for
  every 64-bit index, any sequence of edits keeps the depth logarithmic in the number of entries, an
  insertion records as orphans exactly the persisted nodes it drops, and a removal forgets one, the parent
  of the removed leaf. The tree is held in memory.

  \<^bold>\<open>Stores\<close> (\<^verbatim>\<open>pkgs/store\<close>): \<open>Kv_Store\<close> is the interface, with the locale \<open>kv_store\<close> as its contract;
  \<open>Iavl_Store\<close>, \<open>Cache_Store\<close>, \<open>Prefix_Store\<close> and \<open>Gas_Store\<close> are the stores, \<open>Cache_Correct\<close> and
  \<open>Prefix_Correct\<close> show that a cache-wrap and a prefix view of a store are stores, and \<open>Store_Correct\<close>
  interprets the contract on the stack the application uses and relates a cached run to a direct one.
  \<open>ok n s\<close> bounds the number of writes a tree still takes, since its size is a 64-bit integer. Gas
  meters are basic, infinite or stacked; a write reaches the parent exactly when all have room. Iterators
  are drained before the next call on their store.

  \<^bold>\<open>Coins\<close> (\<^verbatim>\<open>pkgs/std/coin.go\<close>): \<open>Coins\<close> has all operations, \<open>Coins_Correct\<close> relates them to amounts per
  denomination and shows that printing and parsing are inverse, and Amino's encoding as a string up to
  coins of amount zero, whose denomination is lost. The checked arithmetic of the package
  gnolang/overflow is the parameter \<open>ovf\<close> with the hypothesis \<open>ovf_spec\<close>.

  \<^bold>\<open>Application SDK\<close> (\<^verbatim>\<open>pkgs/sdk\<close>, \<^verbatim>\<open>gnoland/app.go\<close>): \<open>Sdk_Prog\<close> has the context; code that uses a context is a
  program of store calls and gas consumption, run by \<open>runProg\<close> on any stack of stores. \<open>Base_App\<close> has
  multi-stores and \<open>runTx\<close> with its ante step, its message step and its two deferred functions;
  \<open>Sdk_Correct\<close> relates a run on cache-wraps to a run on plain lists of entries, for programs whose number
  of store calls is bounded (\<open>callBound\<close>). \<open>Accounts\<close> and \<open>Bank\<close> have the two keepers and the bank's
  messages and handler, \<open>Bank_Correct\<close> the effect of transfers on balances. \<open>Ante\<close> has transactions and the
  ante handler, \<open>Ante_Correct\<close> what it has checked and changed when it lets a transaction pass, and that
  a transaction does not pass twice. \<open>Gnoland_App\<close> puts the application together and has the properties
  of delivered transactions. Amino's encoding of accounts is a pair of fields of the account keeper with
  the hypothesis \<open>codec_spec\<close>; \<open>Plain_Codec\<close> is an encoding that satisfies it, on which examples are
  evaluated. Signature verification, addresses of keys and bytes to sign are fields of the ante handler's
  environment; that a signature does not verify for two sequence numbers is the hypothesis \<open>bindingSigs\<close>.

  \<^bold>\<open>GnoVM\<close> (\<^verbatim>\<open>pkgs/gnolang\<close>): \<open>Gno_Types\<close> has the types, \<open>Go_Float\<close> IEEE-754 arithmetic, \<open>Gno_Values\<close>
  the values, the allocator and the accessors, \<open>Typed_Value\<close> typed values, \<open>Op_Binary\<close> the operators,
  \<open>Op_Correct\<close> their agreement with Go's operators at each width, binary and unary, and on single bytes of
  an array in the heap. The machine is 64-bit little-endian and
  the debug flag is off.

  \<^bold>\<open>Not modelled.\<close> The preprocessor and the machine loop of the GnoVM, its persistence and its native
  bridge; the IAVL node database and its proofs; the committing multi-store, block boundaries, queries, logs
  and events of the application, its vm keeper and genesis; consensus, networking, RPC and the commands, which are
  concurrent processes around sockets, files and timers; cryptography; Amino's reflection-based codec.
\<close>

end
